(* ===== verification/Prelude.thy ===== *)
theory Prelude
  imports Main "HOL-Library.Word" "HOL-Library.List_Lexorder"
begin

text \<open>
  Shared vocabulary of the development: the three-valued outcome of a Rust call (a value, an
  error value, or a panic), machine integers at their width, the standard-library containers and
  iterator adaptors the code uses (\<open>BTreeMap\<close>, \<open>HashSet\<close>, \<open>max_by_key\<close>, \<open>binary_search_by_key\<close>),
  and the rewrite collections that carry the component proofs.
\<close>

named_theorems result_simps \<open>rules that take an outcome apart\<close>

section \<open>Outcomes\<close>

text \<open>
  \<open>Ok\<close> and \<open>Err\<close> are the constructors of Rust's \<open>Result\<close>; \<open>Panic\<close> stands for an unwinding
  (\<open>unwrap\<close> on \<open>None\<close>, \<open>expect\<close>, a failed \<open>assert!\<close>, an index out of range).
\<close>

datatype ('e, 'a) result = Ok 'a | Err 'e | Panic

fun and_then :: "('e, 'a) result \<Rightarrow> ('a \<Rightarrow> ('e, 'b) result) \<Rightarrow> ('e, 'b) result" where
  "and_then (Ok a) f = f a"
| "and_then (Err e) f = Err e"
| "and_then Panic f = Panic"

fun map_err :: "('e \<Rightarrow> 'd) \<Rightarrow> ('e, 'a) result \<Rightarrow> ('d, 'a) result" where
  "map_err g (Ok a) = Ok a"
| "map_err g (Err e) = Err (g e)"
| "map_err g Panic = Panic"

fun ok_or :: "'e \<Rightarrow> 'a option \<Rightarrow> ('e, 'a) result" where
  "ok_or e None = Err e"
| "ok_or e (Some a) = Ok a"

fun or_panic :: "'a option \<Rightarrow> ('e, 'a) result" where
  "or_panic None = Panic"
| "or_panic (Some a) = Ok a"

text \<open>\<open>iter().map(f).collect::<Result<Vec<_>, _>>()\<close> stops at the first error.\<close>

fun try_map :: "('a \<Rightarrow> ('e, 'b) result) \<Rightarrow> 'a list \<Rightarrow> ('e, 'b list) result" where
  "try_map f [] = Ok []"
| "try_map f (x # xs) = and_then (f x) (\<lambda>y. and_then (try_map f xs) (\<lambda>ys. Ok (y # ys)))"

text \<open>\<open>opt.map(f).transpose()\<close>.\<close>

fun try_option :: "('a \<Rightarrow> ('e, 'b) result) \<Rightarrow> 'a option \<Rightarrow> ('e, 'b option) result" where
  "try_option f None = Ok None"
| "try_option f (Some x) = and_then (f x) (\<lambda>y. Ok (Some y))"

definition is_ok :: "('e, 'a) result \<Rightarrow> bool" where
  "is_ok r \<longleftrightarrow> (case r of Ok _ \<Rightarrow> True | _ \<Rightarrow> False)"

lemma is_ok_simps [simp]: "is_ok (Ok a)" "\<not> is_ok (Err e)" "\<not> is_ok Panic"
  by (simp_all add: is_ok_def)

lemma and_then_eq_Ok [result_simps]:
  "and_then r f = Ok b \<longleftrightarrow> (\<exists>a. r = Ok a \<and> f a = Ok b)"
  by (cases r) auto

lemma and_then_eq_Err [result_simps]:
  "and_then r f = Err e \<longleftrightarrow> r = Err e \<or> (\<exists>a. r = Ok a \<and> f a = Err e)"
  by (cases r) auto

lemma and_then_eq_Panic [result_simps]:
  "and_then r f = Panic \<longleftrightarrow> r = Panic \<or> (\<exists>a. r = Ok a \<and> f a = Panic)"
  by (cases r) auto

lemma map_err_eq_Ok [result_simps]: "map_err g r = Ok a \<longleftrightarrow> r = Ok a"
  by (cases r) auto

lemma map_err_eq_Err [result_simps]: "map_err g r = Err d \<longleftrightarrow> (\<exists>e. r = Err e \<and> d = g e)"
  by (cases r) auto

lemma map_err_eq_Panic [result_simps]: "map_err g r = Panic \<longleftrightarrow> r = Panic"
  by (cases r) auto

lemma ok_or_eq_Ok [result_simps]: "ok_or e x = Ok a \<longleftrightarrow> x = Some a"
  by (cases x) auto

lemma ok_or_eq_Err [result_simps]: "ok_or e x = Err d \<longleftrightarrow> x = None \<and> d = e"
  by (cases x) auto

lemma ok_or_neq_Panic [simp]: "ok_or e x \<noteq> Panic"
  by (cases x) auto

lemma or_panic_eq_Ok [result_simps]: "or_panic x = Ok a \<longleftrightarrow> x = Some a"
  by (cases x) auto

lemma or_panic_neq_Err [simp]: "or_panic x \<noteq> Err e"
  by (cases x) auto

lemma or_panic_eq_Panic [result_simps]: "or_panic x = Panic \<longleftrightarrow> x = None"
  by (cases x) auto

lemma and_then_assoc: "and_then (and_then r f) g = and_then r (\<lambda>a. and_then (f a) g)"
  by (cases r) auto

lemma and_then_Ok_right [simp]: "and_then r Ok = r"
  by (cases r) auto

lemma try_map_all_Ok:
  "(\<And>x. x \<in> set xs \<Longrightarrow> f (g x) = Ok (h x)) \<Longrightarrow> try_map f (map g xs) = Ok (map h xs)"
  by (induction xs) auto

lemma try_map_roundtrip:
  "(\<And>x. x \<in> set xs \<Longrightarrow> f (g x) = Ok x) \<Longrightarrow> try_map f (map g xs) = Ok xs"
  by (induction xs) auto

lemma try_map_Ok_set: "try_map f xs = Ok ys \<Longrightarrow> y \<in> set ys \<Longrightarrow> \<exists>x \<in> set xs. f x = Ok y"
  by (induction xs arbitrary: ys) (auto simp: result_simps)

lemma try_map_eq_Ok_length: "try_map f xs = Ok ys \<Longrightarrow> length ys = length xs"
  by (induction xs arbitrary: ys) (auto simp: result_simps)

lemma try_map_eq_Ok_iff:
  "try_map f xs = Ok ys \<longleftrightarrow> list_all2 (\<lambda>x y. f x = Ok y) xs ys"
  by (induction xs arbitrary: ys) (auto simp: result_simps list_all2_Cons1)

section \<open>Machine integers\<close>

text \<open>
  Unsigned and signed integers share the word type of their width: an \<open>i64\<close> is read with
  \<open>sint\<close>, and a conversion between the two signs that succeeds keeps the bits.
\<close>

type_synonym u8 = "8 word"
type_synonym u32 = "32 word"
type_synonym i32 = "32 word"
type_synonym u64 = "64 word"
type_synonym i64 = "64 word"
type_synonym bytes = "u8 list"

definition i64_max :: u64 where
  "i64_max = 0x7FFFFFFFFFFFFFFF"

definition i32_max :: u32 where
  "i32_max = 0x7FFFFFFF"

text \<open>\<open>fits_i64 v\<close>: the conversion between \<open>u64\<close> and \<open>i64\<close> succeeds on the bits \<open>v\<close>.\<close>

definition fits_i64 :: "u64 \<Rightarrow> bool" where
  "fits_i64 v \<longleftrightarrow> v \<le> i64_max"

definition fits_i32 :: "u32 \<Rightarrow> bool" where
  "fits_i32 v \<longleftrightarrow> v \<le> i32_max"

definition checked_add :: "u64 \<Rightarrow> u64 \<Rightarrow> u64 option" where
  "checked_add a b = (if unat a + unat b < 2 ^ 64 then Some (a + b) else None)"

definition saturating_add :: "u64 \<Rightarrow> u64 \<Rightarrow> u64" where
  "saturating_add a b = (if unat a + unat b < 2 ^ 64 then a + b else - 1)"

lemma unat_i64_max: "unat i64_max = 2 ^ 63 - 1"
  by (simp add: i64_max_def)

lemma fits_i64_unat: "fits_i64 v \<longleftrightarrow> unat v < 2 ^ 63"
  by (auto simp: fits_i64_def word_le_nat_alt unat_i64_max)

lemma unat_u64_le [simp]: "unat (h :: u64) \<le> 18446744073709551615"
  using unsigned_less [of h, where ?'a = nat] by simp

lemma unat_u32_le [simp]: "unat (r :: u32) \<le> 4294967295"
  using unsigned_less [of r, where ?'a = nat] by simp

lemma unat_add_no_overflow:
  fixes a b :: u64
  assumes "unat a + unat b < 2 ^ 64"
  shows "unat (a + b) = unat a + unat b"
  using assms by (simp add: unat_word_ariths)

lemma unat_mult_no_overflow:
  fixes a b :: u64
  assumes "unat a * unat b < 2 ^ 64"
  shows "unat (a * b) = unat a * unat b"
  using assms by (simp add: unat_word_ariths)

lemma fits_i64_iff_sint: "fits_i64 v \<longleftrightarrow> 0 \<le> sint v"
proof -
  have "unat v < 2 ^ 64"
    using unsigned_less [of v] by simp
  then have "unat v div 2 ^ 63 < 2"
    by (simp add: div_less_iff_less_mult)
  then have "odd (unat v div 2 ^ 63) \<longleftrightarrow> 0 < unat v div 2 ^ 63"
    by (auto dest: less_2_cases)
  moreover have "bit v 63 \<longleftrightarrow> odd (unat v div 2 ^ 63)"
    unfolding bit_nat_def [symmetric] by (simp add: bit_unsigned_iff)
  ultimately have "bit v 63 \<longleftrightarrow> \<not> unat v < 2 ^ 63"
    by (simp add: div_greater_zero_iff not_less)
  moreover have "bit v 63 \<longleftrightarrow> sint v < 0"
    using bit_last_iff [of v] by simp
  ultimately show ?thesis
    by (auto simp: fits_i64_unat)
qed

lemma sint_of_int_64: "- (2 ^ 63) \<le> k \<Longrightarrow> k < 2 ^ 63 \<Longrightarrow> sint (word_of_int k :: 64 word) = k"
  by (simp add: signed_of_int signed_take_bit_int_eq_self)

lemma nat_sint: "\<not> sint (i :: u64) < 0 \<Longrightarrow> nat (sint i) = unat i"
proof -
  assume "\<not> sint i < 0"
  then have "unat i < 2 ^ 63" by (simp add: not_less fits_i64_iff_sint [symmetric] fits_i64_unat)
  then have "int (unat i) < int (2 ^ 63)" by (rule of_nat_less_iff [THEN iffD2])
  then have "uint i < 2 ^ 63" by simp
  then have "sint i = uint i" using sint_of_int_64 [of "uint i"] uint_nonnegative [of i] by simp
  then show ?thesis by simp
qed

section \<open>Iterators and slices\<close>

text \<open>
  \<open>Iterator::max_by_key\<close> keeps the last of several maxima, \<open>min_by_key\<close> the first of several
  minima.
\<close>

fun max_by_key :: "('a \<Rightarrow> 'k::linorder) \<Rightarrow> 'a list \<Rightarrow> 'a option" where
  "max_by_key f [] = None"
| "max_by_key f (x # xs) =
     (case max_by_key f xs of None \<Rightarrow> Some x | Some y \<Rightarrow> Some (if f y < f x then x else y))"

fun min_by_key :: "('a \<Rightarrow> 'k::linorder) \<Rightarrow> 'a list \<Rightarrow> 'a option" where
  "min_by_key f [] = None"
| "min_by_key f (x # xs) =
     (case min_by_key f xs of None \<Rightarrow> Some x | Some y \<Rightarrow> Some (if f y < f x then y else x))"

lemma max_by_key_None_iff [simp]: "max_by_key f xs = None \<longleftrightarrow> xs = []"
  by (cases xs) (auto split: option.splits)

lemma min_by_key_None_iff [simp]: "min_by_key f xs = None \<longleftrightarrow> xs = []"
  by (cases xs) (auto split: option.splits)

lemma max_by_key_SomeD:
  "max_by_key f xs = Some m \<Longrightarrow> m \<in> set xs \<and> (\<forall>x \<in> set xs. f x \<le> f m)"
  by (induction xs arbitrary: m) (force split: option.splits if_splits)+

lemma min_by_key_SomeD:
  "min_by_key f xs = Some m \<Longrightarrow> m \<in> set xs \<and> (\<forall>x \<in> set xs. f m \<le> f x)"
  by (induction xs arbitrary: m) (force split: option.splits if_splits)+

text \<open>\<open>slice::binary_search_by_key\<close> on a slice sorted by the key.\<close>

function bsearch :: "('a \<Rightarrow> 'k::linorder) \<Rightarrow> 'a list \<Rightarrow> 'k \<Rightarrow> nat \<Rightarrow> nat \<Rightarrow> nat option" where
  "bsearch f xs k lo hi =
     (if lo < hi then
        let mid = lo + (hi - lo) div 2
        in if f (xs ! mid) = k then Some mid
           else if f (xs ! mid) < k then bsearch f xs k (Suc mid) hi
           else bsearch f xs k lo mid
      else None)"
  by pat_completeness auto
termination
  by (relation "measure (\<lambda>(f, xs, k, lo, hi). hi - lo)") auto

declare bsearch.simps [simp del]

definition binary_search_by_key :: "('a \<Rightarrow> 'k::linorder) \<Rightarrow> 'a list \<Rightarrow> 'k \<Rightarrow> nat option" where
  "binary_search_by_key f xs k = bsearch f xs k 0 (length xs)"

lemma bsearch_SomeD:
  "bsearch f xs k lo hi = Some i \<Longrightarrow> lo \<le> i \<and> i < hi \<and> f (xs ! i) = k"
proof (induction f xs k lo hi rule: bsearch.induct)
  case (1 f xs k lo hi)
  then show ?case
    by (subst (asm) (2) bsearch.simps) (fastforce simp: Let_def split: if_splits)
qed

lemma bsearch_NoneD:
  assumes "bsearch f xs k lo hi = None" and "sorted (map f xs)" and "hi \<le> length xs"
    and "lo \<le> i" and "i < hi"
  shows "f (xs ! i) \<noteq> k"
  using assms
proof (induction f xs k lo hi rule: bsearch.induct)
  case (1 f xs k lo hi)
  define mid where "mid = lo + (hi - lo) div 2"
  have lt: "lo < hi" using "1.prems" by simp
  have mid: "lo \<le> mid" "mid < hi" using lt by (auto simp: mid_def)
  have mono: "f (xs ! a) \<le> f (xs ! b)" if "a \<le> b" "b < length xs" for a b
    using that sorted_nth_mono [OF "1.prems"(2), of a b] by simp
  note unf = bsearch.simps [of f xs k lo hi, folded mid_def, unfolded Let_def, folded mid_def]
  have neq: "f (xs ! mid) \<noteq> k"
    using "1.prems"(1) lt by (auto simp: unf)
  show ?case
  proof (cases "f (xs ! mid) < k")
    case True
    then have r: "bsearch f xs k (Suc mid) hi = None"
      using "1.prems"(1) lt neq by (simp add: unf)
    show ?thesis
    proof (cases "i \<le> mid")
      case True
      then show ?thesis using mono [of i mid] mid "1.prems"(3) \<open>f (xs ! mid) < k\<close> by fastforce
    next
      case False
      then show ?thesis
        using "1.IH"(1) [OF lt mid_def neq True r] "1.prems" by simp
    qed
  next
    case False
    then have r: "bsearch f xs k lo mid = None"
      using "1.prems"(1) lt neq by (simp add: unf)
    show ?thesis
    proof (cases "i < mid")
      case True
      then show ?thesis
        using "1.IH"(2) [OF lt mid_def neq False r] "1.prems" mid by simp
    next
      case False
      then show ?thesis
        using mono [of mid i] "1.prems" \<open>\<not> f (xs ! mid) < k\<close> neq by fastforce
    qed
  qed
qed

lemma binary_search_by_key_SomeD:
  "binary_search_by_key f xs k = Some i \<Longrightarrow> i < length xs \<and> f (xs ! i) = k"
  unfolding binary_search_by_key_def by (drule bsearch_SomeD) simp

lemma binary_search_by_key_NoneD:
  "binary_search_by_key f xs k = None \<Longrightarrow> sorted (map f xs) \<Longrightarrow> k \<notin> f ` set xs"
  unfolding binary_search_by_key_def
  by (auto simp: in_set_conv_nth dest: bsearch_NoneD)

text \<open>\<open>windows(2).find(p)\<close>: the first adjacent pair that satisfies \<open>p\<close>.\<close>

fun find_adjacent :: "('a \<Rightarrow> 'a \<Rightarrow> bool) \<Rightarrow> 'a list \<Rightarrow> ('a \<times> 'a) option" where
  "find_adjacent p (x # y # zs) = (if p x y then Some (x, y) else find_adjacent p (y # zs))"
| "find_adjacent p _ = None"

lemma find_adjacent_None_distinct:
  "sorted (map f xs) \<Longrightarrow> find_adjacent (\<lambda>a b. f a = f b) xs = None \<Longrightarrow> distinct (map f xs)"
proof (induction "\<lambda>a b. f a = f b" xs rule: find_adjacent.induct)
  case (1 x y zs)
  then have "f x < f y" and "distinct (map f (y # zs))"
    by (auto split: if_splits simp: less_le)
  moreover have "\<forall>z \<in> set zs. f y \<le> f z"
    using "1.prems"(1) by simp
  ultimately show ?case by fastforce
qed auto

lemma find_adjacent_SomeD: "find_adjacent p xs = Some (a, b) \<Longrightarrow> p a b \<and> {a, b} \<subseteq> set xs"
  by (induction p xs rule: find_adjacent.induct) (auto split: if_splits)

lemma find_adjacent_Some_not_distinct:
  "find_adjacent (\<lambda>a b. f a = f b) xs = Some (a, b) \<Longrightarrow> \<not> distinct (map f xs)"
  by (induction "\<lambda>a b. f a = f b" xs rule: find_adjacent.induct) (auto split: if_splits)

section \<open>BTreeMap and HashSet\<close>

text \<open>
  A \<open>BTreeMap\<close> is the list of its entries in the order its iterator yields them: strictly
  ascending keys. A \<open>HashSet\<close> is a list without repetitions, one of the orders its iterator may
  yield.
\<close>

type_synonym ('k, 'v) btree = "('k \<times> 'v) list"

fun bt_insert :: "'k::linorder \<Rightarrow> 'v \<Rightarrow> ('k, 'v) btree \<Rightarrow> ('k, 'v) btree" where
  "bt_insert k v [] = [(k, v)]"
| "bt_insert k v ((k', v') # m) =
     (if k < k' then (k, v) # (k', v') # m
      else if k = k' then (k, v) # m
      else (k', v') # bt_insert k v m)"

definition bt_remove :: "'k \<Rightarrow> ('k, 'v) btree \<Rightarrow> ('k, 'v) btree" where
  "bt_remove k m = filter (\<lambda>(k', _). k' \<noteq> k) m"

definition bt_inv :: "('k::linorder, 'v) btree \<Rightarrow> bool" where
  "bt_inv m \<longleftrightarrow> sorted_wrt (<) (map fst m)"

lemma bt_inv_Nil [simp]: "bt_inv []"
  by (simp add: bt_inv_def)

lemma bt_inv_distinct: "bt_inv m \<Longrightarrow> distinct (map fst m)"
  by (simp add: bt_inv_def strict_sorted_iff)

lemma set_bt_insert:
  "bt_inv m \<Longrightarrow> set (bt_insert k v m) = insert (k, v) {e \<in> set m. fst e \<noteq> k}"
  by (induction m rule: bt_insert.induct [where ?a0.0 = k and ?a1.0 = v, simplified])
    (auto simp: bt_inv_def)

lemma fst_bt_insert: "fst ` set (bt_insert k v m) = insert k (fst ` set m)"
  by (induction k v m rule: bt_insert.induct) auto

lemma bt_inv_insert [intro]: "bt_inv m \<Longrightarrow> bt_inv (bt_insert k v m)"
proof (induction k v m rule: bt_insert.induct)
  case (2 k v k' v' m)
  then have m: "bt_inv m" "\<forall>x \<in> fst ` set m. k' < x" by (auto simp: bt_inv_def)
  show ?case
  proof (cases "k \<le> k'")
    case True
    then show ?thesis using m "2.prems" by (auto simp: bt_inv_def)
  next
    case False
    then have "bt_inv (bt_insert k v m)" using "2.IH" m by auto
    moreover have "\<forall>x \<in> fst ` set (bt_insert k v m). k' < x"
      using m False by (simp add: fst_bt_insert)
    ultimately show ?thesis using False by (auto simp: bt_inv_def)
  qed
qed (auto simp: bt_inv_def)

lemma bt_inv_remove [intro]: "bt_inv m \<Longrightarrow> bt_inv (bt_remove k m)"
  by (induction m) (auto simp: bt_inv_def bt_remove_def)

lemma map_of_bt_insert [simp]:
  "map_of (bt_insert k v m) = (map_of m)(k \<mapsto> v)"
  by (induction k v m rule: bt_insert.induct) (auto simp: fun_eq_iff)

lemma map_of_bt_remove [simp]: "map_of (bt_remove k m) = (map_of m)(k := None)"
  by (induction m) (auto simp: bt_remove_def fun_eq_iff)

lemma bt_in_iff_map_of: "bt_inv m \<Longrightarrow> (k, v) \<in> set m \<longleftrightarrow> map_of m k = Some v"
  by (metis bt_inv_distinct map_of_eq_Some_iff)

definition hs_insert :: "'a \<Rightarrow> 'a list \<Rightarrow> 'a list" where
  "hs_insert x xs = (if x \<in> set xs then xs else xs @ [x])"

lemma set_hs_insert [simp]: "set (hs_insert x xs) = insert x (set xs)"
  by (auto simp: hs_insert_def)

lemma distinct_hs_insert [simp]: "distinct (hs_insert x xs) \<longleftrightarrow> distinct xs"
  by (auto simp: hs_insert_def)

end
