(* ===== verification/Effects.thy ===== *)
theory Effects
  imports Prelude
begin

text \<open>
  Calls that change a state and may fail: a function from the state to the new state and an
  outcome. As with \<open>&mut\<close> references in the code, what was written before an error stays written.
\<close>

type_synonym ('s, 'e, 'a) call = "'s \<Rightarrow> 's \<times> ('e, 'a) result"

definition lift :: "('e, 'a) result \<Rightarrow> ('s, 'e, 'a) call" where
  "lift r s = (s, r)"

definition sbind :: "('s, 'e, 'a) call \<Rightarrow> ('a \<Rightarrow> ('s, 'e, 'b) call) \<Rightarrow> ('s, 'e, 'b) call" where
  "sbind m f s =
     (case m s of
        (s', Ok a) \<Rightarrow> f a s'
      | (s', Err e) \<Rightarrow> (s', Err e)
      | (s', Panic) \<Rightarrow> (s', Panic))"

definition gets :: "('s \<Rightarrow> ('e, 'a) result) \<Rightarrow> ('s, 'e, 'a) call" where
  "gets g s = (s, g s)"

definition modify :: "('s \<Rightarrow> ('e, 's) result) \<Rightarrow> ('s, 'e, unit) call" where
  "modify g s = (case g s of Ok s' \<Rightarrow> (s', Ok ()) | Err e \<Rightarrow> (s, Err e) | Panic \<Rightarrow> (s, Panic))"

definition fail_if :: "bool \<Rightarrow> 'e \<Rightarrow> ('s, 'e, unit) call" where
  "fail_if P e s = (s, if P then Err e else Ok ())"

lemma lift_apply [simp]: "lift r s = (s, r)"
  by (simp add: lift_def)

lemma gets_apply [simp]: "gets g s = (s, g s)"
  by (simp add: gets_def)

lemma fail_if_apply [simp]: "fail_if P e s = (s, if P then Err e else Ok ())"
  by (simp add: fail_if_def)

lemma sbind_Ok:
  "sbind m f s = (s', Ok b) \<longleftrightarrow> (\<exists>s1 a. m s = (s1, Ok a) \<and> f a s1 = (s', Ok b))"
  by (auto simp: sbind_def split: prod.splits result.splits)

lemma sbind_run: "m s = (s1, Ok a) \<Longrightarrow> sbind m f s = f a s1"
  by (simp add: sbind_def)

lemma modify_Ok [simp]: "modify g s = (s', Ok u) \<longleftrightarrow> g s = Ok s'"
  by (auto simp: modify_def split: result.splits)

section \<open>Preservation\<close>

definition preserves :: "('s \<Rightarrow> bool) \<Rightarrow> ('s, 'e, 'a) call \<Rightarrow> bool" where
  "preserves I m \<longleftrightarrow> (\<forall>s. I s \<longrightarrow> I (fst (m s)))"

lemma preservesD: "preserves I m \<Longrightarrow> m s = (s', r) \<Longrightarrow> I s \<Longrightarrow> I s'"
  unfolding preserves_def by (metis fst_conv)

lemma preserves_lift [simp, intro]: "preserves I (lift r)"
  by (simp add: preserves_def)

lemma preserves_gets [simp, intro]: "preserves I (gets g)"
  by (simp add: preserves_def)

lemma preserves_fail_if [simp, intro]: "preserves I (fail_if P e)"
  by (simp add: preserves_def)

lemma preserves_modify:
  "(\<And>s s'. I s \<Longrightarrow> g s = Ok s' \<Longrightarrow> I s') \<Longrightarrow> preserves I (modify g)"
  by (auto simp: preserves_def modify_def split: result.splits)

text \<open>The continuation may use what the first call established.\<close>

lemma preserves_sbind:
  assumes "preserves I m" "\<And>a s s1. I s \<Longrightarrow> m s = (s1, Ok a) \<Longrightarrow> preserves I (f a)"
  shows "preserves I (sbind m f)"
  unfolding preserves_def
proof (intro allI impI)
  fix s assume I: "I s"
  obtain s1 r where m: "m s = (s1, r)" by (cases "m s")
  from assms(1) m I have "I s1" by (rule preservesD)
  with I m assms(2) show "I (fst (sbind m f s))" by (cases r) (auto simp: sbind_def preserves_def)
qed

section \<open>Calls that may not return\<close>

text \<open>The same with \<open>None\<close> for a call that never returns.\<close>

type_synonym ('s, 'e, 'a) ocall = "'s \<Rightarrow> ('s \<times> ('e, 'a) result) option"

definition olift :: "('s, 'e, 'a) call \<Rightarrow> ('s, 'e, 'a) ocall" where
  "olift m s = Some (m s)"

definition obind :: "('s, 'e, 'a) ocall \<Rightarrow> ('a \<Rightarrow> ('s, 'e, 'b) ocall) \<Rightarrow> ('s, 'e, 'b) ocall" where
  "obind m f s =
     (case m s of
        Some (s', Ok a) \<Rightarrow> f a s'
      | Some (s', Err e) \<Rightarrow> Some (s', Err e)
      | Some (s', Panic) \<Rightarrow> Some (s', Panic)
      | None \<Rightarrow> None)"

definition oresult :: "('e, 'a) result \<Rightarrow> ('s, 'e, 'a) ocall" where
  "oresult r s = Some (s, r)"

lemma olift_apply [simp]: "olift m s = Some (m s)"
  by (simp add: olift_def)

lemma oresult_apply [simp]: "oresult r s = Some (s, r)"
  by (simp add: oresult_def)

lemma obind_Ok:
  "obind m f s = Some (s', Ok b) \<longleftrightarrow> (\<exists>s1 a. m s = Some (s1, Ok a) \<and> f a s1 = Some (s', Ok b))"
  by (auto simp: obind_def split: option.splits result.splits)

definition returns :: "('s \<Rightarrow> bool) \<Rightarrow> ('s, 'e, 'a) ocall \<Rightarrow> bool" where
  "returns I m \<longleftrightarrow> (\<forall>s. I s \<longrightarrow> (\<exists>s' r. m s = Some (s', r) \<and> I s'))"

lemma returns_oresult [simp, intro]: "returns I (oresult r)"
  by (simp add: returns_def)

lemma returns_olift: "preserves I m \<Longrightarrow> returns I (olift m)"
  unfolding returns_def preserves_def olift_apply by (metis prod.collapse)

lemma returns_obind:
  assumes "returns I m" "\<And>a. returns I (f a)"
  shows "returns I (obind m f)"
  unfolding returns_def
proof (intro allI impI)
  fix s assume "I s"
  with assms(1) obtain s1 r where m: "m s = Some (s1, r)" "I s1" unfolding returns_def by blast
  show "\<exists>s' r. obind m f s = Some (s', r) \<and> I s'"
  proof (cases r)
    case (Ok a)
    with m assms(2) [of a] show ?thesis by (simp add: obind_def returns_def)
  qed (use m in \<open>simp_all add: obind_def\<close>)
qed

end
