(* ===== verification/Proto.thy ===== *)
theory Proto
  imports Prelude
begin

text \<open>
  The wire-level messages of \<open>proto/src/prost/v0_38\<close> that the domain types of the \<open>tendermint\<close>
  crate convert from and into, and of \<open>proto/src/protobuf.rs\<close>. They are plain data: the
  conversions live with the domain types. The three protocol versions share these conversions
  (\<open>tendermint_pb_modules!\<close> instantiates them once per version).
\<close>

section \<open>Time\<close>

record raw_timestamp =
  ts_seconds :: i64
  ts_nanos :: i32

record raw_duration =
  rd_seconds :: i64
  rd_nanos :: i32

section \<open>Keys and validators\<close>

datatype raw_pub_key_sum = Sum_Ed25519 bytes | Sum_Secp256k1 bytes

record raw_public_key =
  rpk_sum :: "raw_pub_key_sum option"

record raw_validator =
  rv_address :: bytes
  rv_pub_key :: "raw_public_key option"
  rv_voting_power :: i64
  rv_proposer_priority :: i64

record raw_simple_validator =
  rsv_pub_key :: "raw_public_key option"
  rsv_voting_power :: i64

record raw_validator_set =
  rvs_validators :: "raw_validator list"
  rvs_proposer :: "raw_validator option"
  rvs_total_voting_power :: i64

section \<open>Blocks\<close>

record raw_part_set_header =
  rps_total :: u32
  rps_hash :: bytes

record raw_block_id =
  rbi_hash :: bytes
  rbi_part_set_header :: "raw_part_set_header option"

record raw_version =
  rver_block :: u64
  rver_app :: u64

record raw_header =
  rh_version :: "raw_version option"
  rh_chain_id :: string
  rh_height :: i64
  rh_time :: "raw_timestamp option"
  rh_last_block_id :: "raw_block_id option"
  rh_last_commit_hash :: bytes
  rh_data_hash :: bytes
  rh_validators_hash :: bytes
  rh_next_validators_hash :: bytes
  rh_consensus_hash :: bytes
  rh_app_hash :: bytes
  rh_last_results_hash :: bytes
  rh_evidence_hash :: bytes
  rh_proposer_address :: bytes

record raw_commit_sig =
  rcs_block_id_flag :: i32
  rcs_validator_address :: bytes
  rcs_timestamp :: "raw_timestamp option"
  rcs_signature :: bytes

record raw_commit =
  rc_height :: i64
  rc_round :: i32
  rc_block_id :: "raw_block_id option"
  rc_signatures :: "raw_commit_sig list"

record raw_signed_header =
  rsh_header :: "raw_header option"
  rsh_commit :: "raw_commit option"

record raw_light_block =
  rlb_signed_header :: "raw_signed_header option"
  rlb_validator_set :: "raw_validator_set option"

text \<open>The values of the \<open>BlockIdFlag\<close> enumeration.\<close>

definition flag_absent :: i32 where "flag_absent = 1"
definition flag_commit :: i32 where "flag_commit = 2"
definition flag_nil :: i32 where "flag_nil = 3"

section \<open>Votes\<close>

record raw_vote =
  rvo_type :: i32
  rvo_height :: i64
  rvo_round :: i32
  rvo_block_id :: "raw_block_id option"
  rvo_timestamp :: "raw_timestamp option"
  rvo_validator_address :: bytes
  rvo_validator_index :: i32
  rvo_signature :: bytes
  rvo_extension :: bytes
  rvo_extension_signature :: bytes

text \<open>
  \<open>CanonicalBlockId\<close> and \<open>CanonicalPartSetHeader\<close> have the fields of \<open>BlockId\<close> and
  \<open>PartSetHeader\<close>, and the same records serve for both.
\<close>

record raw_canonical_vote =
  rcv_type :: i32
  rcv_height :: i64
  rcv_round :: i64
  rcv_block_id :: "raw_block_id option"
  rcv_timestamp :: "raw_timestamp option"
  rcv_chain_id :: string

section \<open>Evidence\<close>

record raw_duplicate_vote_evidence =
  rdv_vote_a :: "raw_vote option"
  rdv_vote_b :: "raw_vote option"
  rdv_total_voting_power :: i64
  rdv_validator_power :: i64
  rdv_timestamp :: "raw_timestamp option"

record raw_light_client_attack_evidence =
  rla_conflicting_block :: "raw_light_block option"
  rla_common_height :: i64
  rla_byzantine_validators :: "raw_validator list"
  rla_total_voting_power :: i64
  rla_timestamp :: "raw_timestamp option"

datatype raw_evidence_sum =
    Sum_DuplicateVoteEvidence raw_duplicate_vote_evidence
  | Sum_LightClientAttackEvidence raw_light_client_attack_evidence

record raw_evidence =
  rev_sum :: "raw_evidence_sum option"

record raw_evidence_params =
  rep_max_age_num_blocks :: i64
  rep_max_age_duration :: "raw_duration option"
  rep_max_bytes :: i64

end
