(* ===== verification/Externals.thy ===== *)
theory Externals
  imports Proto
begin

text \<open>
  Code the repository calls and does not contain. Everything here is a field of one record that
  the definitions of the other theories take as their first argument: the SHA-256 and RIPEMD-160
  digests, the signature schemes, the Protobuf encoder of the \<open>prost\<close> crate, and the calendar of
  the \<open>time\<close> crate. Nothing about them is assumed by a definition; a theorem that relies on
  documented behaviour names it as a hypothesis.

  A \<open>PrimitiveDateTime\<close> (with the UTC offset the code assumes) is named by the signed number of
  nanoseconds since the Unix epoch, a \<open>time::Duration\<close> by its signed number of nanoseconds and a
  \<open>core::time::Duration\<close> by its number of nanoseconds.
\<close>

type_synonym instant = int
type_synonym duration = nat

record externals =
  x_sha256 :: "bytes \<Rightarrow> bytes"
  x_ripemd160 :: "bytes \<Rightarrow> bytes"
  x_ed25519_key_ok :: "bytes \<Rightarrow> bool"
  x_ed25519_sig_ok :: "bytes \<Rightarrow> bool"
  x_ed25519_verify :: "bytes \<Rightarrow> bytes \<Rightarrow> bytes \<Rightarrow> bool"
  x_secp256k1_from_sec1 :: "bytes \<Rightarrow> bytes option"
  x_secp256k1_sig_ok :: "bytes \<Rightarrow> bool"
  x_secp256k1_verify :: "bytes \<Rightarrow> bytes \<Rightarrow> bytes \<Rightarrow> bool"
  x_enc_version :: "raw_version \<Rightarrow> bytes"
  x_enc_string :: "string \<Rightarrow> bytes"
  x_enc_i64 :: "i64 \<Rightarrow> bytes"
  x_enc_timestamp :: "raw_timestamp \<Rightarrow> bytes"
  x_enc_block_id :: "raw_block_id \<Rightarrow> bytes"
  x_enc_bytes :: "bytes \<Rightarrow> bytes"
  x_enc_simple_validator :: "raw_simple_validator \<Rightarrow> bytes"
  x_enc_canonical_vote_delimited :: "raw_canonical_vote \<Rightarrow> bytes"
  x_duration_from_std :: "duration \<Rightarrow> int option"
  x_duration_into_std :: "int \<Rightarrow> duration option"
  x_datetime_add :: "instant \<Rightarrow> int \<Rightarrow> instant option"
  x_datetime_sub :: "instant \<Rightarrow> int \<Rightarrow> instant option"
  x_year :: "instant \<Rightarrow> int"
  x_from_unix_nanos :: "int \<Rightarrow> instant option"

section \<open>Documented behaviour\<close>

text \<open>The first instant of year 1 and the first instant of year 10000.\<close>

definition year_1 :: instant where
  "year_1 = - 62135596800 * 1000000000"

definition year_10000 :: instant where
  "year_10000 = 253402300800 * 1000000000"

text \<open>
  What the documentation of the \<open>time\<close> crate says of the calls the code makes: conversions of
  durations keep the value, an addition or subtraction that returns a date returns the exact one,
  the year of an instant is between 1 and 9999 exactly inside the interval above, and every
  instant of that interval is representable.
\<close>

definition time_crate :: "externals \<Rightarrow> bool" where
  "time_crate X \<longleftrightarrow>
     (\<forall>d k. x_duration_from_std X d = Some k \<longrightarrow> k = int d) \<and>
     (\<forall>d. d < 2 ^ 63 * 1000000000 \<longrightarrow> x_duration_from_std X d \<noteq> None) \<and>
     (\<forall>k. x_duration_into_std X k = (if 0 \<le> k then Some (nat k) else None)) \<and>
     (\<forall>t k u. x_datetime_add X t k = Some u \<longrightarrow> u = t + k) \<and>
     (\<forall>t k. year_1 \<le> t + k \<and> t + k < year_10000 \<longrightarrow> x_datetime_add X t k \<noteq> None) \<and>
     (\<forall>t k u. x_datetime_sub X t k = Some u \<longrightarrow> u = t - k) \<and>
     (\<forall>t k. year_1 \<le> t - k \<and> t - k < year_10000 \<longrightarrow> x_datetime_sub X t k \<noteq> None) \<and>
     (\<forall>t. 1 \<le> x_year X t \<and> x_year X t \<le> 9999 \<longleftrightarrow> year_1 \<le> t \<and> t < year_10000) \<and>
     (\<forall>n t. x_from_unix_nanos X n = Some t \<longrightarrow> t = n) \<and>
     (\<forall>n. year_1 \<le> n \<and> n < year_10000 \<longrightarrow> x_from_unix_nanos X n \<noteq> None)"

text \<open>A SHA-256 digest has 32 bytes.\<close>

definition sha256_length :: "externals \<Rightarrow> bool" where
  "sha256_length X \<longleftrightarrow> (\<forall>b. length (x_sha256 X b) = 32)"

text \<open>
  A SEC1 key has several encodings; the crate reads a key and prints it in one of them. What the
  code relies on is that this printed form is read back as the same key.
\<close>

definition sec1_canonical :: "externals \<Rightarrow> bool" where
  "sec1_canonical X \<longleftrightarrow> (\<forall>b k. x_secp256k1_from_sec1 X b = Some k \<longrightarrow> x_secp256k1_from_sec1 X k = Some k)"

end
