(* ===== verification/Decimal.thy ===== *)
theory Decimal
  imports Prelude
begin

text \<open>
  Decimal integers as Rust's standard library prints and parses them (\<open>to_string\<close> and
  \<open>str::parse\<close>): the textual form of heights, rounds, powers and indices.
\<close>

section \<open>Printing\<close>

definition digit_char :: "nat \<Rightarrow> char" where
  "digit_char d = char_of (48 + d)"

fun nat_to_string :: "nat \<Rightarrow> string" where
  "nat_to_string n =
     (if n < 10 then [digit_char n] else nat_to_string (n div 10) @ [digit_char (n mod 10)])"

declare nat_to_string.simps [simp del]

definition int_to_string :: "int \<Rightarrow> string" where
  "int_to_string k = (if k < 0 then CHR ''-'' # nat_to_string (nat (- k)) else nat_to_string (nat k))"

section \<open>Parsing\<close>

datatype parse_int_error = PIE_Empty | PIE_InvalidDigit | PIE_PosOverflow | PIE_NegOverflow

definition to_digit :: "char \<Rightarrow> nat option" where
  "to_digit c = (let n = of_char c in if 48 \<le> n \<and> n \<le> (57 :: nat) then Some (n - 48) else None)"

text \<open>The loop of \<open>from_str_radix\<close>: a bad digit is reported before an overflow.\<close>

fun parse_digits :: "parse_int_error \<Rightarrow> nat \<Rightarrow> nat \<Rightarrow> string \<Rightarrow> (parse_int_error, nat) result" where
  "parse_digits ov m acc [] = Ok acc"
| "parse_digits ov m acc (c # cs) =
     (case to_digit c of
        None \<Rightarrow> Err PIE_InvalidDigit
      | Some d \<Rightarrow> if m < acc * 10 \<or> m < acc * 10 + d then Err ov
                  else parse_digits ov m (acc * 10 + d) cs)"

definition parse_unsigned :: "nat \<Rightarrow> string \<Rightarrow> (parse_int_error, nat) result" where
  "parse_unsigned m s =
     (case s of
        [] \<Rightarrow> Err PIE_Empty
      | c # cs \<Rightarrow>
          if (c = CHR ''+'' \<or> c = CHR ''-'') \<and> cs = [] then Err PIE_InvalidDigit
          else parse_digits PIE_PosOverflow m 0 (if c = CHR ''+'' then cs else s))"

definition parse_signed :: "nat \<Rightarrow> string \<Rightarrow> (parse_int_error, int) result" where
  "parse_signed w s =
     (case s of
        [] \<Rightarrow> Err PIE_Empty
      | c # cs \<Rightarrow>
          if (c = CHR ''+'' \<or> c = CHR ''-'') \<and> cs = [] then Err PIE_InvalidDigit
          else if c = CHR ''-''
          then and_then (parse_digits PIE_NegOverflow (2 ^ (w - 1)) 0 cs) (\<lambda>n. Ok (- int n))
          else and_then (parse_digits PIE_PosOverflow (2 ^ (w - 1) - 1) 0 (if c = CHR ''+'' then cs else s))
                 (\<lambda>n. Ok (int n)))"

section \<open>Round trips\<close>

lemma to_digit_digit_char [simp]: "d < 10 \<Longrightarrow> to_digit (digit_char d) = Some d"
  by (simp add: to_digit_def digit_char_def Let_def)

lemma digit_char_not_sign: "d < 10 \<Longrightarrow> digit_char d \<noteq> CHR ''+'' \<and> digit_char d \<noteq> CHR ''-''"
  using to_digit_digit_char [of d] by (auto simp: to_digit_def)

lemma nat_to_string_not_Nil [simp]: "nat_to_string n \<noteq> []"
  by (simp add: nat_to_string.simps [of n])

lemma hd_nat_to_string: "\<exists>d < 10. hd (nat_to_string n) = digit_char d"
proof (induction n rule: nat_to_string.induct)
  case (1 n)
  then show ?case by (cases "n < 10") (auto simp: nat_to_string.simps [of n] hd_append)
qed

lemma parse_digits_append:
  "parse_digits ov m acc (xs @ ys) = and_then (parse_digits ov m acc xs) (\<lambda>n. parse_digits ov m n ys)"
  by (induction xs arbitrary: acc) (auto split: option.splits)

lemma parse_digits_nat_to_string: "n \<le> m \<Longrightarrow> parse_digits ov m 0 (nat_to_string n) = Ok n"
proof (induction n rule: nat_to_string.induct)
  case (1 n)
  show ?case
  proof (cases "n < 10")
    case True
    with 1 show ?thesis by (simp add: nat_to_string.simps [of n])
  next
    case False
    with 1 have "parse_digits ov m 0 (nat_to_string (n div 10)) = Ok (n div 10)" by simp
    moreover have "n div 10 * 10 \<le> m" using 1 by (meson div_times_less_eq_dividend le_trans)
    moreover have "n div 10 * 10 + n mod 10 = n" by simp
    ultimately show ?thesis
      using False 1 by (simp add: nat_to_string.simps [of n] parse_digits_append)
  qed
qed

lemma parse_digits_le: "parse_digits ov m acc s = Ok n \<Longrightarrow> acc \<le> m \<Longrightarrow> n \<le> m"
  by (induction s arbitrary: acc) (auto split: option.splits if_splits)

lemma nat_to_string_Cons: "\<exists>c cs. nat_to_string n = c # cs \<and> c \<noteq> CHR ''+'' \<and> c \<noteq> CHR ''-''"
  using hd_nat_to_string [of n] digit_char_not_sign
  by (cases "nat_to_string n") auto

theorem parse_unsigned_to_string: "n \<le> m \<Longrightarrow> parse_unsigned m (nat_to_string n) = Ok n"
  using nat_to_string_Cons [of n] parse_digits_nat_to_string [of n m PIE_PosOverflow]
  by (auto simp: parse_unsigned_def)

lemma parse_unsigned_le: "parse_unsigned m s = Ok n \<Longrightarrow> n \<le> m"
  by (auto simp: parse_unsigned_def simp del: parse_digits.simps dest: parse_digits_le
      split: list.splits if_splits)

theorem parse_signed_to_string:
  "- (2 ^ (w - 1)) \<le> k \<Longrightarrow> k < 2 ^ (w - 1) \<Longrightarrow> parse_signed w (int_to_string k) = Ok k"
proof (cases "k < 0")
  case True
  assume "- (2 ^ (w - 1)) \<le> k"
  then have "nat (- k) \<le> 2 ^ (w - 1)" by (simp add: nat_le_iff)
  with True show ?thesis
    by (simp add: parse_signed_def int_to_string_def parse_digits_nat_to_string)
next
  case False
  assume "k < 2 ^ (w - 1)"
  with False have "nat k \<le> 2 ^ (w - 1) - 1" by (simp add: nat_le_iff of_nat_diff)
  with False show ?thesis
    using nat_to_string_Cons [of "nat k"]
      parse_digits_nat_to_string [of "nat k" "2 ^ (w - 1) - 1" PIE_PosOverflow]
    by (auto simp: parse_signed_def int_to_string_def)
qed

end
