(* ===== verification/Tm_Scalars.thy ===== *)
theory Tm_Scalars
  imports Externals Decimal
begin

text \<open>
  The scalar types of the \<open>tendermint\<close> crate: heights, rounds, voting powers, validator indices,
  hashes, account and chain identifiers, signatures and public keys, with the conversions between
  them and their wire representation. A Rust newtype is its representation, and the invariant its
  constructors keep is a predicate.
\<close>

section \<open>Errors\<close>

text \<open>
  The variants of \<open>tendermint::Error\<close>. A \<open>DisplayOnly\<close> source error
  is dropped, the fields of a variant are kept.
\<close>

datatype (plugins only: code size) tm_error =
    E_Crypto
  | E_InvalidKey string
  | E_Length
  | E_Parse string
  | E_ParseInt string
  | E_Protocol string
  | E_DateOutOfRange
  | E_DurationOutOfRange
  | E_EmptySignature
  | E_SignatureInvalid string
  | E_InvalidMessageType
  | E_NegativeHeight
  | E_NegativeRound
  | E_NegativePolRound
  | E_NegativeValidatorIndex
  | E_InvalidHashSize
  | E_NonZeroTimestamp
  | E_InvalidAccountIdLength
  | E_InvalidSignatureIdLength
  | E_IntegerOverflow
  | E_TimestampNanosOutOfRange
  | E_TimestampConversion
  | E_NoVoteFound
  | E_NoProposalFound
  | E_InvalidAppHashLength
  | E_InvalidPartSetHeader string
  | E_MissingHeader
  | E_MissingData
  | E_MissingEvidence
  | E_MissingTimestamp
  | E_MissingVersion
  | E_MissingMaxAgeDuration
  | E_MissingPublicKey
  | E_MissingValidator
  | E_MissingLastCommitInfo
  | E_MissingGenesisTime
  | E_MissingConsensusParams
  | E_InvalidTimestamp string
  | E_InvalidBlock string
  | E_InvalidFirstHeader
  | E_InvalidSignature string
  | E_InvalidValidatorAddress
  | E_InvalidSignedHeader
  | E_InvalidEvidence
  | E_InvalidValidatorParams
  | E_InvalidVersionParams
  | E_InvalidAbciRequestType
  | E_InvalidAbciResponseType
  | E_BlockIdFlag
  | E_NegativePower
  | E_UnsupportedKeyType
  | E_UnsupportedCheckTxType
  | E_UnsupportedApplySnapshotChunkResult
  | E_UnsupportedOfferSnapshotChunkResult
  | E_UnsupportedProcessProposalStatus
  | E_UnsupportedVerifyVoteExtensionStatus
  | E_NegativeMaxAgeNum
  | E_ProposerNotFound bytes
  | E_TimeParse
  | E_SubtleEncoding
  | E_Signature
  | E_TrustThresholdTooLarge
  | E_UndefinedTrustThreshold
  | E_TrustThresholdTooSmall
  | E_NegativeProofTotal
  | E_NegativeProofIndex
  | E_TotalVotingPowerMismatch
  | E_TotalVotingPowerOverflow

type_synonym 'a tm_result = "(tm_error, 'a) result"

section \<open>Heights, rounds, powers, indices\<close>

type_synonym height = u64
type_synonym round = u32
type_synonym power = u64
type_synonym validator_index = u32

definition height_try_from_i64 :: "i64 \<Rightarrow> height tm_result" where
  "height_try_from_i64 v = (if fits_i64 v then Ok v else Err E_NegativeHeight)"

definition height_into_i64 :: "height \<Rightarrow> i64" where
  "height_into_i64 h = h"

definition height_try_from_u64 :: "u64 \<Rightarrow> height tm_result" where
  "height_try_from_u64 v = (if fits_i64 v then Ok v else Err E_IntegerOverflow)"

text \<open>\<open>expect\<close> on the sum, then \<open>unwrap\<close> on the conversion: both panic.\<close>

definition height_increment :: "height \<Rightarrow> ('e, height) result" where
  "height_increment h =
     and_then (or_panic (checked_add h 1))
       (\<lambda>v. case height_try_from_u64 v of Ok h' \<Rightarrow> Ok h' | _ \<Rightarrow> Panic)"

definition height_from_str :: "string \<Rightarrow> height tm_result" where
  "height_from_str s =
     and_then (map_err (\<lambda>_. E_ParseInt s) (parse_unsigned (2 ^ 64 - 1) s))
       (\<lambda>n. height_try_from_u64 (of_nat n))"

definition height_to_string :: "height \<Rightarrow> string" where
  "height_to_string h = nat_to_string (unat h)"

definition round_try_from_i32 :: "i32 \<Rightarrow> round tm_result" where
  "round_try_from_i32 v = (if fits_i32 v then Ok v else Err E_NegativeRound)"

definition round_into_i32 :: "round \<Rightarrow> i32" where
  "round_into_i32 r = r"

definition round_try_from_u32 :: "u32 \<Rightarrow> round tm_result" where
  "round_try_from_u32 v = (if fits_i32 v then Ok v else Err E_IntegerOverflow)"

definition round_increment :: "round \<Rightarrow> ('e, round) result" where
  "round_increment r =
     (if unat r + 1 < 2 ^ 32
      then case round_try_from_u32 (r + 1) of Ok r' \<Rightarrow> Ok r' | _ \<Rightarrow> Panic
      else Panic)"

definition round_from_str :: "string \<Rightarrow> round tm_result" where
  "round_from_str s =
     and_then (map_err (\<lambda>_. E_ParseInt s) (parse_unsigned (2 ^ 32 - 1) s))
       (\<lambda>n. round_try_from_u32 (of_nat n))"

definition round_to_string :: "round \<Rightarrow> string" where
  "round_to_string r = nat_to_string (unat r)"

definition power_try_from_i64 :: "i64 \<Rightarrow> power tm_result" where
  "power_try_from_i64 v = (if fits_i64 v then Ok v else Err E_NegativePower)"

definition power_into_i64 :: "power \<Rightarrow> i64" where
  "power_into_i64 p = p"

definition power_try_from_u64 :: "u64 \<Rightarrow> power tm_result" where
  "power_try_from_u64 v = (if fits_i64 v then Ok v else Err E_IntegerOverflow)"

definition power_is_zero :: "power \<Rightarrow> bool" where
  "power_is_zero p \<longleftrightarrow> p = 0"

text \<open>
  The custom \<open>serde\<close> form of a power is the decimal string of its \<open>i64\<close> value. The text of a
  deserialisation error is dropped.
\<close>

definition power_serialize :: "power \<Rightarrow> string" where
  "power_serialize p = int_to_string (sint (power_into_i64 p))"

definition power_deserialize :: "string \<Rightarrow> (unit, power) result" where
  "power_deserialize s =
     and_then (map_err (\<lambda>_. ()) (parse_signed 64 s))
       (\<lambda>k. map_err (\<lambda>_. ()) (power_try_from_i64 (of_int k)))"

definition validator_index_try_from_i32 :: "i32 \<Rightarrow> validator_index tm_result" where
  "validator_index_try_from_i32 v = (if fits_i32 v then Ok v else Err E_NegativeValidatorIndex)"

definition validator_index_into_i32 :: "validator_index \<Rightarrow> i32" where
  "validator_index_into_i32 i = i"

definition validator_index_try_from_u32 :: "u32 \<Rightarrow> validator_index tm_result" where
  "validator_index_try_from_u32 v = (if fits_i32 v then Ok v else Err E_IntegerOverflow)"

definition validator_index_try_from_usize :: "nat \<Rightarrow> validator_index tm_result" where
  "validator_index_try_from_usize n =
     (if n < 2 ^ 31 then validator_index_try_from_i32 (of_nat n) else Err E_IntegerOverflow)"

definition validator_index_from_str :: "string \<Rightarrow> validator_index tm_result" where
  "validator_index_from_str s =
     and_then (map_err (\<lambda>_. E_ParseInt ''validator index decode'') (parse_unsigned (2 ^ 32 - 1) s))
       (\<lambda>n. validator_index_try_from_u32 (of_nat n))"

section \<open>Hashes\<close>

datatype tm_hash = Sha256 bytes | HashNone

definition sha256_hash_size :: nat where
  "sha256_hash_size = 32"

text \<open>\<open>Algorithm\<close> has the one variant \<open>Sha256\<close>, so its parameter is left out.\<close>

definition hash_from_bytes :: "bytes \<Rightarrow> tm_hash tm_result" where
  "hash_from_bytes b =
     (if b = [] then Ok HashNone
      else if length b = sha256_hash_size then Ok (Sha256 b)
      else Err E_InvalidHashSize)"

definition hash_try_from_vec :: "bytes \<Rightarrow> tm_hash tm_result" where
  "hash_try_from_vec b = (if b = [] then Ok HashNone else hash_from_bytes b)"

fun hash_as_bytes :: "tm_hash \<Rightarrow> bytes" where
  "hash_as_bytes (Sha256 b) = b"
| "hash_as_bytes HashNone = []"

definition hash_is_empty :: "tm_hash \<Rightarrow> bool" where
  "hash_is_empty h \<longleftrightarrow> h = HashNone"

fun hash_inv :: "tm_hash \<Rightarrow> bool" where
  "hash_inv (Sha256 b) \<longleftrightarrow> length b = sha256_hash_size"
| "hash_inv HashNone \<longleftrightarrow> True"

type_synonym app_hash = bytes

definition app_hash_try_from :: "bytes \<Rightarrow> app_hash tm_result" where
  "app_hash_try_from b = Ok b"

section \<open>Identifiers and signatures\<close>

type_synonym account_id = bytes
type_synonym chain_id = string
type_synonym signature = bytes

definition account_id_length :: nat where
  "account_id_length = 20"

definition account_id_try_from :: "bytes \<Rightarrow> account_id tm_result" where
  "account_id_try_from b =
     (if length b \<noteq> account_id_length then Err E_InvalidAccountIdLength else Ok b)"

definition account_id_inv :: "account_id \<Rightarrow> bool" where
  "account_id_inv a \<longleftrightarrow> length a = account_id_length"

definition chain_id_max_length :: nat where
  "chain_id_max_length = 50"

definition chain_id_char :: "char \<Rightarrow> bool" where
  "chain_id_char c \<longleftrightarrow>
     (let n = (of_char c :: nat) in
        97 \<le> n \<and> n \<le> 122 \<or> 65 \<le> n \<and> n \<le> 90 \<or> 48 \<le> n \<and> n \<le> 57
        \<or> c = CHR ''-'' \<or> c = CHR ''_'' \<or> c = CHR ''.'')"

definition chain_id_try_from :: "string \<Rightarrow> chain_id tm_result" where
  "chain_id_try_from s =
     (if s = [] \<or> chain_id_max_length < length s then Err E_Length
      else if list_all chain_id_char s then Ok s
      else Err (E_Parse ''chain id charset''))"

definition chain_id_inv :: "chain_id \<Rightarrow> bool" where
  "chain_id_inv s \<longleftrightarrow> s \<noteq> [] \<and> length s \<le> chain_id_max_length \<and> list_all chain_id_char s"

definition signature_length :: nat where
  "signature_length = 64"

definition signature_new :: "bytes \<Rightarrow> signature option tm_result" where
  "signature_new b =
     (if b = [] then Ok None
      else if length b \<noteq> signature_length
      then Err (E_SignatureInvalid
             (''expected signature to be '' @ nat_to_string signature_length @
              '' bytes long, but was '' @ nat_to_string (length b) @ '' bytes''))
      else Ok (Some b))"

definition signature_new_non_empty :: "bytes \<Rightarrow> signature tm_result" where
  "signature_new_non_empty b = and_then (signature_new b) (ok_or E_EmptySignature)"

definition signature_inv :: "signature \<Rightarrow> bool" where
  "signature_inv s \<longleftrightarrow> length s = signature_length"

section \<open>Public keys\<close>

text \<open>A \<open>Secp256k1\<close> key is named by its SEC1 bytes, which is how the code stores and prints it.\<close>

datatype public_key = Ed25519 bytes | Secp256k1 bytes

definition ed25519_try_from :: "bytes \<Rightarrow> bytes tm_result" where
  "ed25519_try_from b =
     (if length b \<noteq> 32 then Err (E_InvalidKey ''invalid ed25519 key length'') else Ok b)"

definition from_raw_secp256k1 :: "externals \<Rightarrow> bytes \<Rightarrow> public_key option" where
  "from_raw_secp256k1 X b = map_option Secp256k1 (x_secp256k1_from_sec1 X b)"

definition from_raw_ed25519 :: "bytes \<Rightarrow> public_key option" where
  "from_raw_ed25519 b = (case ed25519_try_from b of Ok k \<Rightarrow> Some (Ed25519 k) | _ \<Rightarrow> None)"

definition public_key_try_from :: "externals \<Rightarrow> raw_public_key \<Rightarrow> public_key tm_result" where
  "public_key_try_from X value =
     and_then (ok_or (E_InvalidKey ''empty sum'') (rpk_sum value))
       (\<lambda>sum. case sum of
          Sum_Ed25519 b \<Rightarrow> and_then (ed25519_try_from b) (\<lambda>key. Ok (Ed25519 key))
        | Sum_Secp256k1 b \<Rightarrow> ok_or (E_InvalidKey ''malformed key'') (from_raw_secp256k1 X b))"

fun public_key_into_raw :: "public_key \<Rightarrow> raw_public_key" where
  "public_key_into_raw (Ed25519 pk) = \<lparr>rpk_sum = Some (Sum_Ed25519 pk)\<rparr>"
| "public_key_into_raw (Secp256k1 pk) = \<lparr>rpk_sum = Some (Sum_Secp256k1 pk)\<rparr>"

fun public_key_to_bytes :: "public_key \<Rightarrow> bytes" where
  "public_key_to_bytes (Ed25519 pk) = pk"
| "public_key_to_bytes (Secp256k1 pk) = pk"

fun public_key_inv :: "externals \<Rightarrow> public_key \<Rightarrow> bool" where
  "public_key_inv X (Ed25519 pk) \<longleftrightarrow> length pk = 32"
| "public_key_inv X (Secp256k1 pk) \<longleftrightarrow> x_secp256k1_from_sec1 X pk = Some pk"

fun account_id_from_key :: "externals \<Rightarrow> public_key \<Rightarrow> account_id" where
  "account_id_from_key X (Ed25519 pk) = take account_id_length (x_sha256 X pk)"
| "account_id_from_key X (Secp256k1 pk) = take account_id_length (x_ripemd160 X (x_sha256 X pk))"

datatype tendermint_key = AccountKey public_key | ConsensusKey public_key

text \<open>Every key type takes the same arm, and both constructors build an account key.\<close>

fun new_account_key :: "public_key \<Rightarrow> tendermint_key tm_result" where
  "new_account_key (Ed25519 pk) = Ok (AccountKey (Ed25519 pk))"
| "new_account_key (Secp256k1 pk) = Ok (AccountKey (Secp256k1 pk))"

fun new_consensus_key :: "public_key \<Rightarrow> tendermint_key tm_result" where
  "new_consensus_key (Ed25519 pk) = Ok (AccountKey (Ed25519 pk))"
| "new_consensus_key (Secp256k1 pk) = Ok (AccountKey (Secp256k1 pk))"

fun tendermint_key_public_key :: "tendermint_key \<Rightarrow> public_key" where
  "tendermint_key_public_key (AccountKey key) = key"
| "tendermint_key_public_key (ConsensusKey key) = key"

datatype signature_error = SE_MalformedPublicKey | SE_MalformedSignature | SE_VerificationFailed

fun signature_verify ::
  "externals \<Rightarrow> public_key \<Rightarrow> bytes \<Rightarrow> signature \<Rightarrow> (signature_error, unit) result" where
  "signature_verify X (Ed25519 pk) msg sig =
     (if \<not> x_ed25519_key_ok X pk then Err SE_MalformedPublicKey
      else if \<not> x_ed25519_sig_ok X sig then Err SE_MalformedSignature
      else if x_ed25519_verify X pk msg sig then Ok () else Err SE_VerificationFailed)"
| "signature_verify X (Secp256k1 pk) msg sig =
     (if \<not> x_secp256k1_sig_ok X sig then Err SE_MalformedSignature
      else if x_secp256k1_verify X pk msg sig then Ok () else Err SE_VerificationFailed)"

section \<open>Lemmas\<close>

lemma height_increment_Ok_iff:
  "height_increment h = Ok h' \<longleftrightarrow> unat h + 1 < 2 ^ 63 \<and> h' = h + 1"
  unfolding height_increment_def checked_add_def
  by (auto simp: height_try_from_u64_def fits_i64_unat unat_add_no_overflow)

lemma height_increment_neq_Err [simp]: "height_increment h \<noteq> Err e"
  by (auto simp: height_increment_def checked_add_def height_try_from_u64_def)

lemma height_increment_Panic_iff: "height_increment h = Panic \<longleftrightarrow> 2 ^ 63 \<le> unat h + 1"
  unfolding height_increment_def checked_add_def
  by (auto simp: height_try_from_u64_def fits_i64_unat unat_add_no_overflow)

lemma unat_height_increment: "height_increment h = Ok h' \<Longrightarrow> unat h' = unat h + 1"
  by (auto simp: height_increment_Ok_iff unat_add_no_overflow)

lemma height_from_str_to_string: "fits_i64 h \<Longrightarrow> height_from_str (height_to_string h) = Ok h"
  by (simp add: height_from_str_def height_to_string_def parse_unsigned_to_string height_try_from_u64_def)

lemma height_from_str_inv: "height_from_str s = Ok h \<Longrightarrow> fits_i64 h"
  by (auto simp: height_from_str_def height_try_from_u64_def result_simps split: if_splits)

lemma round_from_str_to_string: "fits_i32 r \<Longrightarrow> round_from_str (round_to_string r) = Ok r"
  by (simp add: round_from_str_def round_to_string_def parse_unsigned_to_string round_try_from_u32_def)

lemma validator_index_from_str_to_string:
  "fits_i32 i \<Longrightarrow> validator_index_from_str (nat_to_string (unat i)) = Ok i"
  by (simp add: validator_index_from_str_def parse_unsigned_to_string validator_index_try_from_u32_def)

lemma validator_index_try_from_usize_Ok_iff:
  "validator_index_try_from_usize n = Ok i \<longleftrightarrow> n < 2 ^ 31 \<and> i = of_nat n"
  by (auto simp: validator_index_try_from_usize_def validator_index_try_from_i32_def fits_i32_def
      i32_max_def word_le_nat_alt unat_of_nat take_bit_nat_eq_self)

lemma power_deserialize_serialize: "fits_i64 p \<Longrightarrow> power_deserialize (power_serialize p) = Ok p"
  using sint_ge [of p] sint_lt [of p]
  by (simp add: power_deserialize_def power_serialize_def parse_signed_to_string power_into_i64_def
      power_try_from_i64_def)

lemma hash_roundtrip [simp]: "hash_inv h \<Longrightarrow> hash_try_from_vec (hash_as_bytes h) = Ok h"
  by (cases h) (auto simp: hash_try_from_vec_def hash_from_bytes_def sha256_hash_size_def)

lemma hash_try_from_vec_Ok:
  "hash_try_from_vec b = Ok h \<longleftrightarrow> hash_as_bytes h = b \<and> hash_inv h"
  by (cases h) (auto simp: hash_try_from_vec_def hash_from_bytes_def sha256_hash_size_def)

lemma hash_try_from_vec_neq_Panic [simp]: "hash_try_from_vec b \<noteq> Panic"
  by (simp add: hash_try_from_vec_def hash_from_bytes_def)

lemma account_id_try_from_Ok [simp]: "account_id_try_from b = Ok a \<longleftrightarrow> a = b \<and> account_id_inv b"
  by (auto simp: account_id_try_from_def account_id_inv_def)

lemma chain_id_try_from_Ok [simp]: "chain_id_try_from s = Ok c \<longleftrightarrow> c = s \<and> chain_id_inv s"
  by (auto simp: chain_id_try_from_def chain_id_inv_def)

lemma account_id_try_from_of_inv [simp]: "account_id_inv b \<Longrightarrow> account_id_try_from b = Ok b"
  by simp

lemma chain_id_try_from_of_inv [simp]: "chain_id_inv s \<Longrightarrow> chain_id_try_from s = Ok s"
  by simp

lemma signature_new_Ok:
  "signature_new b = Ok r \<longleftrightarrow> (b = [] \<and> r = None) \<or> (r = Some b \<and> signature_inv b)"
  by (auto simp: signature_new_def signature_inv_def signature_length_def)

lemma public_key_roundtrip: "public_key_inv X k \<Longrightarrow> public_key_try_from X (public_key_into_raw k) = Ok k"
  by (cases k) (auto simp: public_key_try_from_def ed25519_try_from_def from_raw_secp256k1_def)

lemma public_key_try_from_inv:
  "sec1_canonical X \<Longrightarrow> public_key_try_from X r = Ok k \<Longrightarrow> public_key_inv X k"
  by (cases "rpk_sum r"; cases "the (rpk_sum r)")
    (auto simp: public_key_try_from_def sec1_canonical_def ed25519_try_from_def
      from_raw_secp256k1_def result_simps split: if_splits)

lemma new_consensus_key_is_account_key: "new_consensus_key k = Ok (AccountKey k)"
  by (cases k) simp_all
end
