(* ===== verification/Merkle.thy ===== *)
theory Merkle
  imports Tm_Scalars
begin

text \<open>
  \<open>tendermint/src/merkle.rs\<close> and \<open>merkle/proof.rs\<close>: the Merkle root of a list of byte strings, over
  a hasher that is either incremental (\<open>Digest\<close>, fed by \<open>update\<close> and emptied by
  \<open>finalize_reset\<close>) or one-shot (\<open>NonIncremental\<close>), and the wire form of proofs.
\<close>

section \<open>Hashers\<close>

text \<open>
  A \<open>MerkleHash\<close> implementation is the record of its three methods, each of which takes the hasher
  by \<open>&mut self\<close> and so returns it updated.
\<close>

record 's merkle_hash =
  mh_empty_hash :: "'s \<Rightarrow> bytes \<times> 's"
  mh_leaf_hash :: "bytes \<Rightarrow> 's \<Rightarrow> bytes \<times> 's"
  mh_inner_hash :: "bytes \<Rightarrow> bytes \<Rightarrow> 's \<Rightarrow> bytes \<times> 's"

function npow_from :: "nat \<Rightarrow> nat \<Rightarrow> nat" where
  "npow_from n p = (if n \<le> p \<or> p = 0 then p else npow_from n (2 * p))"
  by pat_completeness auto
termination by (relation "measure (\<lambda>(n, p). n - p)") auto

declare npow_from.simps [simp del]

definition next_power_of_two :: "nat \<Rightarrow> nat" where
  "next_power_of_two n = npow_from n 1"

lemma npow_from_power:
  "p = 2 ^ j \<Longrightarrow> p div 2 < n \<Longrightarrow> \<exists>i. npow_from n p = 2 ^ i \<and> n \<le> 2 ^ i \<and> 2 ^ i div 2 < n"
proof (induction n p arbitrary: j rule: npow_from.induct)
  case (1 n p)
  show ?case
  proof (cases "n \<le> p")
    case True
    with 1 have "npow_from n p = 2 ^ j \<and> n \<le> 2 ^ j \<and> 2 ^ j div 2 < n"
      by (simp add: npow_from.simps [of n "2 ^ j"])
    then show ?thesis by blast
  next
    case False
    then have "\<exists>i. npow_from n (2 * p) = 2 ^ i \<and> n \<le> 2 ^ i \<and> 2 ^ i div 2 < n"
      using 1 by (intro 1(1) [where j = "Suc j"]) auto
    moreover have "npow_from n p = npow_from n (2 * p)"
      using False 1 by (subst npow_from.simps) simp
    ultimately show ?thesis by simp
  qed
qed

lemma next_power_of_two_split:
  assumes "2 \<le> n"
  obtains i where "next_power_of_two n div 2 = 2 ^ i" "2 ^ i < n" "n \<le> 2 * 2 ^ i"
proof -
  obtain j where j: "next_power_of_two n = 2 ^ j" "n \<le> 2 ^ j" "2 ^ j div 2 < n"
    using npow_from_power [of 1 0 n] assms by (auto simp: next_power_of_two_def)
  then obtain i where "j = Suc i" using assms by (cases j) auto
  with j that show ?thesis by simp
qed

lemma next_power_of_two_split_bounds:
  "2 \<le> n \<Longrightarrow> 0 < next_power_of_two n div 2 \<and> next_power_of_two n div 2 < n"
  by (erule next_power_of_two_split) simp

function hash_byte_vectors :: "'s merkle_hash \<Rightarrow> bytes list \<Rightarrow> 's \<Rightarrow> bytes \<times> 's" where
  "hash_byte_vectors M byte_vecs s =
     (if length byte_vecs = 0 then mh_empty_hash M s
      else if length byte_vecs = 1 then mh_leaf_hash M (byte_vecs ! 0) s
      else
        (let split = next_power_of_two (length byte_vecs) div 2;
             (left, s1) = hash_byte_vectors M (take split byte_vecs) s;
             (right, s2) = hash_byte_vectors M (drop split byte_vecs) s1
         in mh_inner_hash M left right s2))"
  by pat_completeness auto
termination
  by (relation "measure (\<lambda>(M, v, s). length v)")
    (simp_all add: next_power_of_two_split_bounds Suc_leI nat_neq_iff)

declare hash_byte_vectors.simps [simp del]

lemma hash_byte_vectors_Nil [simp]: "hash_byte_vectors M [] s = mh_empty_hash M s"
  by (subst hash_byte_vectors.simps) simp

lemma hash_byte_vectors_single [simp]: "hash_byte_vectors M [b] s = mh_leaf_hash M b s"
  by (subst hash_byte_vectors.simps) simp

lemma hash_byte_vectors_many:
  assumes "2 \<le> length vs" "k = next_power_of_two (length vs) div 2"
    and "hash_byte_vectors M (take k vs) s = (l, s1)" "hash_byte_vectors M (drop k vs) s1 = (r, s2)"
  shows "hash_byte_vectors M vs s = mh_inner_hash M l r s2"
  using assms by (subst hash_byte_vectors.simps) (auto simp: Let_def)

section \<open>The incremental and the one-shot hasher\<close>

text \<open>The state of a digest is the bytes it has been fed since the last reset.\<close>

type_synonym digest_state = bytes

definition digest_update :: "digest_state \<Rightarrow> bytes \<Rightarrow> digest_state" where
  "digest_update s b = s @ b"

definition finalize_reset :: "externals \<Rightarrow> digest_state \<Rightarrow> bytes \<times> digest_state" where
  "finalize_reset X s = (x_sha256 X s, [])"

definition digest_merkle :: "externals \<Rightarrow> digest_state merkle_hash" where
  "digest_merkle X = \<lparr>
     mh_empty_hash = (\<lambda>s. finalize_reset X s),
     mh_leaf_hash = (\<lambda>b s. finalize_reset X (digest_update (digest_update s [0]) b)),
     mh_inner_hash = (\<lambda>left right s.
        finalize_reset X (digest_update (digest_update (digest_update s [1]) left) right))\<rparr>"

definition non_incremental_merkle :: "externals \<Rightarrow> unit merkle_hash" where
  "non_incremental_merkle X = \<lparr>
     mh_empty_hash = (\<lambda>s. (x_sha256 X [], s)),
     mh_leaf_hash = (\<lambda>b s. (x_sha256 X (0 # b), s)),
     mh_inner_hash = (\<lambda>left right s. (x_sha256 X (1 # left @ right), s))\<rparr>"

definition simple_hash_from_byte_vectors :: "externals \<Rightarrow> bytes list \<Rightarrow> bytes" where
  "simple_hash_from_byte_vectors X byte_vecs = fst (hash_byte_vectors (digest_merkle X) byte_vecs [])"

section \<open>Proofs on the wire\<close>

record raw_proof =
  rpf_total :: i64
  rpf_index :: i64
  rpf_leaf_hash :: bytes
  rpf_aunts :: "bytes list"

record merkle_proof =
  pf_total :: u64
  pf_index :: u64
  pf_leaf_hash :: tm_hash
  pf_aunts :: "tm_hash list"

definition proof_try_from :: "raw_proof \<Rightarrow> merkle_proof tm_result" where
  "proof_try_from m =
     and_then (if fits_i64 (rpf_total m) then Ok (rpf_total m) else Err E_NegativeProofTotal)
       (\<lambda>total. and_then (if fits_i64 (rpf_index m) then Ok (rpf_index m) else Err E_NegativeProofIndex)
       (\<lambda>index. and_then (hash_try_from_vec (rpf_leaf_hash m))
       (\<lambda>leaf_hash. and_then (try_map hash_try_from_vec (rpf_aunts m))
       (\<lambda>aunts. Ok \<lparr>pf_total = total, pf_index = index, pf_leaf_hash = leaf_hash, pf_aunts = aunts\<rparr>))))"

text \<open>\<open>expect\<close> on the two counters.\<close>

definition proof_into_raw :: "merkle_proof \<Rightarrow> ('e, raw_proof) result" where
  "proof_into_raw p =
     and_then (or_panic (if fits_i64 (pf_total p) then Some (pf_total p) else None))
       (\<lambda>total. and_then (or_panic (if fits_i64 (pf_index p) then Some (pf_index p) else None))
       (\<lambda>index. Ok \<lparr>rpf_total = total, rpf_index = index,
                   rpf_leaf_hash = hash_as_bytes (pf_leaf_hash p),
                   rpf_aunts = map hash_as_bytes (pf_aunts p)\<rparr>))"

definition proof_inv :: "merkle_proof \<Rightarrow> bool" where
  "proof_inv p \<longleftrightarrow> fits_i64 (pf_total p) \<and> fits_i64 (pf_index p) \<and> hash_inv (pf_leaf_hash p)
     \<and> list_all hash_inv (pf_aunts p)"

section \<open>The tree hash as a specification\<close>

text \<open>
  The Merkle tree hash of RFC 6962, as a relation: a list of more than one entry is cut after the
  largest power of two that leaves both parts non-empty.
\<close>

inductive tree_hash :: "externals \<Rightarrow> bytes list \<Rightarrow> bytes \<Rightarrow> bool" for X where
  tree_empty: "tree_hash X [] (x_sha256 X [])"
| tree_leaf: "tree_hash X [b] (x_sha256 X (0 # b))"
| tree_inner: "length xs = 2 ^ i \<Longrightarrow> ys \<noteq> [] \<Longrightarrow> length ys \<le> 2 ^ i \<Longrightarrow> tree_hash X xs a \<Longrightarrow> tree_hash X ys b
    \<Longrightarrow> tree_hash X (xs @ ys) (x_sha256 X (1 # a @ b))"

section \<open>The contract of a hasher\<close>

text \<open>
  Both implementations start and end each call in the reset state and return the digest of the
  prefixed input: the pre- and postcondition the trait states in its comments.
\<close>

locale merkle_hasher =
  fixes X :: externals
    and M :: "'s merkle_hash"
    and reset :: 's
  assumes empty_law: "mh_empty_hash M reset = (x_sha256 X [], reset)"
    and leaf_law: "mh_leaf_hash M b reset = (x_sha256 X (0 # b), reset)"
    and inner_law: "mh_inner_hash M l r reset = (x_sha256 X (1 # l @ r), reset)"
begin

lemma hash_byte_vectors_reset:
  "\<exists>h. hash_byte_vectors M vs reset = (h, reset) \<and> tree_hash X vs h"
proof (induction vs rule: length_induct)
  case (1 vs)
  consider "vs = []" | b where "vs = [b]" | "2 \<le> length vs"
    by (cases vs rule: remdups_adj.cases) auto
  then show ?case
  proof cases
    case 3
    then obtain i where i: "next_power_of_two (length vs) div 2 = 2 ^ i" "2 ^ i < length vs"
        "length vs \<le> 2 * 2 ^ i"
      by (rule next_power_of_two_split)
    obtain a where a: "hash_byte_vectors M (take (2 ^ i) vs) reset = (a, reset)"
        "tree_hash X (take (2 ^ i) vs) a"
      using 1 [rule_format, of "take (2 ^ i) vs"] i(2) by auto
    obtain b where b: "hash_byte_vectors M (drop (2 ^ i) vs) reset = (b, reset)"
        "tree_hash X (drop (2 ^ i) vs) b"
      using 1 [rule_format, of "drop (2 ^ i) vs"] 3
      by (metis diff_less length_drop less_le_trans zero_less_numeral zero_less_power)
    have "tree_hash X (take (2 ^ i) vs @ drop (2 ^ i) vs) (x_sha256 X (1 # a @ b))"
      using i a(2) b(2) by (intro tree_inner) auto
    then show ?thesis
      using hash_byte_vectors_many [OF 3 i(1) [symmetric] a(1) b(1)] by (simp add: inner_law)
  next
    case 1
    then show ?thesis by (simp add: empty_law tree_empty)
  next
    case (2 b)
    then show ?thesis by (simp add: leaf_law tree_leaf)
  qed
qed

end

interpretation dm: merkle_hasher X "digest_merkle X" "[]" for X
  by unfold_locales (simp_all add: digest_merkle_def finalize_reset_def digest_update_def)

interpretation nm: merkle_hasher X "non_incremental_merkle X" "()" for X
  by unfold_locales (simp_all add: non_incremental_merkle_def)

section \<open>The root\<close>

inductive_cases tree_hash_NilE: "tree_hash X [] h"
inductive_cases tree_hash_ConsE: "tree_hash X (b # bs) h"

lemma power_two_cut_unique:
  fixes n :: nat
  assumes "2 ^ i < n" "n \<le> 2 * 2 ^ i" "2 ^ j < n" "n \<le> 2 * 2 ^ j"
  shows "i = j"
proof -
  have "2 ^ i < (2 ^ Suc j :: nat)" "2 ^ j < (2 ^ Suc i :: nat)" using assms by simp_all
  then have "i < Suc j" "j < Suc i" by (simp_all only: power_strict_increasing_iff one_less_numeral_iff semiring_norm)
  then show ?thesis by simp
qed

lemma tree_hash_functional: "tree_hash X vs h \<Longrightarrow> tree_hash X vs h' \<Longrightarrow> h = h'"
proof (induction arbitrary: h' rule: tree_hash.induct)
  case tree_empty
  then show ?case by (cases rule: tree_hash.cases) auto
next
  case (tree_leaf b)
  then show ?case
    by (cases rule: tree_hash.cases) (auto simp: Cons_eq_append_conv)
next
  case (tree_inner xs i ys a b)
  have len: "2 ^ i < length (xs @ ys)" "length (xs @ ys) \<le> 2 * 2 ^ i"
    using tree_inner.hyps by auto
  from tree_inner.prems show ?case
  proof (cases rule: tree_hash.cases)
    case (tree_inner us j vs c d)
    with tree_inner.hyps(1) have "2 ^ j < length (us @ vs)" "length (us @ vs) \<le> 2 * 2 ^ j" by auto
    with len local.tree_inner(1) have "i = j" by (intro power_two_cut_unique [of i _ j]) auto
    with local.tree_inner \<open>length xs = 2 ^ i\<close> have "us = xs" "vs = ys" by auto
    with local.tree_inner tree_inner.IH show ?thesis by blast
  next
    case (tree_leaf c)
    with tree_inner.hyps(1,2) show ?thesis by (auto simp: append_eq_Cons_conv)
  next
    case tree_empty
    with tree_inner.hyps(1,2) show ?thesis by simp
  qed
qed

lemma simple_hash_iff_tree_hash: "tree_hash X vs h \<longleftrightarrow> h = simple_hash_from_byte_vectors X vs"
proof -
  obtain r where r: "hash_byte_vectors (digest_merkle X) vs [] = (r, [])" "tree_hash X vs r"
    using dm.hash_byte_vectors_reset by blast
  then show ?thesis
    using tree_hash_functional [of X vs r h] by (auto simp: simple_hash_from_byte_vectors_def)
qed

lemma digest_merkle_reset: "snd (hash_byte_vectors (digest_merkle X) vs []) = []"
  using dm.hash_byte_vectors_reset [of X vs] by (elim exE conjE) simp

lemma non_incremental_eq: "fst (hash_byte_vectors (non_incremental_merkle X) vs ()) = simple_hash_from_byte_vectors X vs"
  using nm.hash_byte_vectors_reset [of X vs] by (elim exE conjE) (simp add: simple_hash_iff_tree_hash)

lemma tree_hash_length: "sha256_length X \<Longrightarrow> tree_hash X vs h \<Longrightarrow> length h = 32"
  by (erule tree_hash.cases) (simp_all add: sha256_length_def)

section \<open>Binding\<close>

text \<open>The inputs on which the digest is evaluated while the root of a list is computed.\<close>

function hashed_inputs :: "externals \<Rightarrow> bytes list \<Rightarrow> bytes list" where
  "hashed_inputs X vs =
     (if length vs = 0 then [[]]
      else if length vs = 1 then [0 # vs ! 0]
      else
        (let k = next_power_of_two (length vs) div 2
         in (1 # simple_hash_from_byte_vectors X (take k vs) @ simple_hash_from_byte_vectors X (drop k vs))
            # hashed_inputs X (take k vs) @ hashed_inputs X (drop k vs)))"
  by pat_completeness auto
termination
  by (relation "measure (\<lambda>(X, v). length v)")
    (simp_all add: next_power_of_two_split_bounds Suc_leI nat_neq_iff)

declare hashed_inputs.simps [simp del]

lemma simple_hash_Nil [simp]: "simple_hash_from_byte_vectors X [] = x_sha256 X []"
  using simple_hash_iff_tree_hash [of X "[]"] tree_empty by metis

lemma simple_hash_single [simp]: "simple_hash_from_byte_vectors X [b] = x_sha256 X (0 # b)"
  using simple_hash_iff_tree_hash [of X "[b]"] tree_leaf by metis

lemma simple_hash_many:
  assumes "2 \<le> length vs" and k: "k = next_power_of_two (length vs) div 2"
  shows "simple_hash_from_byte_vectors X vs =
    x_sha256 X (1 # simple_hash_from_byte_vectors X (take k vs) @ simple_hash_from_byte_vectors X (drop k vs))"
proof -
  obtain i where "next_power_of_two (length vs) div 2 = 2 ^ i" "2 ^ i < length vs" "length vs \<le> 2 * 2 ^ i"
    using assms(1) by (rule next_power_of_two_split)
  with k have "length (take k vs) = 2 ^ i" "drop k vs \<noteq> []" "length (drop k vs) \<le> 2 ^ i" by simp_all
  then have "tree_hash X (take k vs @ drop k vs) (x_sha256 X
      (1 # simple_hash_from_byte_vectors X (take k vs) @ simple_hash_from_byte_vectors X (drop k vs)))"
    by (rule tree_inner) (simp_all add: simple_hash_iff_tree_hash)
  then show ?thesis by (simp add: simple_hash_iff_tree_hash)
qed

lemma length_simple_hash: "sha256_length X \<Longrightarrow> length (simple_hash_from_byte_vectors X vs) = 32"
  using tree_hash_length simple_hash_iff_tree_hash by blast

text \<open>The last input hashed, from which the shape of the tree can be read off.\<close>

definition top_input :: "externals \<Rightarrow> bytes list \<Rightarrow> bytes" where
  "top_input X vs = hd (hashed_inputs X vs)"

lemma hashed_inputs_Nil: "hashed_inputs X [] = [[]]"
  by (subst hashed_inputs.simps) simp

lemma hashed_inputs_single: "hashed_inputs X [b] = [0 # b]"
  by (subst hashed_inputs.simps) simp

lemma hashed_inputs_many:
  assumes "2 \<le> length vs" and "k = next_power_of_two (length vs) div 2"
  shows "hashed_inputs X vs =
    (1 # simple_hash_from_byte_vectors X (take k vs) @ simple_hash_from_byte_vectors X (drop k vs))
      # hashed_inputs X (take k vs) @ hashed_inputs X (drop k vs)"
proof -
  have "length vs \<noteq> 0" "length vs \<noteq> 1" using assms(1) by auto
  then show ?thesis unfolding assms(2) by (subst hashed_inputs.simps) (simp only: Let_def if_False)
qed

lemma list_shape:
  obtains "vs = []" | b where "vs = [b]" | "2 \<le> length vs"
  by (cases vs rule: remdups_adj.cases) auto

lemma top_input_root:
  "simple_hash_from_byte_vectors X vs = x_sha256 X (top_input X vs)" "top_input X vs \<in> set (hashed_inputs X vs)"
proof -
  have "simple_hash_from_byte_vectors X vs = x_sha256 X (top_input X vs) \<and> top_input X vs \<in> set (hashed_inputs X vs)"
  proof (cases vs rule: list_shape)
    case 3
    then show ?thesis
      using hashed_inputs_many [OF 3 refl, of X] simple_hash_many [OF 3 refl, of X]
      by (simp add: top_input_def)
  qed (simp_all add: top_input_def hashed_inputs_Nil hashed_inputs_single)
  then show "simple_hash_from_byte_vectors X vs = x_sha256 X (top_input X vs)"
    "top_input X vs \<in> set (hashed_inputs X vs)" by simp_all
qed

lemma top_input_shape:
  "top_input X vs = [] \<longleftrightarrow> vs = []"
  "top_input X vs = 0 # b \<longleftrightarrow> vs = [b]"
  "2 \<le> length vs \<Longrightarrow> top_input X vs = 1 # simple_hash_from_byte_vectors X (take (next_power_of_two (length vs) div 2) vs)
      @ simple_hash_from_byte_vectors X (drop (next_power_of_two (length vs) div 2) vs)"
proof -
  show many: "top_input X vs = 1 # simple_hash_from_byte_vectors X (take (next_power_of_two (length vs) div 2) vs)
      @ simple_hash_from_byte_vectors X (drop (next_power_of_two (length vs) div 2) vs)" if "2 \<le> length vs" for vs
    using hashed_inputs_many [OF that refl, of X] by (simp add: top_input_def)
  show "top_input X vs = [] \<longleftrightarrow> vs = []" "top_input X vs = 0 # b \<longleftrightarrow> vs = [b]"
    by (cases vs rule: list_shape; force simp: top_input_def [of X "[]"] top_input_def [of X "[_]"]
        hashed_inputs_Nil hashed_inputs_single many)+
qed

lemma merkle_binding_aux:
  assumes "sha256_length X"
  shows "inj_on (x_sha256 X) (set (hashed_inputs X vs) \<union> set (hashed_inputs X ws)) \<Longrightarrow>
    simple_hash_from_byte_vectors X vs = simple_hash_from_byte_vectors X ws \<Longrightarrow> vs = ws"
proof (induction vs arbitrary: ws rule: length_induct)
  case (1 vs)
  have top: "top_input X vs = top_input X ws"
    using 1(2,3) by (auto simp: top_input_root(1) dest: inj_onD intro: top_input_root(2))
  show ?case
  proof (cases vs rule: list_shape)
    case 1
    with top show ?thesis by (metis top_input_shape(1))
  next
    case (2 b)
    with top show ?thesis by (metis top_input_shape(2))
  next
    case 3
    have w: "2 \<le> length ws"
    proof (cases ws rule: list_shape)
      case 1
      then have "top_input X ws = []" by (simp add: top_input_shape(1))
      with top have "vs = []" by (simp add: top_input_shape(1))
      with 3 show ?thesis by simp
    next
      case (2 b)
      with top have "top_input X vs = 0 # b" by (simp add: top_input_shape)
      with 3 show ?thesis by (simp add: top_input_shape)
    qed
    define k where "k = next_power_of_two (length vs) div 2"
    define m where "m = next_power_of_two (length ws) div 2"
    note hk = hashed_inputs_many [OF 3 k_def, of X] and hm = hashed_inputs_many [OF w m_def, of X]
    from top have "simple_hash_from_byte_vectors X (take k vs) = simple_hash_from_byte_vectors X (take m ws)"
        "simple_hash_from_byte_vectors X (drop k vs) = simple_hash_from_byte_vectors X (drop m ws)"
      by (simp_all add: top_input_shape(3) 3 w k_def m_def length_simple_hash [OF assms])
    moreover have "0 < k" "k < length vs"
      using next_power_of_two_split_bounds [OF 3] by (simp_all add: k_def)
    moreover have "inj_on (x_sha256 X) (set (hashed_inputs X (take k vs)) \<union> set (hashed_inputs X (take m ws)))"
        "inj_on (x_sha256 X) (set (hashed_inputs X (drop k vs)) \<union> set (hashed_inputs X (drop m ws)))"
      by (rule inj_on_subset [OF 1(2)], auto simp: hk hm)+
    ultimately have "take k vs = take m ws" "drop k vs = drop m ws"
      using 1(1) [rule_format, of "take k vs" "take m ws"] 1(1) [rule_format, of "drop k vs" "drop m ws"]
      by simp_all
    then show ?thesis by (metis append_take_drop_id)
  qed
qed

lemma proof_roundtrip:
  "proof_inv p \<Longrightarrow> and_then (proof_into_raw p) proof_try_from = Ok p"
  by (simp add: proof_into_raw_def proof_try_from_def proof_inv_def list_all_iff try_map_roundtrip)

end
