(* ===== verification/Tm_Validator.thy ===== *)
theory Tm_Validator
  imports Merkle "HOL-Library.Product_Lexorder" "HOL-Library.Multiset"
begin

text \<open>
  \<open>tendermint/src/validator.rs\<close>: validators, validator sets and their hash, with the conversions to
  and from the wire. The constructor \<open>try_from_parts\<close> is the only way to a set, and the invariant
  \<open>set_inv\<close> is what it establishes.
\<close>

section \<open>Reversed order\<close>

text \<open>\<open>core::cmp::Reverse\<close>.\<close>

datatype 'a reverse = Reverse (unreverse: 'a)

instantiation reverse :: (linorder) linorder
begin

definition less_eq_reverse :: "'a reverse \<Rightarrow> 'a reverse \<Rightarrow> bool" where
  "less_eq_reverse a b \<longleftrightarrow> unreverse b \<le> unreverse a"

definition less_reverse :: "'a reverse \<Rightarrow> 'a reverse \<Rightarrow> bool" where
  "less_reverse a b \<longleftrightarrow> unreverse b < unreverse a"

instance
  by standard (auto simp: less_eq_reverse_def less_reverse_def reverse.expand)

end

section \<open>Validators\<close>

record info =
  info_address :: account_id
  info_pub_key :: public_key
  info_power :: power
  info_name :: "string option"
  info_proposer_priority :: i64

record val_set =
  vs_validators :: "info list"
  vs_proposer :: "info option"
  vs_total_voting_power :: power

definition info_new :: "externals \<Rightarrow> public_key \<Rightarrow> power \<Rightarrow> info" where
  "info_new X pk vp = \<lparr>info_address = account_id_from_key X pk, info_pub_key = pk, info_power = vp,
     info_name = None, info_proposer_priority = 0\<rparr>"

definition info_verify_signature :: "externals \<Rightarrow> info \<Rightarrow> bytes \<Rightarrow> signature \<Rightarrow> unit tm_result" where
  "info_verify_signature X i sign_bytes sig =
     map_err (\<lambda>_. E_SignatureInvalid ''Ed25519 signature verification failed'')
       (signature_verify X (info_pub_key i) sign_bytes sig)"

record simple_validator =
  sv_pub_key :: public_key
  sv_voting_power :: power

definition simple_validator_from_info :: "info \<Rightarrow> simple_validator" where
  "simple_validator_from_info i = \<lparr>sv_pub_key = info_pub_key i, sv_voting_power = info_power i\<rparr>"

definition simple_validator_try_from :: "externals \<Rightarrow> raw_simple_validator \<Rightarrow> simple_validator tm_result" where
  "simple_validator_try_from X value =
     and_then (ok_or E_MissingPublicKey (rsv_pub_key value))
       (\<lambda>rk. and_then (public_key_try_from X rk)
       (\<lambda>pub_key. and_then (power_try_from_i64 (rsv_voting_power value))
       (\<lambda>voting_power. Ok \<lparr>sv_pub_key = pub_key, sv_voting_power = voting_power\<rparr>)))"

definition simple_validator_into_raw :: "simple_validator \<Rightarrow> raw_simple_validator" where
  "simple_validator_into_raw v =
     \<lparr>rsv_pub_key = Some (public_key_into_raw (sv_pub_key v)),
      rsv_voting_power = power_into_i64 (sv_voting_power v)\<rparr>"

definition info_hash_bytes :: "externals \<Rightarrow> info \<Rightarrow> bytes" where
  "info_hash_bytes X i =
     x_enc_simple_validator X (simple_validator_into_raw (simple_validator_from_info i))"

section \<open>Validator sets\<close>

definition max_total_voting_power :: u64 where
  "max_total_voting_power = i64_max div 8"

definition sort_validators :: "info list \<Rightarrow> info list" where
  "sort_validators vals = sort_key (\<lambda>v. (Reverse (info_power v), info_address v)) vals"

definition try_from_parts :: "info list \<Rightarrow> info option \<Rightarrow> i64 \<Rightarrow> val_set tm_result" where
  "try_from_parts validators proposer unvalidated_total_voting_power =
     (let total = foldl saturating_add 0 (map info_power validators) in
      if max_total_voting_power < total then Err E_TotalVotingPowerOverflow
      else
        case power_try_from_u64 total of
          Ok total_voting_power \<Rightarrow>
            and_then
              (if unvalidated_total_voting_power \<noteq> 0
               then and_then (power_try_from_i64 unvalidated_total_voting_power)
                 (\<lambda>given_val. if given_val \<noteq> total_voting_power then Err E_TotalVotingPowerMismatch else Ok ())
               else Ok ())
              (\<lambda>_. Ok \<lparr>vs_validators = sort_validators validators, vs_proposer = proposer,
                       vs_total_voting_power = total_voting_power\<rparr>)
        | _ \<Rightarrow> Panic)"

text \<open>\<open>unwrap\<close> turns an error into a panic.\<close>

definition set_new :: "info list \<Rightarrow> info option \<Rightarrow> ('e, val_set) result" where
  "set_new validators proposer =
     (case try_from_parts validators proposer 0 of Ok s \<Rightarrow> Ok s | _ \<Rightarrow> Panic)"

definition set_without_proposer :: "info list \<Rightarrow> ('e, val_set) result" where
  "set_without_proposer validators = set_new validators None"

definition set_with_proposer :: "info list \<Rightarrow> account_id \<Rightarrow> val_set tm_result" where
  "set_with_proposer validators proposer_address =
     and_then (ok_or (E_ProposerNotFound proposer_address)
                 (find (\<lambda>v. info_address v = proposer_address) validators))
       (\<lambda>proposer. set_new validators (Some proposer))"

definition set_validator :: "val_set \<Rightarrow> account_id \<Rightarrow> info option" where
  "set_validator s val_id = find (\<lambda>val. info_address val = val_id) (vs_validators s)"

definition set_hash :: "externals \<Rightarrow> val_set \<Rightarrow> tm_hash" where
  "set_hash X s = Sha256 (simple_hash_from_byte_vectors X (map (info_hash_bytes X) (vs_validators s)))"

section \<open>The wire\<close>

definition info_try_from :: "externals \<Rightarrow> raw_validator \<Rightarrow> info tm_result" where
  "info_try_from X value =
     and_then (account_id_try_from (rv_address value))
       (\<lambda>address. and_then (ok_or E_MissingPublicKey (rv_pub_key value))
       (\<lambda>rk. and_then (public_key_try_from X rk)
       (\<lambda>pub_key. and_then (power_try_from_i64 (rv_voting_power value))
       (\<lambda>power. Ok \<lparr>info_address = address, info_pub_key = pub_key, info_power = power,
                   info_name = None, info_proposer_priority = rv_proposer_priority value\<rparr>))))"

definition info_into_raw :: "info \<Rightarrow> raw_validator" where
  "info_into_raw i =
     \<lparr>rv_address = info_address i, rv_pub_key = Some (public_key_into_raw (info_pub_key i)),
      rv_voting_power = power_into_i64 (info_power i),
      rv_proposer_priority = info_proposer_priority i\<rparr>"

definition val_set_try_from :: "externals \<Rightarrow> raw_validator_set \<Rightarrow> val_set tm_result" where
  "val_set_try_from X value =
     and_then (try_map (info_try_from X) (rvs_validators value))
       (\<lambda>validators. and_then (try_option (info_try_from X) (rvs_proposer value))
       (\<lambda>proposer. try_from_parts validators proposer (rvs_total_voting_power value)))"

definition val_set_into_raw :: "val_set \<Rightarrow> raw_validator_set" where
  "val_set_into_raw s =
     \<lparr>rvs_validators = map info_into_raw (vs_validators s),
      rvs_proposer = map_option info_into_raw (vs_proposer s),
      rvs_total_voting_power = power_into_i64 (vs_total_voting_power s)\<rparr>"

record val_update =
  vu_pub_key :: public_key
  vu_power :: power

record raw_validator_update =
  rvu_pub_key :: "raw_public_key option"
  rvu_power :: i64

definition val_update_into_raw :: "val_update \<Rightarrow> raw_validator_update" where
  "val_update_into_raw vu =
     \<lparr>rvu_pub_key = Some (public_key_into_raw (vu_pub_key vu)), rvu_power = power_into_i64 (vu_power vu)\<rparr>"

definition val_update_try_from :: "externals \<Rightarrow> raw_validator_update \<Rightarrow> val_update tm_result" where
  "val_update_try_from X vu =
     and_then (ok_or E_MissingPublicKey (rvu_pub_key vu))
       (\<lambda>rk. and_then (public_key_try_from X rk)
       (\<lambda>pub_key. and_then (power_try_from_i64 (rvu_power vu))
       (\<lambda>power. Ok \<lparr>vu_pub_key = pub_key, vu_power = power\<rparr>)))"

section \<open>Invariants\<close>

definition info_inv :: "externals \<Rightarrow> info \<Rightarrow> bool" where
  "info_inv X i \<longleftrightarrow> account_id_inv (info_address i) \<and> public_key_inv X (info_pub_key i) \<and> fits_i64 (info_power i)"

definition powers :: "info list \<Rightarrow> nat" where
  "powers vs = sum_list (map (\<lambda>v. unat (info_power v)) vs)"

definition sorted_validators :: "info list \<Rightarrow> bool" where
  "sorted_validators vs \<longleftrightarrow> sorted (map (\<lambda>v. (Reverse (info_power v), info_address v)) vs)"

definition set_inv :: "val_set \<Rightarrow> bool" where
  "set_inv s \<longleftrightarrow> powers (vs_validators s) = unat (vs_total_voting_power s)
     \<and> vs_total_voting_power s \<le> max_total_voting_power
     \<and> sorted_validators (vs_validators s)"

section \<open>Lemmas\<close>

lemma unat_max_total: "unat max_total_voting_power = (2 ^ 63 - 1) div 8"
  by (simp add: max_total_voting_power_def i64_max_def)

lemma unat_saturating_add: "unat (saturating_add a b) = min (2 ^ 64 - 1) (unat a + unat b)"
  unfolding saturating_add_def by (auto simp: unat_add_no_overflow min_def unsigned_minus_1_eq_mask mask_eq_exp_minus_1)

lemma unat_foldl_saturating_add:
  "unat (foldl saturating_add a ps) = min (2 ^ 64 - 1) (unat a + sum_list (map unat ps))"
  by (induction ps arbitrary: a) (auto simp: unat_saturating_add min_def intro: antisym)

lemma total_power_le_max_iff:
  "foldl saturating_add 0 (map info_power vs) \<le> max_total_voting_power \<longleftrightarrow> powers vs \<le> (2 ^ 63 - 1) div 8"
  by (auto simp: word_le_nat_alt unat_foldl_saturating_add unat_max_total powers_def min_def o_def)

lemma total_power_eq:
  "powers vs < 2 ^ 64 \<Longrightarrow> foldl saturating_add 0 (map info_power vs) = of_nat (powers vs)"
  by (rule unsigned_word_eqI [where ?'a = nat])
    (auto simp: unat_foldl_saturating_add powers_def o_def unat_of_nat take_bit_nat_eq_self min_def)

lemma sort_validators_mset [simp]: "mset (sort_validators vs) = mset vs"
  by (simp add: sort_validators_def)

lemma sort_validators_sorted [simp]: "sorted_validators (sort_validators vs)"
  by (simp add: sort_validators_def sorted_validators_def)

lemma sort_key_of_sorted: "sorted (map f xs) \<Longrightarrow> sort_key f xs = xs"
  by (induction xs) (auto simp: insort_is_Cons)

lemma sort_validators_id: "sorted_validators vs \<Longrightarrow> sort_validators vs = vs"
  by (simp add: sort_validators_def sorted_validators_def sort_key_of_sorted)

lemma powers_mset: "mset vs = mset ws \<Longrightarrow> powers vs = powers ws"
  unfolding powers_def by (metis mset_map sum_mset_sum_list)

text \<open>Every outcome of the constructor.\<close>

lemma try_from_parts_eq:
  "try_from_parts vs p t =
     (if (2 ^ 63 - 1) div 8 < powers vs then Err E_TotalVotingPowerOverflow
      else if t \<noteq> 0 \<and> sint t < 0 then Err E_NegativePower
      else if t \<noteq> 0 \<and> unat t \<noteq> powers vs then Err E_TotalVotingPowerMismatch
      else Ok \<lparr>vs_validators = sort_validators vs, vs_proposer = p,
               vs_total_voting_power = of_nat (powers vs)\<rparr>)"
proof (cases "powers vs \<le> (2 ^ 63 - 1) div 8")
  case False
  then show ?thesis
    using total_power_le_max_iff [of vs] by (auto simp: try_from_parts_def Let_def not_le)
next
  case True
  then have le: "foldl saturating_add 0 (map info_power vs) \<le> max_total_voting_power"
    and eq: "foldl saturating_add 0 (map info_power vs) = of_nat (powers vs)"
    using total_power_le_max_iff [of vs] total_power_eq [of vs] by auto
  have u: "unat (of_nat (powers vs) :: u64) = powers vs"
    using True by (simp add: unat_of_nat take_bit_nat_eq_self)
  then have "fits_i64 (of_nat (powers vs))" "t = of_nat (powers vs) \<longleftrightarrow> unat t = powers vs"
    using True by (auto simp: fits_i64_unat word_unat_eq_iff)
  with True le show ?thesis
    unfolding try_from_parts_def Let_def eq
    by (auto simp: power_try_from_u64_def power_try_from_i64_def fits_i64_iff_sint not_le not_less)
qed

lemma try_from_parts_inv:
  assumes "try_from_parts vs p t = Ok s"
  shows "set_inv s" "mset (vs_validators s) = mset vs" "vs_proposer s = p"
proof -
  from assms have le: "powers vs \<le> (2 ^ 63 - 1) div 8"
    and s: "s = \<lparr>vs_validators = sort_validators vs, vs_proposer = p, vs_total_voting_power = of_nat (powers vs)\<rparr>"
    by (auto simp: try_from_parts_eq split: if_splits)
  have "unat (of_nat (powers vs) :: u64) = powers vs"
    using le by (simp add: unat_of_nat take_bit_nat_eq_self)
  with le s show "set_inv s" "mset (vs_validators s) = mset vs" "vs_proposer s = p"
    using powers_mset [of "sort_validators vs" vs]
    by (simp_all add: set_inv_def word_le_nat_alt unat_max_total)
qed

lemma set_invD:
  assumes "set_inv s"
  shows "powers (vs_validators s) = unat (vs_total_voting_power s)"
    and "unat (vs_total_voting_power s) \<le> (2 ^ 63 - 1) div 8"
    and "sort_validators (vs_validators s) = vs_validators s"
  using assms by (auto simp: set_inv_def word_le_nat_alt unat_max_total sort_validators_id)

lemma try_from_parts_of_set:
  assumes "set_inv s"
  shows "try_from_parts (vs_validators s) (vs_proposer s) (vs_total_voting_power s) = Ok s"
proof -
  note inv = set_invD [OF assms]
  then have "fits_i64 (vs_total_voting_power s)" by (simp add: fits_i64_unat)
  then show ?thesis
    using inv by (simp add: try_from_parts_eq fits_i64_iff_sint)
qed

lemma info_roundtrip:
  "info_inv X i \<Longrightarrow> info_name i = None \<Longrightarrow> info_try_from X (info_into_raw i) = Ok i"
  by (simp add: info_inv_def info_try_from_def info_into_raw_def public_key_roundtrip
      power_try_from_i64_def power_into_i64_def account_id_try_from_def account_id_inv_def)

lemma info_try_from_inv:
  "sec1_canonical X \<Longrightarrow> info_try_from X r = Ok i \<Longrightarrow> info_inv X i \<and> info_name i = None"
  by (auto simp: info_try_from_def info_inv_def result_simps power_try_from_i64_def
      intro: public_key_try_from_inv split: if_splits)

lemma val_set_roundtrip:
  assumes "set_inv s" "\<forall>i \<in> set (vs_validators s) \<union> set_option (vs_proposer s). info_inv X i \<and> info_name i = None"
  shows "val_set_try_from X (val_set_into_raw s) = Ok s"
proof -
  have "try_map (info_try_from X) (map info_into_raw (vs_validators s)) = Ok (vs_validators s)"
    using assms(2) by (intro try_map_roundtrip info_roundtrip) auto
  moreover have "try_option (info_try_from X) (map_option info_into_raw (vs_proposer s)) = Ok (vs_proposer s)"
    using assms(2) by (cases "vs_proposer s") (auto simp: info_roundtrip)
  ultimately show ?thesis
    using try_from_parts_of_set [OF assms(1)]
    by (simp add: val_set_try_from_def val_set_into_raw_def power_into_i64_def)
qed

lemma val_set_try_from_inv:
  assumes "val_set_try_from X r = Ok s"
  shows "set_inv s"
    and "sec1_canonical X \<Longrightarrow> i \<in> set (vs_validators s) \<Longrightarrow> info_inv X i"
proof -
  from assms obtain vs p where vs: "try_map (info_try_from X) (rvs_validators r) = Ok vs"
      and s: "try_from_parts vs p (rvs_total_voting_power r) = Ok s"
    by (auto simp: val_set_try_from_def result_simps)
  show "set_inv s" by (rule try_from_parts_inv(1) [OF s])
  show "info_inv X i" if "sec1_canonical X" "i \<in> set (vs_validators s)"
  proof -
    have "i \<in> set vs" using that(2) try_from_parts_inv(2) [OF s] by (metis mset_eq_setD)
    then obtain k where k: "k < length vs" "i = vs ! k" by (auto simp: in_set_conv_nth)
    with vs have "info_try_from X (rvs_validators r ! k) = Ok i"
      by (auto simp: try_map_eq_Ok_iff list_all2_conv_all_nth)
    with info_try_from_inv [OF that(1)] show ?thesis by blast
  qed
qed

text \<open>The hash of a set fixes the keys and the powers, in order, and nothing else.\<close>

lemma set_hash_cong:
  "map simple_validator_from_info (vs_validators s) = map simple_validator_from_info (vs_validators t)
     \<Longrightarrow> set_hash X s = set_hash X t"
proof -
  have f: "info_hash_bytes X = (\<lambda>v. x_enc_simple_validator X (simple_validator_into_raw v)) \<circ> simple_validator_from_info"
    by (auto simp: info_hash_bytes_def)
  assume "map simple_validator_from_info (vs_validators s) = map simple_validator_from_info (vs_validators t)"
  then show ?thesis unfolding set_hash_def f map_map [symmetric] by simp
qed

lemma set_validator_SomeD:
  "set_validator s a = Some i \<Longrightarrow> i \<in> set (vs_validators s) \<and> info_address i = a"
  by (auto simp: set_validator_def find_Some_iff)

end
