(* ===== verification/Tm_Time.thy ===== *)
theory Tm_Time
  imports Tm_Scalars
begin

text \<open>
  \<open>tendermint/src/time.rs\<close>: timestamps, their wire form, and arithmetic with durations. The
  calendar is the \<open>time\<close> crate's; what it documents is the hypothesis \<open>time_crate\<close>.
\<close>

type_synonym time = instant

definition time_from_utc :: "externals \<Rightarrow> instant \<Rightarrow> time tm_result" where
  "time_from_utc X t = (if 1 \<le> x_year X t \<and> x_year X t \<le> 9999 then Ok t else Err E_DateOutOfRange)"

definition unix_epoch :: time where
  "unix_epoch = 0"

definition from_unix_timestamp :: "externals \<Rightarrow> i64 \<Rightarrow> u32 \<Rightarrow> time tm_result" where
  "from_unix_timestamp X secs nanos =
     (if 999999999 < nanos then Err E_TimestampNanosOutOfRange
      else case x_from_unix_nanos X (sint secs * 1000000000 + uint nanos) of
             Some odt \<Rightarrow> time_from_utc X odt
           | None \<Rightarrow> Err E_TimestampConversion)"

definition time_try_from :: "externals \<Rightarrow> raw_timestamp \<Rightarrow> time tm_result" where
  "time_try_from X value =
     (if fits_i32 (ts_nanos value) then from_unix_timestamp X (ts_seconds value) (ts_nanos value)
      else Err E_TimestampNanosOutOfRange)"

text \<open>
  \<open>unix_timestamp\<close> counts whole seconds downwards from the instant and \<open>nanosecond\<close> the rest,
  which is never negative.
\<close>

definition time_into_timestamp :: "time \<Rightarrow> raw_timestamp" where
  "time_into_timestamp t =
     \<lparr>ts_seconds = of_int (t div 1000000000), ts_nanos = of_int (t mod 1000000000)\<rparr>"

definition duration_since :: "externals \<Rightarrow> time \<Rightarrow> time \<Rightarrow> duration tm_result" where
  "duration_since X t other = ok_or E_DurationOutOfRange (x_duration_into_std X (t - other))"

definition time_checked_add :: "externals \<Rightarrow> time \<Rightarrow> duration \<Rightarrow> time option" where
  "time_checked_add X t d =
     (case x_duration_from_std X d of
        None \<Rightarrow> None
      | Some k \<Rightarrow>
         (case x_datetime_add X t k of
            None \<Rightarrow> None
          | Some u \<Rightarrow> (case time_from_utc X u of Ok v \<Rightarrow> Some v | _ \<Rightarrow> None)))"

definition time_checked_sub :: "externals \<Rightarrow> time \<Rightarrow> duration \<Rightarrow> time option" where
  "time_checked_sub X t d =
     (case x_duration_from_std X d of
        None \<Rightarrow> None
      | Some k \<Rightarrow>
         (case x_datetime_sub X t k of
            None \<Rightarrow> None
          | Some u \<Rightarrow> (case time_from_utc X u of Ok v \<Rightarrow> Some v | _ \<Rightarrow> None)))"

definition time_before :: "time \<Rightarrow> time \<Rightarrow> bool" where
  "time_before t other \<longleftrightarrow> t < other"

definition time_after :: "time \<Rightarrow> time \<Rightarrow> bool" where
  "time_after t other \<longleftrightarrow> t > other"

definition time_add :: "externals \<Rightarrow> time \<Rightarrow> duration \<Rightarrow> time tm_result" where
  "time_add X t rhs =
     and_then (ok_or E_DurationOutOfRange (x_duration_from_std X rhs))
       (\<lambda>d. and_then (ok_or E_DurationOutOfRange (x_datetime_add X t d))
         (time_from_utc X))"

definition time_sub :: "externals \<Rightarrow> time \<Rightarrow> duration \<Rightarrow> time tm_result" where
  "time_sub X t rhs =
     and_then (ok_or E_DurationOutOfRange (x_duration_from_std X rhs))
       (\<lambda>d. and_then (ok_or E_DurationOutOfRange (x_datetime_sub X t d))
         (time_from_utc X))"

text \<open>The values a \<open>Time\<close> can have: the range of protobuf timestamps.\<close>

definition time_inv :: "time \<Rightarrow> bool" where
  "time_inv t \<longleftrightarrow> year_1 \<le> t \<and> t < year_10000"

section \<open>A calendar that satisfies the documentation\<close>

text \<open>Used to show that \<open>time_crate\<close> can hold: exact arithmetic on the representable range.\<close>

definition ref_calendar :: "externals \<Rightarrow> externals" where
  "ref_calendar X = X\<lparr>
     x_duration_from_std := (\<lambda>d. Some (int d)),
     x_duration_into_std := (\<lambda>k. if 0 \<le> k then Some (nat k) else None),
     x_datetime_add := (\<lambda>t k. Some (t + k)),
     x_datetime_sub := (\<lambda>t k. Some (t - k)),
     x_year := (\<lambda>t. if year_1 \<le> t \<and> t < year_10000 then 2000 else 0),
     x_from_unix_nanos := Some\<rparr>"

section \<open>Lemmas\<close>

lemma time_crate_ref_calendar [simp]: "time_crate (ref_calendar X)"
  by (simp add: time_crate_def ref_calendar_def)

lemma time_crateD:
  assumes "time_crate X"
  shows "x_duration_from_std X d = Some k \<Longrightarrow> k = int d"
    and "d < 2 ^ 63 * 1000000000 \<Longrightarrow> x_duration_from_std X d \<noteq> None"
    and "x_datetime_add X t k = Some u \<Longrightarrow> u = t + k"
    and "year_1 \<le> t + k \<Longrightarrow> t + k < year_10000 \<Longrightarrow> x_datetime_add X t k \<noteq> None"
    and "x_datetime_sub X t k = Some u \<Longrightarrow> u = t - k"
    and "year_1 \<le> t - k \<Longrightarrow> t - k < year_10000 \<Longrightarrow> x_datetime_sub X t k \<noteq> None"
    and "x_from_unix_nanos X n = Some t \<Longrightarrow> t = n"
    and "year_1 \<le> n \<Longrightarrow> n < year_10000 \<Longrightarrow> x_from_unix_nanos X n \<noteq> None"
    and "x_duration_into_std X k = (if 0 \<le> k then Some (nat k) else None)"
  using assms unfolding time_crate_def by blast+

lemma time_from_utc_Ok_iff:
  "time_crate X \<Longrightarrow> time_from_utc X t = Ok u \<longleftrightarrow> u = t \<and> time_inv t"
  unfolding time_from_utc_def time_inv_def time_crate_def by auto

lemma time_add_Ok_iff:
  assumes X: "time_crate X" and t: "time_inv t"
  shows "time_add X t d = Ok u \<longleftrightarrow> u = t + int d \<and> t + int d < year_10000"
proof
  assume "time_add X t d = Ok u"
  then show "u = t + int d \<and> t + int d < year_10000"
    using time_crateD [OF X] time_from_utc_Ok_iff [OF X]
    by (auto simp: time_add_def result_simps time_inv_def)
next
  assume u: "u = t + int d \<and> t + int d < year_10000"
  with t have d: "d < 2 ^ 63 * 1000000000"
    by (auto simp: time_inv_def year_1_def year_10000_def)
  with u t show "time_add X t d = Ok u"
    using time_crateD [OF X] time_from_utc_Ok_iff [OF X]
    by (fastforce simp: time_add_def result_simps time_inv_def)
qed

lemma time_sub_Ok_iff:
  assumes X: "time_crate X" and t: "time_inv t"
  shows "time_sub X t d = Ok u \<longleftrightarrow> u = t - int d \<and> year_1 \<le> t - int d"
proof
  assume "time_sub X t d = Ok u"
  then show "u = t - int d \<and> year_1 \<le> t - int d"
    using time_crateD [OF X] time_from_utc_Ok_iff [OF X]
    by (auto simp: time_sub_def result_simps time_inv_def)
next
  assume u: "u = t - int d \<and> year_1 \<le> t - int d"
  with t have d: "d < 2 ^ 63 * 1000000000"
    by (auto simp: time_inv_def year_1_def year_10000_def)
  with u t show "time_sub X t d = Ok u"
    using time_crateD [OF X] time_from_utc_Ok_iff [OF X]
    by (fastforce simp: time_sub_def result_simps time_inv_def)
qed

lemma time_add_neq_Panic [simp]: "time_add X t d \<noteq> Panic"
  by (auto simp: time_add_def time_from_utc_def result_simps)

lemma time_sub_neq_Panic [simp]: "time_sub X t d \<noteq> Panic"
  by (auto simp: time_sub_def time_from_utc_def result_simps)

lemma time_checked_add_eq: "time_checked_add X t d = Some u \<longleftrightarrow> time_add X t d = Ok u"
  by (auto simp: time_checked_add_def time_add_def result_simps split: option.splits result.splits)

lemma time_checked_sub_eq: "time_checked_sub X t d = Some u \<longleftrightarrow> time_sub X t d = Ok u"
  by (auto simp: time_checked_sub_def time_sub_def result_simps split: option.splits result.splits)

lemma uint_of_int_32: "0 \<le> k \<Longrightarrow> k < 2 ^ 32 \<Longrightarrow> uint (word_of_int k :: 32 word) = k"
  by (simp add: uint_word_of_int take_bit_int_eq_self)

lemma time_timestamp_roundtrip:
  assumes X: "time_crate X" and t: "time_inv t"
  shows "time_try_from X (time_into_timestamp t) = Ok t"
proof -
  let ?s = "t div 1000000000" and ?n = "t mod 1000000000"
  have n: "0 \<le> ?n" "?n < 1000000000" by simp_all
  have s: "- (2 ^ 63) \<le> ?s" "?s < 2 ^ 63"
    using t by (auto simp: time_inv_def year_1_def year_10000_def)
  have u: "uint (word_of_int ?n :: 32 word) = ?n" using n by (intro uint_of_int_32) auto
  have "\<not> (999999999 :: 32 word) < word_of_int ?n" "fits_i32 (word_of_int ?n)"
    using n u by (auto simp: word_less_def fits_i32_def i32_max_def word_le_def)
  moreover obtain o' where "x_from_unix_nanos X t = Some o'" "o' = t"
    using time_crateD(7,8) [OF X, of t] t by (auto simp: time_inv_def)
  moreover have "?s * 1000000000 + ?n = t" by simp
  ultimately show ?thesis
    using s u t by (simp add: time_try_from_def time_into_timestamp_def from_unix_timestamp_def
        sint_of_int_64 time_from_utc_Ok_iff [OF X])
qed

lemma time_try_from_inv:
  assumes X: "time_crate X" and "time_try_from X r = Ok t"
  shows "time_inv t" "t = sint (ts_seconds r) * 1000000000 + uint (ts_nanos r)"
    "ts_nanos r \<le> 999999999"
  using assms time_crateD(7) [OF X]
  by (auto simp: time_try_from_def from_unix_timestamp_def time_from_utc_Ok_iff [OF X]
      split: if_splits option.splits)

lemma duration_since_add:
  assumes "time_crate X" "time_inv t" "time_inv u" "duration_since X u t = Ok d"
  shows "time_add X t d = Ok u"
  using assms time_crateD(9) [OF assms(1)]
  by (auto simp: time_add_Ok_iff duration_since_def result_simps time_inv_def split: if_splits)

end
