(* ===== verification/Tm_Block.thy ===== *)
theory Tm_Block
  imports Tm_Validator Tm_Time
begin

text \<open>
  \<open>tendermint/src/block\<close>: part-set headers, block ids, commit signatures, commits, headers and
  signed headers, with their wire conversions and the header hash. The predicates ending in \<open>_inv\<close>
  say what the conversions establish; the round trips hold under them.
\<close>

section \<open>Part-set headers and block ids\<close>

record part_set_header =
  psh_total :: u32
  psh_hash :: tm_hash

record block_id =
  bid_hash :: tm_hash
  bid_part_set_header :: part_set_header

definition part_set_header_try_from :: "raw_part_set_header \<Rightarrow> part_set_header tm_result" where
  "part_set_header_try_from value =
     (if rps_hash value \<noteq> [] \<and> length (rps_hash value) \<noteq> sha256_hash_size then Err E_InvalidHashSize
      else and_then (hash_from_bytes (rps_hash value))
        (\<lambda>h. Ok \<lparr>psh_total = rps_total value, psh_hash = h\<rparr>))"

definition part_set_header_into_raw :: "part_set_header \<Rightarrow> raw_part_set_header" where
  "part_set_header_into_raw p = \<lparr>rps_total = psh_total p, rps_hash = hash_as_bytes (psh_hash p)\<rparr>"

definition part_set_header_new :: "u32 \<Rightarrow> tm_hash \<Rightarrow> part_set_header tm_result" where
  "part_set_header_new n h =
     (if n = 0 \<and> h \<noteq> HashNone then Err (E_InvalidPartSetHeader ''zero total with existing hash'')
      else if n \<noteq> 0 \<and> h = HashNone then Err (E_InvalidPartSetHeader ''non-zero total with empty hash'')
      else Ok \<lparr>psh_total = n, psh_hash = h\<rparr>)"

definition block_id_default :: block_id where
  "block_id_default = \<lparr>bid_hash = HashNone, bid_part_set_header = \<lparr>psh_total = 0, psh_hash = HashNone\<rparr>\<rparr>"

definition block_id_try_from :: "raw_block_id \<Rightarrow> block_id tm_result" where
  "block_id_try_from value =
     (case rbi_part_set_header value of
        None \<Rightarrow> Err (E_InvalidPartSetHeader ''part_set_header is None'')
      | Some p \<Rightarrow>
          and_then (hash_try_from_vec (rbi_hash value))
            (\<lambda>h. and_then (part_set_header_try_from p)
            (\<lambda>psh. Ok \<lparr>bid_hash = h, bid_part_set_header = psh\<rparr>)))"

definition block_id_into_raw :: "block_id \<Rightarrow> raw_block_id" where
  "block_id_into_raw b =
     (if b = block_id_default
      then \<lparr>rbi_hash = [], rbi_part_set_header = Some \<lparr>rps_total = 0, rps_hash = []\<rparr>\<rparr>
      else \<lparr>rbi_hash = hash_as_bytes (bid_hash b),
            rbi_part_set_header = Some (part_set_header_into_raw (bid_part_set_header b))\<rparr>)"

definition block_id_into_canonical :: "block_id \<Rightarrow> raw_block_id" where
  "block_id_into_canonical b =
     \<lparr>rbi_hash = hash_as_bytes (bid_hash b),
      rbi_part_set_header = Some (part_set_header_into_raw (bid_part_set_header b))\<rparr>"

section \<open>Commit signatures\<close>

definition zero_timestamp :: raw_timestamp where
  "zero_timestamp = \<lparr>ts_seconds = - 62135596800, ts_nanos = 0\<rparr>"

datatype commit_sig =
    BlockIdFlagAbsent
  | BlockIdFlagCommit account_id time "signature option"
  | BlockIdFlagNil account_id time "signature option"

fun cs_validator_address :: "commit_sig \<Rightarrow> account_id option" where
  "cs_validator_address (BlockIdFlagCommit a t s) = Some a"
| "cs_validator_address (BlockIdFlagNil a t s) = Some a"
| "cs_validator_address BlockIdFlagAbsent = None"

definition cs_is_absent :: "commit_sig \<Rightarrow> bool" where
  "cs_is_absent c \<longleftrightarrow> c = BlockIdFlagAbsent"

fun cs_is_commit :: "commit_sig \<Rightarrow> bool" where
  "cs_is_commit (BlockIdFlagCommit a t s) \<longleftrightarrow> True"
| "cs_is_commit _ \<longleftrightarrow> False"

fun cs_is_nil :: "commit_sig \<Rightarrow> bool" where
  "cs_is_nil (BlockIdFlagNil a t s) \<longleftrightarrow> True"
| "cs_is_nil _ \<longleftrightarrow> False"

definition commit_sig_try_from :: "externals \<Rightarrow> raw_commit_sig \<Rightarrow> commit_sig tm_result" where
  "commit_sig_try_from X value =
     (if rcs_block_id_flag value = flag_absent then
        (if (case rcs_timestamp value of
               Some timestamp \<Rightarrow> ts_nanos timestamp \<noteq> 0 \<or> ts_seconds timestamp \<noteq> - 62135596800
             | None \<Rightarrow> False)
         then Err (E_InvalidTimestamp ''absent commitsig has non-zero timestamp'')
         else if rcs_signature value \<noteq> []
         then Err (E_InvalidSignature ''expected empty signature for absent commitsig'')
         else Ok BlockIdFlagAbsent)
      else if rcs_block_id_flag value = flag_commit then
        (if rcs_signature value = []
         then Err (E_InvalidSignature ''expected non-empty signature for regular commitsig'')
         else if rcs_validator_address value = [] then Err E_InvalidValidatorAddress
         else
           and_then (ok_or E_MissingTimestamp (rcs_timestamp value))
             (\<lambda>ts. and_then (time_try_from X ts)
             (\<lambda>timestamp. and_then (account_id_try_from (rcs_validator_address value))
             (\<lambda>address. and_then (signature_new (rcs_signature value))
             (\<lambda>signature. Ok (BlockIdFlagCommit address timestamp signature))))))
      else if rcs_block_id_flag value = flag_nil then
        (if rcs_signature value = []
         then Err (E_InvalidSignature ''nil commitsig has no signature'')
         else if rcs_validator_address value = [] then Err E_InvalidValidatorAddress
         else
           and_then (account_id_try_from (rcs_validator_address value))
             (\<lambda>address. and_then (ok_or E_MissingTimestamp (rcs_timestamp value))
             (\<lambda>ts. and_then (time_try_from X ts)
             (\<lambda>timestamp. and_then (signature_new (rcs_signature value))
             (\<lambda>signature. Ok (BlockIdFlagNil address timestamp signature))))))
      else Err E_BlockIdFlag)"

fun unwrap_or_default :: "bytes option \<Rightarrow> bytes" where
  "unwrap_or_default (Some s) = s"
| "unwrap_or_default None = []"

fun commit_sig_into_raw :: "commit_sig \<Rightarrow> raw_commit_sig" where
  "commit_sig_into_raw BlockIdFlagAbsent =
     \<lparr>rcs_block_id_flag = flag_absent, rcs_validator_address = [],
      rcs_timestamp = Some zero_timestamp, rcs_signature = []\<rparr>"
| "commit_sig_into_raw (BlockIdFlagNil a t s) =
     \<lparr>rcs_block_id_flag = flag_nil, rcs_validator_address = a,
      rcs_timestamp = Some (time_into_timestamp t), rcs_signature = unwrap_or_default s\<rparr>"
| "commit_sig_into_raw (BlockIdFlagCommit a t s) =
     \<lparr>rcs_block_id_flag = flag_commit, rcs_validator_address = a,
      rcs_timestamp = Some (time_into_timestamp t), rcs_signature = unwrap_or_default s\<rparr>"

section \<open>Commits\<close>

record commit =
  cmt_height :: height
  cmt_round :: round
  cmt_block_id :: block_id
  cmt_signatures :: "commit_sig list"

text \<open>The signatures are converted first, but their error is raised last.\<close>

definition commit_try_from :: "externals \<Rightarrow> raw_commit \<Rightarrow> commit tm_result" where
  "commit_try_from X value =
     (let signatures = try_map (commit_sig_try_from X) (rc_signatures value) in
      and_then (height_try_from_i64 (rc_height value))
        (\<lambda>height. and_then (round_try_from_i32 (rc_round value))
        (\<lambda>round. and_then (ok_or (E_InvalidBlock ''missing block id'') (rc_block_id value))
        (\<lambda>b. and_then (block_id_try_from b)
        (\<lambda>block_id. and_then signatures
        (\<lambda>sigs. Ok \<lparr>cmt_height = height, cmt_round = round, cmt_block_id = block_id,
                    cmt_signatures = sigs\<rparr>))))))"

definition commit_into_raw :: "commit \<Rightarrow> raw_commit" where
  "commit_into_raw c =
     \<lparr>rc_height = height_into_i64 (cmt_height c), rc_round = round_into_i32 (cmt_round c),
      rc_block_id = Some (block_id_into_raw (cmt_block_id c)),
      rc_signatures = map commit_sig_into_raw (cmt_signatures c)\<rparr>"

definition commit_default :: commit where
  "commit_default = \<lparr>cmt_height = 0, cmt_round = 0, cmt_block_id = block_id_default, cmt_signatures = []\<rparr>"

section \<open>Headers\<close>

record version =
  ver_block :: u64
  ver_app :: u64

record header =
  hdr_version :: version
  hdr_chain_id :: chain_id
  hdr_height :: height
  hdr_time :: time
  hdr_last_block_id :: "block_id option"
  hdr_last_commit_hash :: "tm_hash option"
  hdr_data_hash :: "tm_hash option"
  hdr_validators_hash :: tm_hash
  hdr_next_validators_hash :: tm_hash
  hdr_consensus_hash :: tm_hash
  hdr_app_hash :: app_hash
  hdr_last_results_hash :: "tm_hash option"
  hdr_evidence_hash :: "tm_hash option"
  hdr_proposer_address :: account_id

definition version_from_raw :: "raw_version \<Rightarrow> version" where
  "version_from_raw v = \<lparr>ver_block = rver_block v, ver_app = rver_app v\<rparr>"

definition version_into_raw :: "version \<Rightarrow> raw_version" where
  "version_into_raw v = \<lparr>rver_block = ver_block v, rver_app = ver_app v\<rparr>"

fun hash_or_default :: "tm_hash option \<Rightarrow> tm_hash" where
  "hash_or_default (Some h) = h"
| "hash_or_default None = HashNone"

fun block_id_or_default :: "block_id option \<Rightarrow> block_id" where
  "block_id_or_default (Some b) = b"
| "block_id_or_default None = block_id_default"

definition header_fields_bytes :: "externals \<Rightarrow> header \<Rightarrow> bytes list" where
  "header_fields_bytes X h =
     [x_enc_version X (version_into_raw (hdr_version h)),
      x_enc_string X (hdr_chain_id h),
      x_enc_i64 X (height_into_i64 (hdr_height h)),
      x_enc_timestamp X (time_into_timestamp (hdr_time h)),
      x_enc_block_id X (block_id_into_raw (block_id_or_default (hdr_last_block_id h))),
      x_enc_bytes X (hash_as_bytes (hash_or_default (hdr_last_commit_hash h))),
      x_enc_bytes X (hash_as_bytes (hash_or_default (hdr_data_hash h))),
      x_enc_bytes X (hash_as_bytes (hdr_validators_hash h)),
      x_enc_bytes X (hash_as_bytes (hdr_next_validators_hash h)),
      x_enc_bytes X (hash_as_bytes (hdr_consensus_hash h)),
      x_enc_bytes X (hdr_app_hash h),
      x_enc_bytes X (hash_as_bytes (hash_or_default (hdr_last_results_hash h))),
      x_enc_bytes X (hash_as_bytes (hash_or_default (hdr_evidence_hash h))),
      x_enc_bytes X (hdr_proposer_address h)]"

definition header_hash :: "externals \<Rightarrow> header \<Rightarrow> tm_hash" where
  "header_hash X h = Sha256 (simple_hash_from_byte_vectors X (header_fields_bytes X h))"

text \<open>An absent hash field is the empty byte string.\<close>

definition optional_hash_try_from :: "bytes \<Rightarrow> tm_hash option tm_result" where
  "optional_hash_try_from b =
     (if b = [] then Ok None else and_then (hash_try_from_vec b) (\<lambda>h. Ok (Some h)))"

definition last_block_id_try_from :: "raw_block_id option \<Rightarrow> block_id option tm_result" where
  "last_block_id_try_from v =
     and_then (try_option block_id_try_from v)
       (\<lambda>r. Ok (case r of Some l \<Rightarrow> if l \<noteq> block_id_default then Some l else None | None \<Rightarrow> None))"

definition header_try_from :: "externals \<Rightarrow> raw_header \<Rightarrow> header tm_result" where
  "header_try_from X value =
     and_then (last_block_id_try_from (rh_last_block_id value))
       (\<lambda>last_block_id. and_then (optional_hash_try_from (rh_last_commit_hash value))
       (\<lambda>last_commit_hash. and_then (optional_hash_try_from (rh_last_results_hash value))
       (\<lambda>last_results_hash. and_then (height_try_from_i64 (rh_height value))
       (\<lambda>height.
          if last_block_id \<noteq> None \<and> height = 1 then Err E_InvalidFirstHeader
          else
            and_then (ok_or E_MissingVersion (rh_version value))
              (\<lambda>version. and_then (chain_id_try_from (rh_chain_id value))
              (\<lambda>chain_id. and_then (ok_or E_MissingTimestamp (rh_time value))
              (\<lambda>ts. and_then (time_try_from X ts)
              (\<lambda>time. and_then (optional_hash_try_from (rh_data_hash value))
              (\<lambda>data_hash. and_then (hash_try_from_vec (rh_validators_hash value))
              (\<lambda>validators_hash. and_then (hash_try_from_vec (rh_next_validators_hash value))
              (\<lambda>next_validators_hash. and_then (hash_try_from_vec (rh_consensus_hash value))
              (\<lambda>consensus_hash. and_then (app_hash_try_from (rh_app_hash value))
              (\<lambda>app_hash. and_then (optional_hash_try_from (rh_evidence_hash value))
              (\<lambda>evidence_hash. and_then (account_id_try_from (rh_proposer_address value))
              (\<lambda>proposer_address.
                 Ok \<lparr>hdr_version = version_from_raw version, hdr_chain_id = chain_id,
                     hdr_height = height, hdr_time = time, hdr_last_block_id = last_block_id,
                     hdr_last_commit_hash = last_commit_hash, hdr_data_hash = data_hash,
                     hdr_validators_hash = validators_hash,
                     hdr_next_validators_hash = next_validators_hash,
                     hdr_consensus_hash = consensus_hash, hdr_app_hash = app_hash,
                     hdr_last_results_hash = last_results_hash,
                     hdr_evidence_hash = evidence_hash,
                     hdr_proposer_address = proposer_address\<rparr>)))))))))))))))"

definition header_into_raw :: "header \<Rightarrow> raw_header" where
  "header_into_raw h =
     \<lparr>rh_version = Some (version_into_raw (hdr_version h)), rh_chain_id = hdr_chain_id h,
      rh_height = height_into_i64 (hdr_height h), rh_time = Some (time_into_timestamp (hdr_time h)),
      rh_last_block_id = map_option block_id_into_raw (hdr_last_block_id h),
      rh_last_commit_hash = hash_as_bytes (hash_or_default (hdr_last_commit_hash h)),
      rh_data_hash = hash_as_bytes (hash_or_default (hdr_data_hash h)),
      rh_validators_hash = hash_as_bytes (hdr_validators_hash h),
      rh_next_validators_hash = hash_as_bytes (hdr_next_validators_hash h),
      rh_consensus_hash = hash_as_bytes (hdr_consensus_hash h),
      rh_app_hash = hdr_app_hash h,
      rh_last_results_hash = hash_as_bytes (hash_or_default (hdr_last_results_hash h)),
      rh_evidence_hash = hash_as_bytes (hash_or_default (hdr_evidence_hash h)),
      rh_proposer_address = hdr_proposer_address h\<rparr>"

section \<open>Signed headers\<close>

record signed_header =
  sh_header :: header
  sh_commit :: commit

definition signed_header_new :: "header \<Rightarrow> commit \<Rightarrow> signed_header tm_result" where
  "signed_header_new h c =
     (if hdr_height h \<noteq> cmt_height c then Err E_InvalidSignedHeader
      else Ok \<lparr>sh_header = h, sh_commit = c\<rparr>)"

definition signed_header_try_from :: "externals \<Rightarrow> raw_signed_header \<Rightarrow> signed_header tm_result" where
  "signed_header_try_from X value =
     and_then (ok_or E_InvalidSignedHeader (rsh_header value))
       (\<lambda>rh. and_then (header_try_from X rh)
       (\<lambda>header. and_then (ok_or E_InvalidSignedHeader (rsh_commit value))
       (\<lambda>rc. and_then (commit_try_from X rc)
       (\<lambda>commit. signed_header_new header commit))))"

definition signed_header_into_raw :: "signed_header \<Rightarrow> raw_signed_header" where
  "signed_header_into_raw s =
     \<lparr>rsh_header = Some (header_into_raw (sh_header s)), rsh_commit = Some (commit_into_raw (sh_commit s))\<rparr>"

section \<open>Invariants\<close>

definition part_set_header_inv :: "part_set_header \<Rightarrow> bool" where
  "part_set_header_inv p \<longleftrightarrow> hash_inv (psh_hash p)"

definition block_id_inv :: "block_id \<Rightarrow> bool" where
  "block_id_inv b \<longleftrightarrow> hash_inv (bid_hash b) \<and> part_set_header_inv (bid_part_set_header b)"

text \<open>A vote that arrived has an address, a time in range and a signature of the right length.\<close>

fun commit_sig_inv :: "commit_sig \<Rightarrow> bool" where
  "commit_sig_inv BlockIdFlagAbsent \<longleftrightarrow> True"
| "commit_sig_inv (BlockIdFlagCommit a t s) \<longleftrightarrow> account_id_inv a \<and> time_inv t \<and> (\<exists>b. s = Some b \<and> signature_inv b)"
| "commit_sig_inv (BlockIdFlagNil a t s) \<longleftrightarrow> account_id_inv a \<and> time_inv t \<and> (\<exists>b. s = Some b \<and> signature_inv b)"

definition commit_inv :: "commit \<Rightarrow> bool" where
  "commit_inv c \<longleftrightarrow> fits_i64 (cmt_height c) \<and> fits_i32 (cmt_round c) \<and> block_id_inv (cmt_block_id c)
     \<and> list_all commit_sig_inv (cmt_signatures c)"

definition optional_hash_inv :: "tm_hash option \<Rightarrow> bool" where
  "optional_hash_inv h \<longleftrightarrow> (\<forall>x. h = Some x \<longrightarrow> hash_inv x \<and> x \<noteq> HashNone)"

definition header_inv :: "header \<Rightarrow> bool" where
  "header_inv h \<longleftrightarrow>
     chain_id_inv (hdr_chain_id h) \<and> fits_i64 (hdr_height h) \<and> time_inv (hdr_time h)
     \<and> (\<forall>b. hdr_last_block_id h = Some b \<longrightarrow> block_id_inv b \<and> b \<noteq> block_id_default \<and> hdr_height h \<noteq> 1)
     \<and> optional_hash_inv (hdr_last_commit_hash h) \<and> optional_hash_inv (hdr_data_hash h)
     \<and> hash_inv (hdr_validators_hash h) \<and> hash_inv (hdr_next_validators_hash h)
     \<and> hash_inv (hdr_consensus_hash h) \<and> optional_hash_inv (hdr_last_results_hash h)
     \<and> optional_hash_inv (hdr_evidence_hash h) \<and> account_id_inv (hdr_proposer_address h)"

definition signed_header_inv :: "signed_header \<Rightarrow> bool" where
  "signed_header_inv s \<longleftrightarrow> header_inv (sh_header s) \<and> commit_inv (sh_commit s)
     \<and> hdr_height (sh_header s) = cmt_height (sh_commit s)"

section \<open>Lemmas\<close>

lemmas scalar_into_defs = height_into_i64_def round_into_i32_def power_into_i64_def app_hash_try_from_def

lemma part_set_header_try_from_Ok:
  "part_set_header_try_from r = Ok p \<longleftrightarrow>
     rps_total r = psh_total p \<and> hash_as_bytes (psh_hash p) = rps_hash r \<and> part_set_header_inv p"
  by (cases p; cases "psh_hash p")
    (auto simp: part_set_header_try_from_def hash_from_bytes_def part_set_header_inv_def result_simps
      sha256_hash_size_def)

lemma part_set_header_roundtrip:
  "part_set_header_inv p \<Longrightarrow> part_set_header_try_from (part_set_header_into_raw p) = Ok p"
  by (simp add: part_set_header_try_from_Ok part_set_header_into_raw_def)

lemma block_id_into_raw_eq: "block_id_into_raw b = block_id_into_canonical b"
  by (simp add: block_id_into_raw_def block_id_into_canonical_def block_id_default_def
      part_set_header_into_raw_def)

lemma block_id_roundtrip: "block_id_inv b \<Longrightarrow> block_id_try_from (block_id_into_raw b) = Ok b"
  by (simp add: block_id_into_raw_eq block_id_into_canonical_def block_id_try_from_def block_id_inv_def
      part_set_header_roundtrip)

lemma block_id_try_from_inv: "block_id_try_from r = Ok b \<Longrightarrow> block_id_inv b"
  by (auto simp: block_id_try_from_def block_id_inv_def result_simps hash_try_from_vec_Ok
      part_set_header_try_from_Ok split: option.splits)

lemma flag_distinct [simp]:
  "flag_absent \<noteq> flag_commit" "flag_absent \<noteq> flag_nil" "flag_commit \<noteq> flag_nil"
  "flag_commit \<noteq> flag_absent" "flag_nil \<noteq> flag_absent" "flag_nil \<noteq> flag_commit"
  by (simp_all add: flag_absent_def flag_commit_def flag_nil_def)

lemma signature_new_of_inv: "signature_inv b \<Longrightarrow> b \<noteq> [] \<and> signature_new b = Ok (Some b)"
  by (auto simp: signature_new_Ok signature_inv_def signature_length_def)

lemma account_id_not_Nil: "account_id_inv a \<Longrightarrow> a \<noteq> []"
  by (auto simp: account_id_inv_def account_id_length_def)

lemma commit_sig_roundtrip:
  "time_crate X \<Longrightarrow> commit_sig_inv c \<Longrightarrow> commit_sig_try_from X (commit_sig_into_raw c) = Ok c"
  by (cases c)
    (auto simp: commit_sig_try_from_def zero_timestamp_def time_timestamp_roundtrip
      account_id_try_from_def account_id_inv_def account_id_length_def dest: signature_new_of_inv)

lemma commit_sig_try_from_inv:
  "time_crate X \<Longrightarrow> commit_sig_try_from X r = Ok c \<Longrightarrow> commit_sig_inv c"
  by (auto simp: commit_sig_try_from_def result_simps signature_new_Ok time_try_from_inv(1)
      split: if_splits)

lemma commit_roundtrip:
  "time_crate X \<Longrightarrow> commit_inv c \<Longrightarrow> commit_try_from X (commit_into_raw c) = Ok c"
  by (simp add: commit_try_from_def commit_into_raw_def commit_inv_def scalar_into_defs
      height_try_from_i64_def round_try_from_i32_def block_id_roundtrip try_map_roundtrip
      commit_sig_roundtrip list_all_iff)

lemma commit_try_from_inv:
  assumes "time_crate X" "commit_try_from X r = Ok c"
  shows "commit_inv c"
proof -
  have "\<forall>s \<in> set (cmt_signatures c). commit_sig_inv s"
    using assms by (auto simp: commit_try_from_def result_simps Let_def
        dest!: try_map_Ok_set intro: commit_sig_try_from_inv)
  then show ?thesis
    using assms by (auto simp: commit_try_from_def commit_inv_def result_simps Let_def list_all_iff
        height_try_from_i64_def round_try_from_i32_def dest: block_id_try_from_inv split: if_splits)
qed

lemma optional_hash_roundtrip:
  "optional_hash_inv h \<Longrightarrow> optional_hash_try_from (hash_as_bytes (hash_or_default h)) = Ok h"
  by (cases h; cases "the h")
    (auto simp: optional_hash_try_from_def optional_hash_inv_def sha256_hash_size_def
      hash_try_from_vec_def hash_from_bytes_def)

lemma optional_hash_try_from_inv: "optional_hash_try_from b = Ok h \<Longrightarrow> optional_hash_inv h"
  by (auto simp: optional_hash_try_from_def optional_hash_inv_def result_simps hash_try_from_vec_Ok
      split: if_splits)

lemma last_block_id_roundtrip:
  "(\<And>b. v = Some b \<Longrightarrow> block_id_inv b \<and> b \<noteq> block_id_default) \<Longrightarrow>
     last_block_id_try_from (map_option block_id_into_raw v) = Ok v"
  by (cases v) (auto simp: last_block_id_try_from_def block_id_roundtrip)

lemma last_block_id_try_from_inv:
  "last_block_id_try_from v = Ok (Some b) \<Longrightarrow> block_id_inv b \<and> b \<noteq> block_id_default"
  by (cases v) (auto simp: last_block_id_try_from_def result_simps
      dest: block_id_try_from_inv split: if_splits)

lemma version_roundtrip [simp]: "version_from_raw (version_into_raw v) = v"
  by (simp add: version_from_raw_def version_into_raw_def)

lemma header_roundtrip:
  assumes "time_crate X" "header_inv h"
  shows "header_try_from X (header_into_raw h) = Ok h"
proof -
  have "last_block_id_try_from (map_option block_id_into_raw (hdr_last_block_id h)) = Ok (hdr_last_block_id h)"
    using assms(2) by (intro last_block_id_roundtrip) (auto simp: header_inv_def)
  moreover have "\<not> (hdr_last_block_id h \<noteq> None \<and> hdr_height h = 1)"
    using assms(2) by (auto simp: header_inv_def)
  ultimately show ?thesis
    using assms
    by (simp add: header_try_from_def header_into_raw_def header_inv_def scalar_into_defs
        height_try_from_i64_def optional_hash_roundtrip time_timestamp_roundtrip)
qed

lemma header_try_from_inv:
  assumes "time_crate X" "header_try_from X r = Ok h"
  shows "header_inv h"
  using assms
  by (auto simp: header_try_from_def header_inv_def result_simps height_try_from_i64_def
      hash_try_from_vec_Ok time_try_from_inv(1)
      dest: optional_hash_try_from_inv last_block_id_try_from_inv split: if_splits)

lemma signed_header_roundtrip:
  "time_crate X \<Longrightarrow> signed_header_inv s \<Longrightarrow> signed_header_try_from X (signed_header_into_raw s) = Ok s"
  by (simp add: signed_header_try_from_def signed_header_into_raw_def signed_header_inv_def
      header_roundtrip commit_roundtrip signed_header_new_def)

lemma signed_header_try_from_inv:
  "time_crate X \<Longrightarrow> signed_header_try_from X r = Ok s \<Longrightarrow> signed_header_inv s"
  by (auto simp: signed_header_try_from_def signed_header_inv_def result_simps signed_header_new_def
      intro: header_try_from_inv commit_try_from_inv split: if_splits)

end
