(* ===== verification/Tm_Vote.thy ===== *)
theory Tm_Vote
  imports Tm_Block
begin

text \<open>
  \<open>tendermint/src/vote.rs\<close> and \<open>vote/canonical_vote.rs\<close>: votes, their canonical form and the bytes a
  validator signs.
\<close>

section \<open>Votes\<close>

datatype vote_type = Prevote | Precommit

fun vote_type_into_i32 :: "vote_type \<Rightarrow> i32" where
  "vote_type_into_i32 Prevote = 1"
| "vote_type_into_i32 Precommit = 2"

definition vote_type_try_from :: "i32 \<Rightarrow> vote_type tm_result" where
  "vote_type_try_from v =
     (if v = 1 then Ok Prevote else if v = 2 then Ok Precommit else Err E_InvalidMessageType)"

fun vote_type_to_string :: "vote_type \<Rightarrow> string" where
  "vote_type_to_string Prevote = ''Prevote''"
| "vote_type_to_string Precommit = ''Precommit''"

definition vote_type_from_str :: "string \<Rightarrow> vote_type tm_result" where
  "vote_type_from_str s =
     (if s = ''Prevote'' then Ok Prevote else if s = ''Precommit'' then Ok Precommit
      else Err E_InvalidMessageType)"

record vote =
  vote_vote_type :: vote_type
  vote_height :: height
  vote_round :: round
  vote_block_id :: "block_id option"
  vote_timestamp :: "time option"
  vote_validator_address :: account_id
  vote_validator_index :: validator_index
  vote_signature :: "signature option"
  vote_extension :: bytes
  vote_extension_signature :: "signature option"

definition is_prevote :: "vote \<Rightarrow> bool" where
  "is_prevote v = (case vote_vote_type v of Prevote \<Rightarrow> True | Precommit \<Rightarrow> False)"

definition is_precommit :: "vote \<Rightarrow> bool" where
  "is_precommit v = (case vote_vote_type v of Precommit \<Rightarrow> True | Prevote \<Rightarrow> False)"

definition vote_header_hash :: "vote \<Rightarrow> tm_hash option" where
  "vote_header_hash v = map_option bid_hash (vote_block_id v)"

definition vote_try_from :: "externals \<Rightarrow> raw_vote \<Rightarrow> vote tm_result" where
  "vote_try_from X value =
     (if rvo_timestamp value = None then Err E_MissingTimestamp
      else
        and_then (vote_type_try_from (rvo_type value))
          (\<lambda>vote_type. and_then (height_try_from_i64 (rvo_height value))
          (\<lambda>height. and_then (round_try_from_i32 (rvo_round value))
          (\<lambda>round. and_then (last_block_id_try_from (rvo_block_id value))
          (\<lambda>block_id. and_then (try_option (time_try_from X) (rvo_timestamp value))
          (\<lambda>timestamp. and_then (account_id_try_from (rvo_validator_address value))
          (\<lambda>address. and_then (validator_index_try_from_i32 (rvo_validator_index value))
          (\<lambda>index. and_then (signature_new (rvo_signature value))
          (\<lambda>signature. and_then (signature_new (rvo_extension_signature value))
          (\<lambda>extension_signature.
             Ok \<lparr>vote_vote_type = vote_type, vote_height = height, vote_round = round,
                 vote_block_id = block_id, vote_timestamp = timestamp,
                 vote_validator_address = address, vote_validator_index = index,
                 vote_signature = signature, vote_extension = rvo_extension value,
                 vote_extension_signature = extension_signature\<rparr>))))))))))"

text \<open>
  Protocol versions 0.34 and 0.37 have no vote extensions: the raw vote lacks the two fields, which
  are set to their defaults.
\<close>

definition vote_try_from_v0_37 :: "externals \<Rightarrow> raw_vote \<Rightarrow> vote tm_result" where
  "vote_try_from_v0_37 X value =
     (if rvo_timestamp value = None then Err E_MissingTimestamp
      else
        and_then (vote_type_try_from (rvo_type value))
          (\<lambda>vote_type. and_then (height_try_from_i64 (rvo_height value))
          (\<lambda>height. and_then (round_try_from_i32 (rvo_round value))
          (\<lambda>round. and_then (last_block_id_try_from (rvo_block_id value))
          (\<lambda>block_id. and_then (try_option (time_try_from X) (rvo_timestamp value))
          (\<lambda>timestamp. and_then (account_id_try_from (rvo_validator_address value))
          (\<lambda>address. and_then (validator_index_try_from_i32 (rvo_validator_index value))
          (\<lambda>index. and_then (signature_new (rvo_signature value))
          (\<lambda>signature.
             Ok \<lparr>vote_vote_type = vote_type, vote_height = height, vote_round = round,
                 vote_block_id = block_id, vote_timestamp = timestamp,
                 vote_validator_address = address, vote_validator_index = index,
                 vote_signature = signature, vote_extension = [],
                 vote_extension_signature = None\<rparr>)))))))))"

definition vote_into_raw :: "vote \<Rightarrow> raw_vote" where
  "vote_into_raw v =
     \<lparr>rvo_type = vote_type_into_i32 (vote_vote_type v),
      rvo_height = height_into_i64 (vote_height v),
      rvo_round = round_into_i32 (vote_round v),
      rvo_block_id = map_option block_id_into_raw (vote_block_id v),
      rvo_timestamp = map_option time_into_timestamp (vote_timestamp v),
      rvo_validator_address = vote_validator_address v,
      rvo_validator_index = validator_index_into_i32 (vote_validator_index v),
      rvo_signature = unwrap_or_default (vote_signature v),
      rvo_extension = vote_extension v,
      rvo_extension_signature = unwrap_or_default (vote_extension_signature v)\<rparr>"

section \<open>Canonical votes\<close>

record canonical_vote =
  cv_vote_type :: vote_type
  cv_height :: height
  cv_round :: round
  cv_block_id :: "block_id option"
  cv_timestamp :: "time option"
  cv_chain_id :: chain_id

definition canonical_vote_new :: "vote \<Rightarrow> chain_id \<Rightarrow> canonical_vote" where
  "canonical_vote_new v c =
     \<lparr>cv_vote_type = vote_vote_type v, cv_height = vote_height v, cv_round = vote_round v,
      cv_block_id = vote_block_id v, cv_timestamp = vote_timestamp v, cv_chain_id = c\<rparr>"

definition canonical_vote_try_from :: "externals \<Rightarrow> raw_canonical_vote \<Rightarrow> canonical_vote tm_result" where
  "canonical_vote_try_from X value =
     (if rcv_timestamp value = None then Err E_MissingTimestamp
      else if \<not> (- (2 ^ 31) \<le> sint (rcv_round value) \<and> sint (rcv_round value) < 2 ^ 31)
      then Err E_IntegerOverflow
      else
        let block_id = (case rcv_block_id value of
               Some i \<Rightarrow> if rbi_hash i \<noteq> [] then Some i else None | None \<Rightarrow> None) in
        and_then (vote_type_try_from (rcv_type value))
          (\<lambda>vote_type. and_then (height_try_from_i64 (rcv_height value))
          (\<lambda>height. and_then (round_try_from_i32 (ucast (rcv_round value)))
          (\<lambda>round. and_then (try_option block_id_try_from block_id)
          (\<lambda>b. and_then (try_option (time_try_from X) (rcv_timestamp value))
          (\<lambda>timestamp. and_then (chain_id_try_from (rcv_chain_id value))
          (\<lambda>chain_id.
             Ok \<lparr>cv_vote_type = vote_type, cv_height = height, cv_round = round, cv_block_id = b,
                 cv_timestamp = timestamp, cv_chain_id = chain_id\<rparr>)))))))"

definition canonical_vote_into_raw :: "canonical_vote \<Rightarrow> raw_canonical_vote" where
  "canonical_vote_into_raw v =
     (let block_id = (case cv_block_id v of
               Some i \<Rightarrow> if i \<noteq> block_id_default then Some i else None | None \<Rightarrow> None) in
      \<lparr>rcv_type = vote_type_into_i32 (cv_vote_type v),
       rcv_height = height_into_i64 (cv_height v),
       rcv_round = ucast (cv_round v),
       rcv_block_id = map_option block_id_into_canonical block_id,
       rcv_timestamp = map_option time_into_timestamp (cv_timestamp v),
       rcv_chain_id = cv_chain_id v\<rparr>)"

definition into_signable_vec :: "externals \<Rightarrow> vote \<Rightarrow> chain_id \<Rightarrow> bytes" where
  "into_signable_vec X v c = x_enc_canonical_vote_delimited X (canonical_vote_into_raw (canonical_vote_new v c))"

section \<open>Signed votes\<close>

record signed_vote =
  sgv_vote :: canonical_vote
  sgv_validator_address :: account_id
  sgv_signature :: signature

definition signed_vote_new :: "vote \<Rightarrow> chain_id \<Rightarrow> account_id \<Rightarrow> signature \<Rightarrow> signed_vote" where
  "signed_vote_new v c address s =
     \<lparr>sgv_vote = canonical_vote_new v c, sgv_validator_address = address, sgv_signature = s\<rparr>"

definition signed_vote_from_vote :: "vote \<Rightarrow> chain_id \<Rightarrow> signed_vote option" where
  "signed_vote_from_vote v c =
     map_option (\<lambda>s. signed_vote_new v c (vote_validator_address v) s) (vote_signature v)"

definition sign_bytes :: "externals \<Rightarrow> signed_vote \<Rightarrow> bytes" where
  "sign_bytes X sv = x_enc_canonical_vote_delimited X (canonical_vote_into_raw (sgv_vote sv))"

section \<open>Invariants and lemmas\<close>

definition optional_signature_inv :: "signature option \<Rightarrow> bool" where
  "optional_signature_inv s \<longleftrightarrow> (\<forall>b. s = Some b \<longrightarrow> signature_inv b)"

definition vote_inv :: "vote \<Rightarrow> bool" where
  "vote_inv v \<longleftrightarrow>
     fits_i64 (vote_height v) \<and> fits_i32 (vote_round v) \<and> fits_i32 (vote_validator_index v)
     \<and> (\<forall>b. vote_block_id v = Some b \<longrightarrow> block_id_inv b \<and> b \<noteq> block_id_default)
     \<and> (\<exists>t. vote_timestamp v = Some t \<and> time_inv t)
     \<and> account_id_inv (vote_validator_address v)
     \<and> optional_signature_inv (vote_signature v) \<and> optional_signature_inv (vote_extension_signature v)"

definition canonical_vote_inv :: "canonical_vote \<Rightarrow> bool" where
  "canonical_vote_inv v \<longleftrightarrow>
     fits_i64 (cv_height v) \<and> fits_i32 (cv_round v)
     \<and> (\<forall>b. cv_block_id v = Some b \<longrightarrow> block_id_inv b \<and> bid_hash b \<noteq> HashNone)
     \<and> (\<exists>t. cv_timestamp v = Some t \<and> time_inv t) \<and> chain_id_inv (cv_chain_id v)"

lemma vote_type_roundtrip [simp]:
  "vote_type_try_from (vote_type_into_i32 t) = Ok t" "vote_type_from_str (vote_type_to_string t) = Ok t"
  by (cases t; simp add: vote_type_try_from_def vote_type_from_str_def)+

lemma signature_option_roundtrip:
  "optional_signature_inv s \<Longrightarrow> signature_new (unwrap_or_default s) = Ok s"
  by (cases s) (auto simp: optional_signature_inv_def signature_new_Ok)

lemma vote_roundtrip:
  assumes "time_crate X" "vote_inv v"
  shows "vote_try_from X (vote_into_raw v) = Ok v"
proof -
  have "last_block_id_try_from (map_option block_id_into_raw (vote_block_id v)) = Ok (vote_block_id v)"
    using assms(2) by (intro last_block_id_roundtrip) (auto simp: vote_inv_def)
  moreover obtain t where "vote_timestamp v = Some t" "time_inv t"
    using assms(2) by (auto simp: vote_inv_def)
  ultimately show ?thesis
    using assms by (simp add: vote_try_from_def vote_into_raw_def vote_inv_def scalar_into_defs
        height_try_from_i64_def round_try_from_i32_def validator_index_try_from_i32_def
        validator_index_into_i32_def time_timestamp_roundtrip signature_option_roundtrip)
qed

lemma vote_try_from_inv:
  assumes "time_crate X" "vote_try_from X r = Ok v"
  shows "vote_inv v"
  using assms
  by (auto simp: vote_try_from_def vote_inv_def optional_signature_inv_def result_simps
      height_try_from_i64_def round_try_from_i32_def validator_index_try_from_i32_def signature_new_Ok
      time_try_from_inv(1) dest: last_block_id_try_from_inv split: if_splits)

lemma sint_ucast_i32:
  assumes "fits_i32 (r :: u32)"
  shows "sint (ucast r :: u64) = uint r" "uint r < 2 ^ 31"
proof -
  show lt: "uint r < 2 ^ 31" using assms by (simp add: fits_i32_def i32_max_def word_le_def)
  then show "sint (ucast r :: u64) = uint r"
    by (simp add: sint_uint uint_up_ucast is_up signed_take_bit_int_eq_self_iff)
      (meson order_trans uint_ge_0 neg_0_le_iff_le le_minus_one_simps(1) neg_le_0_iff_le zero_le_numeral)
qed

lemma canonical_vote_roundtrip:
  assumes "time_crate X" "canonical_vote_inv v"
  shows "canonical_vote_try_from X (canonical_vote_into_raw v) = Ok v"
proof -
  obtain t where t: "cv_timestamp v = Some t" "time_inv t"
    using assms(2) by (auto simp: canonical_vote_inv_def)
  have r: "fits_i32 (cv_round v)" using assms(2) by (simp add: canonical_vote_inv_def)
  then have "sint (ucast (cv_round v) :: u64) < 2 ^ 31" "- (2 ^ 31) \<le> sint (ucast (cv_round v) :: u64)"
    using sint_ucast_i32 [OF r] by (simp_all add: order_trans [of _ 0])
  moreover have "ucast (ucast (cv_round v) :: u64) = cv_round v" by (rule bit_word_eqI) (simp add: bit_simps)
  moreover have "try_option block_id_try_from
      (case map_option block_id_into_canonical
         (case cv_block_id v of Some i \<Rightarrow> if i \<noteq> block_id_default then Some i else None | None \<Rightarrow> None) of
       Some i \<Rightarrow> if rbi_hash i \<noteq> [] then Some i else None | None \<Rightarrow> None) = Ok (cv_block_id v)"
  proof (cases "cv_block_id v")
    case (Some b)
    then have b: "block_id_inv b" "bid_hash b \<noteq> HashNone"
      using assms(2) by (auto simp: canonical_vote_inv_def)
    then have "b \<noteq> block_id_default" "rbi_hash (block_id_into_canonical b) \<noteq> []"
      by (cases "bid_hash b"; auto simp: block_id_default_def block_id_into_canonical_def block_id_inv_def
          sha256_hash_size_def)+
    with Some b show ?thesis
      using block_id_roundtrip [of b] by (simp add: block_id_into_raw_eq)
  qed simp
  ultimately show ?thesis
    using assms t r
    by (simp add: canonical_vote_try_from_def canonical_vote_into_raw_def canonical_vote_inv_def Let_def
        scalar_into_defs height_try_from_i64_def round_try_from_i32_def time_timestamp_roundtrip)
qed

text \<open>What a validator signs does not depend on who the vote says it is from.\<close>

lemma sign_bytes_signed_vote_new: "sign_bytes X (signed_vote_new v c a s) = into_signable_vec X v c"
  by (simp add: sign_bytes_def signed_vote_new_def into_signable_vec_def)

end
