(* ===== verification/Trust_Threshold.thy ===== *)
theory Trust_Threshold
  imports Tm_Scalars
begin

text \<open>
  \<open>tendermint/src/trust_threshold.rs\<close>: the fraction of a validator set's power that must sign. The
  arithmetic is that of \<open>u64\<close>, which wraps.
\<close>

record trust_threshold =
  numerator :: u64
  denominator :: u64

definition one_third :: trust_threshold where
  "one_third = \<lparr>numerator = 1, denominator = 3\<rparr>"

definition two_thirds :: trust_threshold where
  "two_thirds = \<lparr>numerator = 2, denominator = 3\<rparr>"

definition trust_threshold_new :: "u64 \<Rightarrow> u64 \<Rightarrow> trust_threshold tm_result" where
  "trust_threshold_new num den =
     (if den < num then Err E_TrustThresholdTooLarge
      else if den = 0 then Err E_UndefinedTrustThreshold
      else if 3 * num < den then Err E_TrustThresholdTooSmall
      else Ok \<lparr>numerator = num, denominator = den\<rparr>)"

definition is_enough_power :: "trust_threshold \<Rightarrow> u64 \<Rightarrow> u64 \<Rightarrow> bool" where
  "is_enough_power t signed_voting_power total_voting_power \<longleftrightarrow>
     signed_voting_power * denominator t > total_voting_power * numerator t"

text \<open>A fraction the constructor means to accept, and one whose products fit the word.\<close>

definition threshold_inv :: "trust_threshold \<Rightarrow> bool" where
  "threshold_inv t \<longleftrightarrow> 0 < unat (denominator t) \<and> unat (numerator t) \<le> unat (denominator t)
     \<and> unat (denominator t) \<le> 3 * unat (numerator t)"

definition small_threshold :: "trust_threshold \<Rightarrow> bool" where
  "small_threshold t \<longleftrightarrow> threshold_inv t \<and> unat (denominator t) \<le> 16"

section \<open>Lemmas\<close>

lemma two_thirds_simps [simp]: "numerator two_thirds = 2" "denominator two_thirds = 3"
  by (simp_all add: two_thirds_def)

lemma small_threshold_two_thirds [simp]: "small_threshold two_thirds"
  by (simp add: small_threshold_def threshold_inv_def)

lemma small_threshold_one_third [simp]: "small_threshold one_third"
  by (simp add: small_threshold_def threshold_inv_def one_third_def)

lemma trust_threshold_new_Ok_iff:
  assumes "unat num < 2 ^ 62"
  shows "trust_threshold_new num den = Ok t \<longleftrightarrow>
    t = \<lparr>numerator = num, denominator = den\<rparr> \<and> threshold_inv t"
proof -
  have "unat (3 * num) = 3 * unat num" using assms by (simp add: unat_mult_no_overflow)
  then show ?thesis
    by (auto simp: trust_threshold_new_def threshold_inv_def word_less_nat_alt unat_gt_0 not_less)
qed

text \<open>Within the bound on the total power of a set, the comparison is the one of fractions.\<close>

lemma is_enough_power_iff:
  assumes "small_threshold t" "unat s < 2 ^ 60" "unat p < 2 ^ 60"
  shows "is_enough_power t s p \<longleftrightarrow> unat p * unat (numerator t) < unat s * unat (denominator t)"
proof -
  have d: "unat (denominator t) \<le> 16" and n: "unat (numerator t) \<le> 16"
    using assms(1) by (auto simp: small_threshold_def threshold_inv_def)
  have "unat s * unat (denominator t) \<le> (2 ^ 60 - 1) * 16"
    using assms(2) d by (intro mult_mono) auto
  moreover have "unat p * unat (numerator t) \<le> (2 ^ 60 - 1) * 16"
    using assms(3) n by (intro mult_mono) auto
  ultimately show ?thesis
    by (simp add: is_enough_power_def word_less_nat_alt unat_mult_no_overflow)
qed

lemma is_enough_power_mono:
  assumes "small_threshold t" "unat s' < 2 ^ 60" "unat p < 2 ^ 60" "unat s \<le> unat s'" "is_enough_power t s p"
  shows "is_enough_power t s' p"
proof -
  have "unat p * unat (numerator t) < unat s * unat (denominator t)"
    using assms by (simp add: is_enough_power_iff)
  also have "\<dots> \<le> unat s' * unat (denominator t)" using assms(4) by (rule mult_le_mono1)
  finally show ?thesis using assms by (simp add: is_enough_power_iff)
qed

end
