(* ===== verification/Verifier_Types.thy ===== *)
theory Verifier_Types
  imports Tm_Vote Trust_Threshold
begin

text \<open>
  The data of the \<open>light-client-verifier\<close> crate: the tally of voting power, verification errors,
  options, light blocks and the trusted and untrusted views of them
  (\<open>types.rs\<close>, \<open>errors.rs\<close>, \<open>options.rs\<close>).
\<close>

section \<open>Tallies and errors\<close>

record tally =
  tly_total :: u64
  tly_tallied :: u64
  tly_trust_threshold :: trust_threshold

datatype verification_error =
    VE_Tendermint tm_error
  | VE_HeaderFromTheFuture time time duration
  | VE_NotEnoughTrust tally
  | VE_InsufficientSignersOverlap tally
  | VE_DuplicateValidator account_id
  | VE_MissingSignature
  | VE_InvalidSignature bytes info bytes
  | VE_InvalidCommitValue tm_hash tm_hash
  | VE_InvalidNextValidatorSet tm_hash tm_hash
  | VE_InvalidValidatorSet tm_hash tm_hash
  | VE_NonIncreasingHeight height height
  | VE_ChainIdMismatch string string
  | VE_NonMonotonicBftTime time time
  | VE_NotWithinTrustPeriod time time
  | VE_NoSignatureForCommit
  | VE_MismatchPreCommitLength nat nat
  | VE_FaultySigner account_id val_set

fun ve_not_enough_trust :: "verification_error \<Rightarrow> tally option" where
  "ve_not_enough_trust (VE_NotEnoughTrust t) = Some t"
| "ve_not_enough_trust _ = None"

fun ve_has_expired :: "verification_error \<Rightarrow> bool" where
  "ve_has_expired (VE_NotWithinTrustPeriod e n) \<longleftrightarrow> True"
| "ve_has_expired _ \<longleftrightarrow> False"

type_synonym 'a ve_result = "(verification_error, 'a) result"

section \<open>Options and statuses\<close>

record options =
  opt_trust_threshold :: trust_threshold
  opt_trusting_period :: duration
  opt_clock_drift :: duration

datatype status = Failed | Unverified | Verified | Trusted

fun status_rank :: "status \<Rightarrow> nat" where
  "status_rank Failed = 0"
| "status_rank Unverified = 1"
| "status_rank Verified = 2"
| "status_rank Trusted = 3"

text \<open>The derived order is the order of declaration.\<close>

instantiation status :: linorder
begin

definition less_eq_status :: "status \<Rightarrow> status \<Rightarrow> bool" where
  "less_eq_status a b \<longleftrightarrow> status_rank a \<le> status_rank b"

definition less_status :: "status \<Rightarrow> status \<Rightarrow> bool" where
  "less_status a b \<longleftrightarrow> status_rank a < status_rank b"

instance
proof
  fix a b :: status
  show "a \<le> b \<Longrightarrow> b \<le> a \<Longrightarrow> a = b"
    by (cases a; cases b; simp add: less_eq_status_def)
qed (auto simp: less_eq_status_def less_status_def)

end

definition status_iter :: "status list" where
  "status_iter = [Unverified, Verified, Trusted, Failed]"

definition most_trusted :: "status \<Rightarrow> status \<Rightarrow> status" where
  "most_trusted a b = max a b"

section \<open>Light blocks\<close>

type_synonym peer_id = bytes

record light_block =
  lb_signed_header :: signed_header
  lb_validators :: val_set
  lb_next_validators :: val_set
  lb_provider :: peer_id

record trusted_block_state =
  tbs_chain_id :: chain_id
  tbs_header_time :: time
  tbs_height :: height
  tbs_next_validators :: val_set
  tbs_next_validators_hash :: tm_hash

record untrusted_block_state =
  ubs_signed_header :: signed_header
  ubs_validators :: val_set
  ubs_next_validators :: "val_set option"

definition ubs_height :: "untrusted_block_state \<Rightarrow> height" where
  "ubs_height u = hdr_height (sh_header (ubs_signed_header u))"

definition lb_height :: "light_block \<Rightarrow> height" where
  "lb_height b = hdr_height (sh_header (lb_signed_header b))"

definition lb_time :: "light_block \<Rightarrow> time" where
  "lb_time b = hdr_time (sh_header (lb_signed_header b))"

definition as_trusted_state :: "light_block \<Rightarrow> trusted_block_state" where
  "as_trusted_state b =
     \<lparr>tbs_chain_id = hdr_chain_id (sh_header (lb_signed_header b)),
      tbs_header_time = hdr_time (sh_header (lb_signed_header b)),
      tbs_height = hdr_height (sh_header (lb_signed_header b)),
      tbs_next_validators = lb_next_validators b,
      tbs_next_validators_hash = hdr_next_validators_hash (sh_header (lb_signed_header b))\<rparr>"

definition as_untrusted_state :: "light_block \<Rightarrow> untrusted_block_state" where
  "as_untrusted_state b =
     \<lparr>ubs_signed_header = lb_signed_header b, ubs_validators = lb_validators b,
      ubs_next_validators = Some (lb_next_validators b)\<rparr>"

record latest_status =
  ls_height :: "u64 option"
  ls_block_hash :: "tm_hash option"
  ls_valset_hash :: "tm_hash option"
  ls_connected_nodes :: "peer_id list"

definition latest_status_new ::
  "u64 option \<Rightarrow> tm_hash option \<Rightarrow> tm_hash option \<Rightarrow> peer_id list \<Rightarrow> latest_status" where
  "latest_status_new h b v ns =
     \<lparr>ls_height = h, ls_block_hash = b, ls_valset_hash = v, ls_connected_nodes = ns\<rparr>"

end
