(* ===== verification/Light_Store.thy ===== *)
theory Light_Store
  imports Verifier_Types
begin

text \<open>
  \<open>light-client/src/store.rs\<close>, \<open>store/memory.rs\<close> and \<open>utils/std_ext.rs\<close>: the store of light blocks.
  The trait \<open>LightStore\<close> is a record of its required methods; the provided methods are functions of
  that record. The contract of the required methods is the locale \<open>light_store\<close>, which the
  in-memory store satisfies.
\<close>

section \<open>Helpers\<close>

definition cmp_max_by_key :: "'a \<Rightarrow> 'a \<Rightarrow> ('a \<Rightarrow> 'k::linorder) \<Rightarrow> 'a" where
  "cmp_max_by_key a b key = (if key a > key b then a else b)"

definition cmp_min_by_key :: "'a \<Rightarrow> 'a \<Rightarrow> ('a \<Rightarrow> 'k::linorder) \<Rightarrow> 'a" where
  "cmp_min_by_key a b key = (if key a \<le> key b then a else b)"

fun option_select :: "'a option \<Rightarrow> 'a option \<Rightarrow> ('a \<Rightarrow> 'a \<Rightarrow> 'a) \<Rightarrow> 'a option" where
  "option_select None b f = b"
| "option_select (Some a) None f = Some a"
| "option_select (Some a) (Some b) f = Some (f a b)"

fun or_else :: "'a option \<Rightarrow> 'a option \<Rightarrow> 'a option" where
  "or_else (Some a) b = Some a"
| "or_else None b = b"

section \<open>The trait\<close>

record 's store_ops =
  so_get :: "'s \<Rightarrow> height \<Rightarrow> status \<Rightarrow> light_block option"
  so_update :: "'s \<Rightarrow> light_block \<Rightarrow> status \<Rightarrow> 's"
  so_insert :: "'s \<Rightarrow> light_block \<Rightarrow> status \<Rightarrow> 's"
  so_remove :: "'s \<Rightarrow> height \<Rightarrow> status \<Rightarrow> 's"
  so_highest :: "'s \<Rightarrow> status \<Rightarrow> light_block option"
  so_highest_before :: "'s \<Rightarrow> height \<Rightarrow> status \<Rightarrow> light_block option"
  so_lowest :: "'s \<Rightarrow> status \<Rightarrow> light_block option"
  so_all :: "'s \<Rightarrow> status \<Rightarrow> light_block list"

definition get_non_failed :: "'s store_ops \<Rightarrow> 's \<Rightarrow> height \<Rightarrow> (light_block \<times> status) option" where
  "get_non_failed S s h =
     or_else (map_option (\<lambda>lb. (lb, Trusted)) (so_get S s h Trusted))
    (or_else (map_option (\<lambda>lb. (lb, Verified)) (so_get S s h Verified))
             (map_option (\<lambda>lb. (lb, Unverified)) (so_get S s h Unverified)))"

definition highest_trusted_or_verified :: "'s store_ops \<Rightarrow> 's \<Rightarrow> light_block option" where
  "highest_trusted_or_verified S s =
     option_select (so_highest S s Trusted) (so_highest S s Verified)
       (\<lambda>t v. cmp_max_by_key t v lb_height)"

definition highest_trusted_or_verified_before :: "'s store_ops \<Rightarrow> 's \<Rightarrow> height \<Rightarrow> light_block option" where
  "highest_trusted_or_verified_before S s h =
     option_select (so_highest_before S s h Trusted) (so_highest_before S s h Verified)
       (\<lambda>t v. cmp_max_by_key t v lb_height)"

definition lowest_trusted_or_verified :: "'s store_ops \<Rightarrow> 's \<Rightarrow> light_block option" where
  "lowest_trusted_or_verified S s =
     option_select (so_lowest S s Trusted) (so_lowest S s Verified)
       (\<lambda>t v. cmp_min_by_key t v lb_height)"

definition get_trusted_or_verified :: "'s store_ops \<Rightarrow> 's \<Rightarrow> height \<Rightarrow> light_block option" where
  "get_trusted_or_verified S s h = or_else (so_get S s h Trusted) (so_get S s h Verified)"

section \<open>The in-memory store\<close>

record store_entry =
  se_light_block :: light_block
  se_status :: status

type_synonym memory_store = "(height, store_entry) btree"

definition memory_new :: memory_store where
  "memory_new = []"

definition memory_get :: "memory_store \<Rightarrow> height \<Rightarrow> status \<Rightarrow> light_block option" where
  "memory_get m h st =
     (case map_of m h of
        Some e \<Rightarrow> if se_status e = st then Some (se_light_block e) else None
      | None \<Rightarrow> None)"

definition memory_insert :: "memory_store \<Rightarrow> light_block \<Rightarrow> status \<Rightarrow> memory_store" where
  "memory_insert m b st = bt_insert (lb_height b) \<lparr>se_light_block = b, se_status = st\<rparr> m"

definition memory_remove :: "memory_store \<Rightarrow> height \<Rightarrow> status \<Rightarrow> memory_store" where
  "memory_remove m h st =
     (case map_of m h of
        Some e \<Rightarrow> if se_status e = st then bt_remove h m else m
      | None \<Rightarrow> m)"

definition memory_update :: "memory_store \<Rightarrow> light_block \<Rightarrow> status \<Rightarrow> memory_store" where
  "memory_update m b st = memory_insert m b st"

definition memory_highest :: "memory_store \<Rightarrow> status \<Rightarrow> light_block option" where
  "memory_highest m st =
     map_option (\<lambda>(_, e). se_light_block e)
       (max_by_key fst (filter (\<lambda>(_, e). se_status e = st) m))"

definition memory_highest_before :: "memory_store \<Rightarrow> height \<Rightarrow> status \<Rightarrow> light_block option" where
  "memory_highest_before m h st =
     map_option (\<lambda>(_, e). se_light_block e)
       (max_by_key fst (filter (\<lambda>(k, _). k \<le> h) (filter (\<lambda>(_, e). se_status e = st) m)))"

definition memory_lowest :: "memory_store \<Rightarrow> status \<Rightarrow> light_block option" where
  "memory_lowest m st =
     map_option (\<lambda>(_, e). se_light_block e)
       (min_by_key fst (filter (\<lambda>(_, e). se_status e = st) m))"

definition memory_all :: "memory_store \<Rightarrow> status \<Rightarrow> light_block list" where
  "memory_all m st = map (\<lambda>(_, e). se_light_block e) (filter (\<lambda>(_, e). se_status e = st) m)"

definition memory_ops :: "memory_store store_ops" where
  "memory_ops = \<lparr>so_get = memory_get, so_update = memory_update, so_insert = memory_insert,
     so_remove = memory_remove, so_highest = memory_highest,
     so_highest_before = memory_highest_before, so_lowest = memory_lowest, so_all = memory_all\<rparr>"

definition memory_inv :: "memory_store \<Rightarrow> bool" where
  "memory_inv m \<longleftrightarrow> bt_inv m \<and> (\<forall>(h, e) \<in> set m. lb_height (se_light_block e) = h)"

section \<open>The contract\<close>

text \<open>
  The blocks a store holds, by height and status, and what it means to be the highest or the lowest
  of them.
\<close>

type_synonym store_view = "height \<Rightarrow> status \<Rightarrow> light_block option"

definition is_highest :: "(height \<Rightarrow> light_block option) \<Rightarrow> light_block option \<Rightarrow> bool" where
  "is_highest V r \<longleftrightarrow>
     (case r of
        None \<Rightarrow> \<forall>h. V h = None
      | Some b \<Rightarrow> V (lb_height b) = Some b \<and> (\<forall>h b'. V h = Some b' \<longrightarrow> h \<le> lb_height b))"

definition is_lowest :: "(height \<Rightarrow> light_block option) \<Rightarrow> light_block option \<Rightarrow> bool" where
  "is_lowest V r \<longleftrightarrow>
     (case r of
        None \<Rightarrow> \<forall>h. V h = None
      | Some b \<Rightarrow> V (lb_height b) = Some b \<and> (\<forall>h b'. V h = Some b' \<longrightarrow> lb_height b \<le> h))"

text \<open>The block at a height that is trusted or, failing that, verified.\<close>

definition tv_of :: "store_view \<Rightarrow> height \<Rightarrow> light_block option" where
  "tv_of V h = or_else (V h Trusted) (V h Verified)"

lemma tv_of_cases:
  assumes "tv_of V h = Some b"
  obtains "V h Trusted = Some b" | "V h Trusted = None" "V h Verified = Some b"
  using assms by (cases "V h Trusted") (auto simp: tv_of_def)

lemma tv_of_eq_None [simp]: "tv_of V h = None \<longleftrightarrow> V h Trusted = None \<and> V h Verified = None"
  by (cases "V h Trusted") (auto simp: tv_of_def)

locale light_store =
  fixes S :: "'s store_ops"
    and inv :: "'s \<Rightarrow> bool"
    and view :: "'s \<Rightarrow> store_view"
  assumes get_law: "inv s \<Longrightarrow> so_get S s h st = view s h st"
    and key_law: "inv s \<Longrightarrow> view s h st = Some b \<Longrightarrow> lb_height b = h"
    and insert_inv: "inv s \<Longrightarrow> inv (so_insert S s b st)"
    and insert_same: "inv s \<Longrightarrow> view (so_insert S s b st) (lb_height b) st = Some b"
    and insert_other: "inv s \<Longrightarrow> h \<noteq> lb_height b \<Longrightarrow> view (so_insert S s b st) h st' = view s h st'"
    and insert_status: "inv s \<Longrightarrow> st' \<noteq> st \<Longrightarrow>
      view (so_insert S s b st) (lb_height b) st' \<in> {None, view s (lb_height b) st'}"
    and update_inv: "inv s \<Longrightarrow> inv (so_update S s b st)"
    and update_law: "inv s \<Longrightarrow> view (so_update S s b st) h st' =
      (if h = lb_height b then if st' = st then Some b else None else view s h st')"
    and remove_inv: "inv s \<Longrightarrow> inv (so_remove S s h st)"
    and remove_law: "inv s \<Longrightarrow> view (so_remove S s h st) h' st' =
      (if h' = h \<and> st' = st then None else view s h' st')"
    and highest_law: "inv s \<Longrightarrow> is_highest (\<lambda>h. view s h st) (so_highest S s st)"
    and highest_before_law: "inv s \<Longrightarrow>
      is_highest (\<lambda>h. if h \<le> k then view s h st else None) (so_highest_before S s k st)"
    and lowest_law: "inv s \<Longrightarrow> is_lowest (\<lambda>h. view s h st) (so_lowest S s st)"
    and all_law: "inv s \<Longrightarrow> set (so_all S s st) = {b. \<exists>h. view s h st = Some b}"
begin

abbreviation tv :: "'s \<Rightarrow> height \<Rightarrow> light_block option" where
  "tv s \<equiv> tv_of (view s)"

lemma get_trusted_or_verified_eq: "inv s \<Longrightarrow> get_trusted_or_verified S s h = tv s h"
  by (simp add: get_trusted_or_verified_def tv_of_def get_law)

lemma tv_height: "inv s \<Longrightarrow> tv s h = Some b \<Longrightarrow> lb_height b = h"
  by (erule tv_of_cases) (auto simp: key_law)

lemma get_non_failed_Some:
  "inv s \<Longrightarrow> get_non_failed S s h = Some (b, st) \<Longrightarrow> view s h st = Some b \<and> st \<noteq> Failed \<and> lb_height b = h"
  by (cases "view s h Trusted"; cases "view s h Verified"; cases "view s h Unverified")
    (auto simp: get_non_failed_def get_law key_law)

lemma get_non_failed_None:
  "inv s \<Longrightarrow> get_non_failed S s h = None \<longleftrightarrow> (\<forall>st. st \<noteq> Failed \<longrightarrow> view s h st = None)"
  by (cases "view s h Trusted"; cases "view s h Verified"; cases "view s h Unverified")
    (auto simp: get_non_failed_def get_law intro: status.exhaust)

lemma update_tv:
  "inv s \<Longrightarrow> st \<in> {Trusted, Verified} \<Longrightarrow> tv (so_update S s b st) h = (if h = lb_height b then Some b else tv s h)"
  by (auto simp: tv_of_def update_law)

lemma insert_tv_other: "inv s \<Longrightarrow> h \<noteq> lb_height b \<Longrightarrow> tv (so_insert S s b st) h = tv s h"
  by (simp add: tv_of_def insert_other)

lemma select_highest:
  assumes "is_highest (\<lambda>h. if P h then view s h Trusted else None) t"
    and "is_highest (\<lambda>h. if P h then view s h Verified else None) v"
  shows "case option_select t v (\<lambda>t v. cmp_max_by_key t v lb_height) of
      None \<Rightarrow> \<forall>h. P h \<longrightarrow> tv s h = None
    | Some b \<Rightarrow> P (lb_height b) \<and> (view s (lb_height b) Trusted = Some b \<or> view s (lb_height b) Verified = Some b)
        \<and> (\<forall>h b'. P h \<longrightarrow> tv s h = Some b' \<longrightarrow> h \<le> lb_height b)"
proof -
  have bound: "h \<le> k" if "P h" "tv s h = Some b'" "\<And>b''. view s h Trusted = Some b'' \<Longrightarrow> h \<le> k"
      "\<And>b''. view s h Verified = Some b'' \<Longrightarrow> h \<le> k" for h b' k
    using that(2) by (cases rule: tv_of_cases) (auto intro: that(3,4))
  show ?thesis
  proof (cases t; cases v)
    fix a b assume tv: "t = Some a" "v = Some b"
    with assms have a: "P (lb_height a)" "view s (lb_height a) Trusted = Some a"
        "\<And>h b'. P h \<Longrightarrow> view s h Trusted = Some b' \<Longrightarrow> h \<le> lb_height a"
      and b: "P (lb_height b)" "view s (lb_height b) Verified = Some b"
        "\<And>h b'. P h \<Longrightarrow> view s h Verified = Some b' \<Longrightarrow> h \<le> lb_height b"
      by (auto simp: is_highest_def split: if_splits)
    define c where "c = (if lb_height b < lb_height a then a else b)"
    have "h \<le> lb_height c" if "P h" "tv s h = Some b'" for h b'
      using that by (rule bound) (use a(3) b(3) that(1) in \<open>force simp: c_def\<close>)+
    moreover have "P (lb_height c)" "view s (lb_height c) Trusted = Some c \<or> view s (lb_height c) Verified = Some c"
      using a(1,2) b(1,2) by (auto simp: c_def)
    ultimately show ?thesis using tv by (simp add: cmp_max_by_key_def flip: c_def)
  next
    fix a assume tv: "t = Some a" "v = None"
    have "h \<le> lb_height a" if "P h" "tv s h = Some b'" for h b'
      using that(2) assms that(1) tv by (cases rule: tv_of_cases) (auto simp: is_highest_def split: if_splits)
    with assms tv show ?thesis by (auto simp: is_highest_def split: if_splits)
  next
    fix b assume tv: "t = None" "v = Some b"
    have "h \<le> lb_height b" if "P h" "tv s h = Some b'" for h b'
      using that(2) assms that(1) tv by (cases rule: tv_of_cases) (auto simp: is_highest_def split: if_splits)
    with assms tv show ?thesis by (auto simp: is_highest_def split: if_splits)
  next
    assume "t = None" "v = None"
    with assms show ?thesis by (auto simp: is_highest_def split: if_splits)
  qed
qed

lemma highest_tv:
  assumes "inv s"
  shows "case highest_trusted_or_verified S s of
      None \<Rightarrow> \<forall>h. tv s h = None
    | Some b \<Rightarrow> (view s (lb_height b) Trusted = Some b \<or> view s (lb_height b) Verified = Some b)
        \<and> (\<forall>h b'. tv s h = Some b' \<longrightarrow> h \<le> lb_height b)"
  using select_highest [where P = "\<lambda>_. True" and t = "so_highest S s Trusted" and v = "so_highest S s Verified" and s = s]
    highest_law [OF assms]
  by (simp add: highest_trusted_or_verified_def cong: option.case_cong)

lemma highest_tv_before:
  assumes "inv s"
  shows "case highest_trusted_or_verified_before S s k of
      None \<Rightarrow> \<forall>h. h \<le> k \<longrightarrow> tv s h = None
    | Some b \<Rightarrow> lb_height b \<le> k \<and> (view s (lb_height b) Trusted = Some b \<or> view s (lb_height b) Verified = Some b)
        \<and> (\<forall>h b'. h \<le> k \<longrightarrow> tv s h = Some b' \<longrightarrow> h \<le> lb_height b)"
  using select_highest [where P = "\<lambda>h. h \<le> k" and t = "so_highest_before S s k Trusted"
      and v = "so_highest_before S s k Verified" and s = s] highest_before_law [OF assms]
  by (simp add: highest_trusted_or_verified_before_def)

lemma highest_tv_eq_None: "inv s \<Longrightarrow> highest_trusted_or_verified S s = None \<longleftrightarrow> (\<forall>h. tv s h = None)"
  using highest_tv [of s] by (cases "highest_trusted_or_verified S s") (auto split: option.splits)

end

section \<open>The in-memory store satisfies the contract\<close>

definition memory_view :: "memory_store \<Rightarrow> store_view" where
  "memory_view m h st =
     (case map_of m h of Some e \<Rightarrow> if se_status e = st then Some (se_light_block e) else None | None \<Rightarrow> None)"

lemma memory_view_Some:
  "memory_inv m \<Longrightarrow> memory_view m h st = Some b \<longleftrightarrow>
     (\<exists>e. (h, e) \<in> set m \<and> se_status e = st \<and> se_light_block e = b)"
  by (auto simp: memory_view_def memory_inv_def bt_in_iff_map_of split: option.splits)

lemma memory_extremes:
  assumes inv: "memory_inv m"
  shows "is_highest (\<lambda>h. if P h then memory_view m h st else None)
      (map_option (\<lambda>(_, e). se_light_block e) (max_by_key fst (filter (\<lambda>(k, _). P k) (filter (\<lambda>(_, e). se_status e = st) m))))"
    and "is_lowest (\<lambda>h. memory_view m h st)
      (map_option (\<lambda>(_, e). se_light_block e) (min_by_key fst (filter (\<lambda>(_, e). se_status e = st) m)))"
proof -
  let ?xs = "filter (\<lambda>(k, _). P k) (filter (\<lambda>(_, e). se_status e = st) m)"
  have mem: "(h, e) \<in> set ?xs \<longleftrightarrow> P h \<and> (h, e) \<in> set m \<and> se_status e = st" for h e by auto
  show "is_highest (\<lambda>h. if P h then memory_view m h st else None)
      (map_option (\<lambda>(_, e). se_light_block e) (max_by_key fst ?xs))"
  proof (cases "max_by_key fst ?xs")
    case None
    then have "\<not> ((h, e) \<in> set m \<and> P h \<and> se_status e = st)" for h e
      by (auto simp: filter_empty_conv)
    then have "memory_view m h st = None" if "P h" for h
      using that memory_view_Some [OF inv, of h st] by (metis not_None_eq)
    then show ?thesis unfolding None is_highest_def by simp
  next
    case (Some x)
    obtain h e where x: "x = (h, e)" by (cases x)
    have in_m: "(h, e) \<in> set m" "P h" "se_status e = st" and max: "\<And>k d. (k, d) \<in> set m \<Longrightarrow> P k \<Longrightarrow> se_status d = st \<Longrightarrow> k \<le> h"
      using max_by_key_SomeD [OF Some] by (auto simp: x)
    moreover have "lb_height (se_light_block e) = h" using inv in_m by (auto simp: memory_inv_def)
    ultimately show ?thesis
      using memory_view_Some [OF inv] unfolding Some x is_highest_def by (auto split: if_splits)
  qed
  let ?ys = "filter (\<lambda>(_, e). se_status e = st) m"
  show "is_lowest (\<lambda>h. memory_view m h st) (map_option (\<lambda>(_, e). se_light_block e) (min_by_key fst ?ys))"
  proof (cases "min_by_key fst ?ys")
    case None
    then have "\<not> ((h, e) \<in> set m \<and> se_status e = st)" for h e
      by (auto simp: filter_empty_conv)
    then have "memory_view m h st = None" for h
      using memory_view_Some [OF inv, of h st] by (metis not_None_eq)
    then show ?thesis by (simp add: None is_lowest_def)
  next
    case (Some x)
    obtain h e where x: "x = (h, e)" by (cases x)
    have in_m: "(h, e) \<in> set m" "se_status e = st" and min: "\<And>k d. (k, d) \<in> set m \<Longrightarrow> se_status d = st \<Longrightarrow> h \<le> k"
      using min_by_key_SomeD [OF Some] by (auto simp: x)
    moreover have "lb_height (se_light_block e) = h" using inv in_m by (auto simp: memory_inv_def)
    ultimately show ?thesis
      using memory_view_Some [OF inv] by (auto simp: Some x is_lowest_def)
  qed
qed

lemma memory_inv_insert: "memory_inv m \<Longrightarrow> memory_inv (memory_insert m b st)"
  by (auto simp: memory_inv_def memory_insert_def set_bt_insert)

lemma memory_inv_remove: "memory_inv m \<Longrightarrow> memory_inv (memory_remove m h st)"
  by (auto simp: memory_inv_def memory_remove_def bt_remove_def intro: bt_inv_remove [unfolded bt_remove_def]
      split: option.splits)

lemma memory_view_insert:
  "memory_view (memory_insert m b st) h st' =
     (if h = lb_height b then if st' = st then Some b else None else memory_view m h st')"
  by (simp add: memory_view_def memory_insert_def)

lemma memory_view_remove:
  "memory_view (memory_remove m h st) h' st' = (if h' = h \<and> st' = st then None else memory_view m h' st')"
  by (auto simp: memory_view_def memory_remove_def split: option.splits)

interpretation mem: light_store memory_ops memory_inv memory_view
proof unfold_locales
  fix m :: memory_store and h k :: height and st st' :: status and b :: light_block
  assume inv: "memory_inv m"
  show "memory_view m h st = Some b \<Longrightarrow> lb_height b = h"
    using inv by (auto simp: memory_view_Some memory_inv_def)
  show "is_highest (\<lambda>h. memory_view m h st) (so_highest memory_ops m st)"
    using memory_extremes(1) [OF inv, where P = "\<lambda>_. True"] by (simp add: memory_ops_def memory_highest_def)
  show "is_highest (\<lambda>h. if h \<le> k then memory_view m h st else None) (so_highest_before memory_ops m k st)"
    using memory_extremes(1) [OF inv, where P = "\<lambda>h. h \<le> k"] by (simp add: memory_ops_def memory_highest_before_def)
  show "is_lowest (\<lambda>h. memory_view m h st) (so_lowest memory_ops m st)"
    using memory_extremes(2) [OF inv] by (simp add: memory_ops_def memory_lowest_def)
  show "set (so_all memory_ops m st) = {b. \<exists>h. memory_view m h st = Some b}"
    using inv by (auto simp: memory_ops_def memory_all_def memory_view_Some)
qed (simp_all add: memory_ops_def memory_get_def memory_view_def [symmetric] memory_update_def memory_view_insert
    memory_view_remove memory_inv_insert memory_inv_remove)

end
