(* ===== verification/Scheduler.thy ===== *)
theory Scheduler
  imports Light_Store
begin

text \<open>
  \<open>light-client/src/components/scheduler.rs\<close>: the choice of the next height to verify. The
  attributes \<open>#[requires]\<close> and \<open>#[ensures]\<close> are assertions of the running program; one that does
  not hold is a \<open>Panic\<close>.
\<close>

section \<open>The scheduler\<close>

definition requires :: "bool \<Rightarrow> ('e, 'a) result \<Rightarrow> ('e, 'a) result" where
  "requires P r = (if P then r else Panic)"

definition ensures :: "('a \<Rightarrow> ('e, bool) result) \<Rightarrow> ('e, 'a) result \<Rightarrow> ('e, 'a) result" where
  "ensures Q r = and_then r (\<lambda>a. and_then (Q a) (\<lambda>ok. if ok then Ok a else Panic))"

definition valid_schedule :: "height \<Rightarrow> height \<Rightarrow> height \<Rightarrow> 's store_ops \<Rightarrow> 's \<Rightarrow> ('e, bool) result" where
  "valid_schedule scheduled target current S s =
     and_then (or_panic (map_option lb_height (highest_trusted_or_verified_before S s target))) (\<lambda>latest.
       Ok (if latest = current \<and> latest < target then current < scheduled \<and> scheduled \<le> target
           else if latest < current \<and> latest < target then latest < scheduled \<and> scheduled < current
           else if latest = target then scheduled = target
           else True))"

definition midpoint :: "height \<Rightarrow> height \<Rightarrow> ('e, height) result" where
  "midpoint low high =
     requires (low \<le> high) (ensures (\<lambda>ret. Ok (low \<le> ret \<and> ret \<le> high))
       (case height_try_from_u64 (low + (high + 1 - low) div 2) of Ok h \<Rightarrow> Ok h | _ \<Rightarrow> Panic))"

definition basic_bisecting_schedule :: "'s store_ops \<Rightarrow> 's \<Rightarrow> height \<Rightarrow> height \<Rightarrow> ('e, height) result" where
  "basic_bisecting_schedule S s current target =
     requires (highest_trusted_or_verified S s \<noteq> None)
      (ensures (\<lambda>ret. valid_schedule ret target current S s)
        (and_then (or_panic (map_option lb_height (highest_trusted_or_verified_before S s target)))
          (\<lambda>trusted. if trusted = current then Ok target else midpoint trusted current)))"

text \<open>The trait method, with the contract the trait puts around every scheduler.\<close>

definition schedule ::
  "('s store_ops \<Rightarrow> 's \<Rightarrow> height \<Rightarrow> height \<Rightarrow> ('e, height) result) \<Rightarrow>
   's store_ops \<Rightarrow> 's \<Rightarrow> height \<Rightarrow> height \<Rightarrow> ('e, height) result" where
  "schedule f S s current target =
     requires (highest_trusted_or_verified_before S s target \<noteq> None)
      (ensures (\<lambda>ret. valid_schedule ret target current S s) (f S s current target))"

section \<open>The midpoint\<close>

lemma requires_eq [result_simps]:
  "requires P r = Ok a \<longleftrightarrow> P \<and> r = Ok a" "requires P r = Err e \<longleftrightarrow> P \<and> r = Err e"
  "requires P r = Panic \<longleftrightarrow> \<not> P \<or> r = Panic"
  by (auto simp: requires_def)

lemma ensures_eq_Ok [result_simps]: "ensures Q r = Ok a \<longleftrightarrow> r = Ok a \<and> Q a = Ok True"
  by (auto simp: ensures_def result_simps split: if_splits)

lemma valid_schedule_eq:
  "highest_trusted_or_verified_before S s target = Some t \<Longrightarrow>
   valid_schedule h target current S s =
     Ok (if lb_height t = current \<and> lb_height t < target then current < h \<and> h \<le> target
         else if lb_height t < current \<and> lb_height t < target then lb_height t < h \<and> h < current
         else if lb_height t = target then h = target else True)"
  by (simp add: valid_schedule_def)

text \<open>
  The sum of two heights cannot wrap. Rounding up, the midpoint is above \<open>low\<close> as soon as the
  two differ, and below \<open>high\<close> as soon as they differ by two.
\<close>

lemma unat_midpoint:
  fixes low high :: height
  assumes "fits_i64 high" "low \<le> high"
  shows "unat (low + (high + 1 - low) div 2) = (unat low + unat high + 1) div 2"
proof -
  have bounds: "unat low \<le> unat high" "unat high < 2 ^ 63"
    using assms by (simp_all add: word_le_nat_alt fits_i64_unat)
  then have h1: "unat (high + 1) = unat high + 1" by (subst unat_add_no_overflow) simp_all
  then have d: "unat ((high + 1 - low) div 2) = (unat high + 1 - unat low) div 2"
    using bounds by (simp add: unat_div unat_sub word_le_nat_alt)
  have "unat low + (unat high + 1 - unat low) div 2 \<le> unat high + 1" using bounds by linarith
  then have "unat low + (unat high + 1 - unat low) div 2 < 2 ^ 64" using bounds(2) by simp
  then have "unat (low + (high + 1 - low) div 2) = unat low + (unat high + 1 - unat low) div 2"
    using d by (subst unat_add_no_overflow) simp_all
  then show ?thesis using bounds by linarith
qed

lemma midpoint_Ok:
  assumes "fits_i64 high" "low \<le> high"
  shows "midpoint low high = Ok (low + (high + 1 - low) div 2)"
proof -
  let ?m = "low + (high + 1 - low) div 2"
  have m: "unat ?m = (unat low + unat high + 1) div 2" by (rule unat_midpoint [OF assms])
  have "unat low \<le> unat high" "unat high < 2 ^ 63" using assms by (simp_all add: word_le_nat_alt fits_i64_unat)
  then have "unat low \<le> unat ?m" "unat ?m \<le> unat high" unfolding m by linarith+
  then have "low \<le> ?m" "?m \<le> high" "fits_i64 ?m"
    using \<open>unat high < 2 ^ 63\<close> by (simp_all add: word_le_nat_alt fits_i64_unat)
  then show ?thesis using assms(2)
    by (simp add: midpoint_def height_try_from_u64_def requires_def ensures_def)
qed

lemma midpoint_neq_Err [simp]: "midpoint low high \<noteq> Err e"
  by (auto simp: midpoint_def requires_def ensures_def result_simps split: result.splits if_splits)

lemma schedule_neq_Err [simp]: "schedule basic_bisecting_schedule S s current target \<noteq> Err e"
  by (auto simp: schedule_def basic_bisecting_schedule_def requires_def ensures_def valid_schedule_def result_simps
      split: if_splits)

section \<open>The contract\<close>

text \<open>
  What a height chosen by the scheduler satisfies when the search is not over: above the last
  trusted block, below the block just tried, or past it up to the target when the trusted block
  is the one just tried.
\<close>

lemma schedule_Ok:
  assumes "schedule f S s current target = Ok h" "highest_trusted_or_verified_before S s target = Some t"
    and "lb_height t < target" "lb_height t \<le> current"
  shows "lb_height t < h" "lb_height t < current \<Longrightarrow> h < current" "current \<le> target \<Longrightarrow> h \<le> target"
  using assms by (auto simp: schedule_def result_simps valid_schedule_eq split: if_splits)

text \<open>When the next heights are free of panics: every case except a block one above the trusted one.\<close>

lemma schedule_complete:
  assumes "highest_trusted_or_verified S s \<noteq> None" "highest_trusted_or_verified_before S s target = Some t"
    and "lb_height t \<le> current" "current \<le> target" "fits_i64 target"
    and "current \<noteq> lb_height t + 1"
  shows "\<exists>h. schedule basic_bisecting_schedule S s current target = Ok h"
proof (cases "lb_height t = current")
  case True
  with assms show ?thesis
    by (auto simp: schedule_def basic_bisecting_schedule_def requires_def ensures_def valid_schedule_eq)
next
  case False
  let ?t = "lb_height t" and ?m = "lb_height t + (current + 1 - lb_height t) div 2"
  have fit: "fits_i64 current" using assms(4,5) by (simp add: fits_i64_unat word_le_nat_alt)
  have n: "unat ?t < unat current" "unat current < 2 ^ 63"
    using False assms(3) fit by (auto simp: word_le_nat_alt word_unat_eq_iff fits_i64_unat)
  have "unat current \<noteq> unat ?t + 1"
    using assms(6) n unat_add_no_overflow [of ?t 1] by (auto simp: word_unat_eq_iff)
  moreover have "unat ?m = (unat ?t + unat current + 1) div 2" by (rule unat_midpoint [OF fit assms(3)])
  ultimately have "unat ?t < unat ?m" "unat ?m < unat current" using n by linarith+
  then have "?t < ?m" "?m < current" by (simp_all add: word_less_nat_alt)
  moreover have "?t < current" using n by (simp add: word_less_nat_alt)
  ultimately show ?thesis
    using assms False by (auto simp: schedule_def basic_bisecting_schedule_def requires_def ensures_def
        valid_schedule_eq midpoint_Ok [OF fit])
qed

text \<open>The excluded case is a panic: the midpoint of adjacent heights is the upper one.\<close>

lemma schedule_adjacent_Panic:
  assumes "highest_trusted_or_verified_before S s target = Some t"
    and "lb_height t < current" "current = lb_height t + 1" "lb_height t < target" "fits_i64 current"
  shows "schedule basic_bisecting_schedule S s current target = Panic"
proof -
  have le: "lb_height t \<le> current" using assms(2) by simp
  have m: "midpoint (lb_height t) current = Ok current"
    unfolding midpoint_Ok [OF assms(5) le] unfolding assms(3) by simp
  show ?thesis
    using assms(2,4) less_imp_neq [OF assms(2)] by (simp add: schedule_def basic_bisecting_schedule_def requires_def ensures_def
        valid_schedule_eq [OF assms(1)] assms(1) m)
qed

end
