(* ===== verification/Voting_Power.thy ===== *)
theory Voting_Power
  imports Verifier_Types
begin

text \<open>
  \<open>light-client-verifier/src/operations/voting_power.rs\<close>: the tally of the voting power behind a
  commit. The code sorts the commit's votes by validator address, looks each validator of the set
  up by binary search, checks a signature at most once, and stops when the threshold is met. The
  reference is \<open>signed_power\<close>: the sum of the powers of the validators of the set whose vote is in
  the commit with a signature that verifies.
\<close>

section \<open>Tallies\<close>

definition tally_new :: "u64 \<Rightarrow> trust_threshold \<Rightarrow> tally" where
  "tally_new tot t = \<lparr>tly_total = tot, tly_tallied = 0, tly_trust_threshold = t\<rparr>"

definition tally_add :: "tally \<Rightarrow> u64 \<Rightarrow> tally" where
  "tally_add t p = t\<lparr>tly_tallied := tly_tallied t + p\<rparr>"

definition tally_check :: "tally \<Rightarrow> (tally, unit) result" where
  "tally_check t =
     (if is_enough_power (tly_trust_threshold t) (tly_tallied t) (tly_total t) then Ok () else Err t)"

definition total_power_of :: "val_set \<Rightarrow> u64" where
  "total_power_of s = foldl (\<lambda>tot v. tot + info_power v) 0 (vs_validators s)"

section \<open>The votes of a commit\<close>

record non_absent_commit_vote =
  nac_signed_vote :: signed_vote
  nac_verified :: bool

definition nac_validator_id :: "non_absent_commit_vote \<Rightarrow> account_id" where
  "nac_validator_id v = sgv_validator_address (nac_signed_vote v)"

definition commit_vote :: "account_id \<Rightarrow> time \<Rightarrow> signature option \<Rightarrow> validator_index \<Rightarrow> commit \<Rightarrow> vote" where
  "commit_vote address timestamp sig index c =
     \<lparr>vote_vote_type = Precommit, vote_height = cmt_height c, vote_round = cmt_round c,
      vote_block_id = Some (cmt_block_id c), vote_timestamp = Some timestamp,
      vote_validator_address = address, vote_validator_index = index, vote_signature = sig,
      vote_extension = [], vote_extension_signature = None\<rparr>"

fun non_absent_commit_vote_new ::
  "commit_sig \<Rightarrow> validator_index \<Rightarrow> commit \<Rightarrow> chain_id \<Rightarrow> non_absent_commit_vote ve_result option" where
  "non_absent_commit_vote_new BlockIdFlagAbsent index c chain = None"
| "non_absent_commit_vote_new (BlockIdFlagNil a t s) index c chain = None"
| "non_absent_commit_vote_new (BlockIdFlagCommit address timestamp sig) index c chain =
     Some (and_then
       (ok_or VE_MissingSignature (signed_vote_from_vote (commit_vote address timestamp sig index c) chain))
       (\<lambda>signed_vote. Ok \<lparr>nac_signed_vote = signed_vote, nac_verified = False\<rparr>))"

record non_absent_commit_votes =
  nacs_votes :: "non_absent_commit_vote list"
  nacs_sign_bytes :: bytes

text \<open>
  The iterator of \<open>NonAbsentCommitVotes::new\<close>: \<open>flat_map\<close> drops the votes that are absent or for
  nil, and \<open>collect\<close> stops at the first error. \<open>unwrap\<close> on the index panics.
\<close>

fun collect_votes ::
  "commit \<Rightarrow> chain_id \<Rightarrow> nat \<Rightarrow> commit_sig list \<Rightarrow> non_absent_commit_vote list ve_result" where
  "collect_votes c chain idx [] = Ok []"
| "collect_votes c chain idx (sig # sigs) =
     (case validator_index_try_from_usize idx of
        Ok index \<Rightarrow>
          (case non_absent_commit_vote_new sig index c chain of
             None \<Rightarrow> collect_votes c chain (Suc idx) sigs
           | Some r \<Rightarrow> and_then r
               (\<lambda>v. and_then (collect_votes c chain (Suc idx) sigs) (\<lambda>vs. Ok (v # vs))))
      | _ \<Rightarrow> Panic)"

definition non_absent_commit_votes_new :: "signed_header \<Rightarrow> non_absent_commit_votes ve_result" where
  "non_absent_commit_votes_new sh =
     and_then
       (collect_votes (sh_commit sh) (hdr_chain_id (sh_header sh)) 0 (cmt_signatures (sh_commit sh)))
       (\<lambda>vs.
          let votes = sort_key nac_validator_id vs in
          case find_adjacent (\<lambda>a b. nac_validator_id a = nac_validator_id b) votes of
            Some (a, b) \<Rightarrow> Err (VE_DuplicateValidator (nac_validator_id a))
          | None \<Rightarrow> Ok \<lparr>nacs_votes = votes, nacs_sign_bytes = []\<rparr>)"

text \<open>
  A vote that carries the flag \<open>verified\<close> is accepted for the given validator without looking at
  its key.
\<close>

definition has_voted ::
  "externals \<Rightarrow> non_absent_commit_votes \<Rightarrow> info \<Rightarrow> (bool \<times> non_absent_commit_votes) ve_result" where
  "has_voted X votes validator =
     (case binary_search_by_key nac_validator_id (nacs_votes votes) (info_address validator) of
        None \<Rightarrow> Ok (False, votes)
      | Some idx \<Rightarrow>
          let vote = nacs_votes votes ! idx;
              mark = (\<lambda>vs. vs\<lparr>nacs_votes := (nacs_votes vs)[idx := vote\<lparr>nac_verified := True\<rparr>]\<rparr>) in
          if \<not> nac_verified vote then
            (let sb = sign_bytes X (nac_signed_vote vote);
                 votes' = votes\<lparr>nacs_sign_bytes := sb\<rparr> in
             case info_verify_signature X validator sb (sgv_signature (nac_signed_vote vote)) of
               Ok _ \<Rightarrow> Ok (True, mark votes')
             | Err _ \<Rightarrow> Err (VE_InvalidSignature (sgv_signature (nac_signed_vote vote)) validator sb)
             | Panic \<Rightarrow> Panic)
          else Ok (True, mark votes))"

section \<open>The calculator\<close>

fun tally_validators ::
  "externals \<Rightarrow> non_absent_commit_votes \<Rightarrow> info list \<Rightarrow> tally \<Rightarrow> (tally \<times> non_absent_commit_votes) ve_result" where
  "tally_validators X votes [] p = Ok (p, votes)"
| "tally_validators X votes (validator # vs) p =
     and_then (has_voted X votes validator)
       (\<lambda>(voted, votes').
          if voted then
            (let p' = tally_add p (info_power validator) in
             if is_ok (tally_check p') then Ok (p', votes')
             else tally_validators X votes' vs p')
          else tally_validators X votes' vs p)"

definition voting_power_in_impl ::
  "externals \<Rightarrow> non_absent_commit_votes \<Rightarrow> val_set \<Rightarrow> trust_threshold \<Rightarrow> u64
     \<Rightarrow> (tally \<times> non_absent_commit_votes) ve_result" where
  "voting_power_in_impl X votes s t total_voting_power =
     tally_validators X votes (vs_validators s) (tally_new total_voting_power t)"

definition voting_power_in :: "externals \<Rightarrow> signed_header \<Rightarrow> val_set \<Rightarrow> trust_threshold \<Rightarrow> tally ve_result" where
  "voting_power_in X sh s t =
     and_then (non_absent_commit_votes_new sh)
       (\<lambda>votes. and_then (voting_power_in_impl X votes s t (total_power_of s))
       (\<lambda>(power, _). Ok power))"

definition voting_power_in_sets ::
  "externals \<Rightarrow> signed_header \<Rightarrow> val_set \<times> trust_threshold \<Rightarrow> val_set \<times> trust_threshold
     \<Rightarrow> (tally \<times> tally) ve_result" where
  "voting_power_in_sets X sh first_set second_set =
     and_then (non_absent_commit_votes_new sh)
       (\<lambda>votes. and_then
          (voting_power_in_impl X votes (fst first_set) (snd first_set) (total_power_of (fst first_set)))
       (\<lambda>(first_tally, votes1). and_then
          (voting_power_in_impl X votes1 (fst second_set) (snd second_set) (total_power_of (fst second_set)))
       (\<lambda>(second_tally, _). Ok (first_tally, second_tally))))"

definition check_enough_trust_and_signers ::
  "externals \<Rightarrow> signed_header \<Rightarrow> val_set \<Rightarrow> trust_threshold \<Rightarrow> val_set \<Rightarrow> unit ve_result" where
  "check_enough_trust_and_signers X sh trusted_validators t untrusted_validators =
     and_then (voting_power_in_sets X sh (trusted_validators, t) (untrusted_validators, two_thirds))
       (\<lambda>(trusted_power, untrusted_power).
          and_then (map_err VE_NotEnoughTrust (tally_check trusted_power))
       (\<lambda>_. map_err VE_InsufficientSignersOverlap (tally_check untrusted_power)))"

definition check_signers_overlap :: "externals \<Rightarrow> signed_header \<Rightarrow> val_set \<Rightarrow> unit ve_result" where
  "check_signers_overlap X sh untrusted_validators =
     and_then (voting_power_in X sh untrusted_validators two_thirds)
       (\<lambda>t. map_err VE_InsufficientSignersOverlap (tally_check t))"

section \<open>The reference tally\<close>

text \<open>The bytes a precommit for the commit's block with the given timestamp signs.\<close>

definition precommit_bytes :: "externals \<Rightarrow> signed_header \<Rightarrow> time \<Rightarrow> bytes" where
  "precommit_bytes X sh ts =
     x_enc_canonical_vote_delimited X (canonical_vote_into_raw
       \<lparr>cv_vote_type = Precommit, cv_height = cmt_height (sh_commit sh), cv_round = cmt_round (sh_commit sh),
        cv_block_id = Some (cmt_block_id (sh_commit sh)), cv_timestamp = Some ts,
        cv_chain_id = hdr_chain_id (sh_header sh)\<rparr>)"

definition signed_by :: "externals \<Rightarrow> signed_header \<Rightarrow> account_id \<Rightarrow> public_key \<Rightarrow> bool" where
  "signed_by X sh a k \<longleftrightarrow>
     (\<exists>ts s. BlockIdFlagCommit a ts (Some s) \<in> set (cmt_signatures (sh_commit sh))
        \<and> signature_verify X k (precommit_bytes X sh ts) s = Ok ())"

definition signed_power :: "externals \<Rightarrow> signed_header \<Rightarrow> val_set \<Rightarrow> nat" where
  "signed_power X sh s =
     powers (filter (\<lambda>v. signed_by X sh (info_address v) (info_pub_key v)) (vs_validators s))"

text \<open>Every address belongs to one key in the given validators.\<close>

definition keys_by_address :: "info list \<Rightarrow> bool" where
  "keys_by_address vs \<longleftrightarrow>
     (\<forall>v \<in> set vs. \<forall>w \<in> set vs. info_address v = info_address w \<longrightarrow> info_pub_key v = info_pub_key w)"

section \<open>Totals\<close>

lemma powers_simps [simp]: "powers [] = 0" "powers (v # vs) = unat (info_power v) + powers vs"
  "powers (vs @ ws) = powers vs + powers ws"
  by (simp_all add: powers_def)

lemma powers_filter_le: "powers (filter P vs) \<le> powers vs"
  by (induction vs) auto

lemma unat_foldl_add:
  "unat a + powers vs < 2 ^ 64 \<Longrightarrow> unat (foldl (\<lambda>tot v. tot + info_power v) a vs) = unat a + powers vs"
proof (induction vs arbitrary: a)
  case (Cons v vs)
  then have "unat (a + info_power v) = unat a + unat (info_power v)"
    by (simp add: unat_add_no_overflow)
  with Cons show ?case by simp
qed simp

lemma unat_total_power_of: "set_inv s \<Longrightarrow> unat (total_power_of s) = powers (vs_validators s)"
  using set_invD(1,2) [of s] unat_foldl_add [of 0 "vs_validators s"]
  by (simp add: total_power_of_def)

lemma total_power_of_eq: "set_inv s \<Longrightarrow> total_power_of s = vs_total_voting_power s"
  using unat_total_power_of [of s] set_invD(1) [of s] by (simp add: word_unat_eq_iff)

lemma tally_simps [simp]:
  "tly_total (tally_new n t) = n" "tly_tallied (tally_new n t) = 0" "tly_trust_threshold (tally_new n t) = t"
  "tly_total (tally_add p k) = tly_total p" "tly_tallied (tally_add p k) = tly_tallied p + k"
  "tly_trust_threshold (tally_add p k) = tly_trust_threshold p"
  by (simp_all add: tally_new_def tally_add_def)

lemma is_ok_tally_check:
  "is_ok (tally_check t) \<longleftrightarrow> is_enough_power (tly_trust_threshold t) (tly_tallied t) (tly_total t)"
  by (simp add: tally_check_def)

section \<open>The votes\<close>

definition canonical_precommit :: "signed_header \<Rightarrow> time \<Rightarrow> canonical_vote" where
  "canonical_precommit sh ts =
     \<lparr>cv_vote_type = Precommit, cv_height = cmt_height (sh_commit sh), cv_round = cmt_round (sh_commit sh),
      cv_block_id = Some (cmt_block_id (sh_commit sh)), cv_timestamp = Some ts,
      cv_chain_id = hdr_chain_id (sh_header sh)\<rparr>"

text \<open>A vote of the collection stems from an entry of the commit, and conversely.\<close>

definition vote_from :: "signed_header \<Rightarrow> commit_sig \<Rightarrow> non_absent_commit_vote \<Rightarrow> bool" where
  "vote_from sh cs v \<longleftrightarrow>
     (\<exists>ts. cs = BlockIdFlagCommit (nac_validator_id v) ts (Some (sgv_signature (nac_signed_vote v)))
        \<and> sgv_vote (nac_signed_vote v) = canonical_precommit sh ts)"

definition votes_of :: "signed_header \<Rightarrow> commit_sig list \<Rightarrow> non_absent_commit_vote list \<Rightarrow> bool" where
  "votes_of sh sigs vs \<longleftrightarrow>
     (\<forall>v \<in> set vs. \<exists>cs \<in> set sigs. vote_from sh cs v)
     \<and> (\<forall>cs \<in> set sigs. cs_is_commit cs \<longrightarrow> (\<exists>v \<in> set vs. vote_from sh cs v))"

lemma new_vote:
  "non_absent_commit_vote_new cs i (sh_commit sh) (hdr_chain_id (sh_header sh)) = Some (Ok v) \<Longrightarrow>
     vote_from sh cs v \<and> \<not> nac_verified v"
  by (cases cs)
    (auto simp: result_simps vote_from_def nac_validator_id_def signed_vote_from_vote_def signed_vote_new_def
      commit_vote_def canonical_vote_new_def canonical_precommit_def)

lemma new_vote_None: "non_absent_commit_vote_new cs i c chain = None \<longleftrightarrow> \<not> cs_is_commit cs"
  by (cases cs) simp_all

lemma collect_votes_of:
  "collect_votes (sh_commit sh) (hdr_chain_id (sh_header sh)) i sigs = Ok vs \<Longrightarrow>
     votes_of sh sigs vs \<and> (\<forall>v \<in> set vs. \<not> nac_verified v)"
proof (induction sigs arbitrary: i vs)
  case Nil
  then show ?case by (simp add: votes_of_def)
next
  case (Cons cs sigs)
  show ?case
  proof (cases "non_absent_commit_vote_new cs (of_nat i) (sh_commit sh) (hdr_chain_id (sh_header sh))")
    case None
    with Cons.prems have "collect_votes (sh_commit sh) (hdr_chain_id (sh_header sh)) (Suc i) sigs = Ok vs"
      by (auto simp: validator_index_try_from_usize_Ok_iff split: result.splits)
    with Cons.IH None show ?thesis by (auto simp: votes_of_def new_vote_None)
  next
    case (Some r)
    with Cons.prems obtain v vs' where "r = Ok v" "vs = v # vs'"
        "collect_votes (sh_commit sh) (hdr_chain_id (sh_header sh)) (Suc i) sigs = Ok vs'"
      by (auto simp: validator_index_try_from_usize_Ok_iff result_simps split: result.splits)
    moreover from this Some have "vote_from sh cs v \<and> \<not> nac_verified v" by (intro new_vote) simp
    ultimately show ?thesis using Cons.IH [of "Suc i" vs'] by (auto simp: votes_of_def)
  qed
qed

definition votes_inv :: "signed_header \<Rightarrow> non_absent_commit_votes \<Rightarrow> bool" where
  "votes_inv sh votes \<longleftrightarrow>
     sorted (map nac_validator_id (nacs_votes votes)) \<and> distinct (map nac_validator_id (nacs_votes votes))
     \<and> votes_of sh (cmt_signatures (sh_commit sh)) (nacs_votes votes)"

text \<open>A flag is set only for a signature that verifies under the key the address stands for.\<close>

definition flags_ok ::
  "externals \<Rightarrow> (account_id \<times> public_key) set \<Rightarrow> non_absent_commit_votes \<Rightarrow> bool" where
  "flags_ok X K votes \<longleftrightarrow>
     (\<forall>v \<in> set (nacs_votes votes). nac_verified v \<longrightarrow>
        (\<exists>k. (nac_validator_id v, k) \<in> K \<and>
             signature_verify X k (sign_bytes X (nac_signed_vote v)) (sgv_signature (nac_signed_vote v)) = Ok ()))"

lemma votes_new_inv:
  assumes "non_absent_commit_votes_new sh = Ok votes"
  shows "votes_inv sh votes" "flags_ok X K votes"
proof -
  from assms obtain vs where vs: "collect_votes (sh_commit sh) (hdr_chain_id (sh_header sh)) 0
        (cmt_signatures (sh_commit sh)) = Ok vs"
      and r: "(case find_adjacent (\<lambda>a b. nac_validator_id a = nac_validator_id b) (sort_key nac_validator_id vs) of
          Some (a, b) \<Rightarrow> Err (VE_DuplicateValidator (nac_validator_id a))
        | None \<Rightarrow> Ok \<lparr>nacs_votes = sort_key nac_validator_id vs, nacs_sign_bytes = []\<rparr>) = Ok votes"
    unfolding non_absent_commit_votes_new_def Let_def by (auto simp: and_then_eq_Ok)
  from r have none: "find_adjacent (\<lambda>a b. nac_validator_id a = nac_validator_id b) (sort_key nac_validator_id vs) = None"
      and votes: "nacs_votes votes = sort_key nac_validator_id vs"
    by (auto split: option.splits)
  have "distinct (map nac_validator_id (sort_key nac_validator_id vs))"
    using none by (intro find_adjacent_None_distinct) simp_all
  then show "votes_inv sh votes"
    using collect_votes_of [OF vs] by (simp add: votes_inv_def votes votes_of_def)
  show "flags_ok X K votes"
    using collect_votes_of [OF vs] by (simp add: flags_ok_def votes)
qed

lemma sign_bytes_vote_from:
  "vote_from sh cs v \<Longrightarrow> cs = BlockIdFlagCommit a ts s \<Longrightarrow>
     sign_bytes X (nac_signed_vote v) = precommit_bytes X sh ts"
  by (auto simp: vote_from_def sign_bytes_def precommit_bytes_def canonical_precommit_def)

lemma signed_by_iff_vote:
  assumes "votes_inv sh votes" "v \<in> set (nacs_votes votes)" "nac_validator_id v = a"
  shows "signed_by X sh a k \<longleftrightarrow>
    signature_verify X k (sign_bytes X (nac_signed_vote v)) (sgv_signature (nac_signed_vote v)) = Ok ()"
proof
  assume "signed_by X sh a k"
  then obtain ts s where cs: "BlockIdFlagCommit a ts (Some s) \<in> set (cmt_signatures (sh_commit sh))"
      and sig: "signature_verify X k (precommit_bytes X sh ts) s = Ok ()"
    by (auto simp: signed_by_def)
  from cs assms(1) obtain w where w: "w \<in> set (nacs_votes votes)" "vote_from sh (BlockIdFlagCommit a ts (Some s)) w"
    by (fastforce simp: votes_inv_def votes_of_def)
  then have "w = v"
    using assms by (auto simp: votes_inv_def distinct_map vote_from_def dest: inj_onD)
  with w sig show "signature_verify X k (sign_bytes X (nac_signed_vote v)) (sgv_signature (nac_signed_vote v)) = Ok ()"
    using sign_bytes_vote_from [OF w(2) refl] by (auto simp: vote_from_def)
next
  assume sig: "signature_verify X k (sign_bytes X (nac_signed_vote v)) (sgv_signature (nac_signed_vote v)) = Ok ()"
  from assms obtain cs where "cs \<in> set (cmt_signatures (sh_commit sh))" "vote_from sh cs v"
    by (auto simp: votes_inv_def votes_of_def)
  moreover from this(2) obtain ts where "cs = BlockIdFlagCommit a ts (Some (sgv_signature (nac_signed_vote v)))"
    using assms(3) by (auto simp: vote_from_def)
  ultimately show "signed_by X sh a k"
    using sig sign_bytes_vote_from by (auto simp: signed_by_def)
qed

lemma signed_by_has_vote:
  assumes "votes_inv sh votes" "signed_by X sh a k"
  shows "a \<in> nac_validator_id ` set (nacs_votes votes)"
proof -
  obtain ts s where "BlockIdFlagCommit a ts (Some s) \<in> set (cmt_signatures (sh_commit sh))"
    using assms(2) by (auto simp: signed_by_def)
  then obtain w where "w \<in> set (nacs_votes votes)" "vote_from sh (BlockIdFlagCommit a ts (Some s)) w"
    using assms(1) by (fastforce simp: votes_inv_def votes_of_def)
  then show ?thesis by (auto simp: vote_from_def)
qed

lemma nac_validator_id_mark [simp]: "nac_validator_id (v\<lparr>nac_verified := b\<rparr>) = nac_validator_id v"
  by (simp add: nac_validator_id_def)

lemma vote_from_mark [simp]: "vote_from sh cs (v\<lparr>nac_verified := b\<rparr>) = vote_from sh cs v"
  by (simp add: vote_from_def)

text \<open>Setting a flag changes neither the order nor the contents of the votes.\<close>

lemma votes_inv_mark:
  assumes "votes_inv sh votes" "i < length (nacs_votes votes)"
    and "nacs_votes votes' = (nacs_votes votes)[i := (nacs_votes votes ! i)\<lparr>nac_verified := True\<rparr>]"
  shows "votes_inv sh votes'"
proof -
  let ?v = "nacs_votes votes ! i"
  have ids: "map nac_validator_id (nacs_votes votes') = map nac_validator_id (nacs_votes votes)"
    using assms(2,3) by (simp add: map_update list_update_same_conv)
  have "votes_of sh (cmt_signatures (sh_commit sh)) (nacs_votes votes')"
    unfolding votes_of_def
  proof (intro conjI ballI impI)
    fix v assume "v \<in> set (nacs_votes votes')"
    then have "v \<in> set (nacs_votes votes) \<or> v = ?v\<lparr>nac_verified := True\<rparr>"
      using assms(3) set_update_subset_insert by fastforce
    then show "\<exists>cs\<in>set (cmt_signatures (sh_commit sh)). vote_from sh cs v"
      using assms(1,2) by (auto simp: votes_inv_def votes_of_def)
  next
    fix cs assume "cs \<in> set (cmt_signatures (sh_commit sh))" "cs_is_commit cs"
    then obtain w where w: "w \<in> set (nacs_votes votes)" "vote_from sh cs w"
      using assms(1) by (auto simp: votes_inv_def votes_of_def)
    then obtain j where j: "j < length (nacs_votes votes)" "w = nacs_votes votes ! j"
      by (auto simp: in_set_conv_nth)
    then have "vote_from sh cs (nacs_votes votes' ! j)"
      using w assms(2,3) by (auto simp: nth_list_update)
    moreover have "nacs_votes votes' ! j \<in> set (nacs_votes votes')"
      using j assms(3) by (intro nth_mem) simp
    ultimately show "\<exists>v\<in>set (nacs_votes votes'). vote_from sh cs v" by blast
  qed
  with ids assms(1) show ?thesis by (simp add: votes_inv_def)
qed

section \<open>One lookup\<close>

lemma info_verify_signature_cases:
  "info_verify_signature X v b s = Ok () \<longleftrightarrow> signature_verify X (info_pub_key v) b s = Ok ()"
  "info_verify_signature X v b s \<noteq> Panic"
  by (cases "info_pub_key v"; simp add: info_verify_signature_def)+

lemma has_voted_cases:
  assumes inv: "votes_inv sh votes" and flags: "flags_ok X K votes"
    and K: "single_valued K" "(info_address v, info_pub_key v) \<in> K"
  shows "(\<exists>votes'. has_voted X votes v = Ok (signed_by X sh (info_address v) (info_pub_key v), votes')
            \<and> votes_inv sh votes' \<and> flags_ok X K votes')
       \<or> (\<exists>s b. has_voted X votes v = Err (VE_InvalidSignature s v b)
            \<and> \<not> signed_by X sh (info_address v) (info_pub_key v)
            \<and> info_address v \<in> nac_validator_id ` set (nacs_votes votes))"
proof (cases "binary_search_by_key nac_validator_id (nacs_votes votes) (info_address v)")
  case None
  then have "info_address v \<notin> nac_validator_id ` set (nacs_votes votes)"
    using inv by (intro binary_search_by_key_NoneD) (simp_all add: votes_inv_def)
  then have "\<not> signed_by X sh (info_address v) (info_pub_key v)"
    using signed_by_has_vote [OF inv] by blast
  with None inv flags show ?thesis by (simp add: has_voted_def)
next
  case (Some i)
  define vote where "vote = nacs_votes votes ! i"
  have i: "i < length (nacs_votes votes)" and id: "nac_validator_id vote = info_address v"
    using binary_search_by_key_SomeD [OF Some] by (simp_all add: vote_def)
  have mem: "vote \<in> set (nacs_votes votes)" using i by (simp add: vote_def)
  let ?ok = "signature_verify X (info_pub_key v) (sign_bytes X (nac_signed_vote vote))
      (sgv_signature (nac_signed_vote vote)) = Ok ()"
  have signed: "signed_by X sh (info_address v) (info_pub_key v) \<longleftrightarrow> ?ok"
    using signed_by_iff_vote [OF inv mem id] .
  have mark: "votes_inv sh votes' \<and> flags_ok X K votes'"
    if "nacs_votes votes' = (nacs_votes votes)[i := vote\<lparr>nac_verified := True\<rparr>]" ?ok for votes'
  proof
    show "votes_inv sh votes'" using votes_inv_mark [OF inv i] that(1) by (simp add: vote_def)
    have "w \<in> set (nacs_votes votes) \<or> w = vote\<lparr>nac_verified := True\<rparr>" if "w \<in> set (nacs_votes votes')" for w
      using that \<open>nacs_votes votes' = _\<close> set_update_subset_insert by fastforce
    then show "flags_ok X K votes'"
      using flags that(2) K(2) id by (fastforce simp: flags_ok_def)
  qed
  show ?thesis
  proof (cases "nac_verified vote")
    case True
    with flags mem id obtain k where "(info_address v, k) \<in> K"
        "signature_verify X k (sign_bytes X (nac_signed_vote vote)) (sgv_signature (nac_signed_vote vote)) = Ok ()"
      by (auto simp: flags_ok_def)
    with K have ?ok by (auto dest: single_valuedD)
    with True Some signed show ?thesis
      using mark [of "votes\<lparr>nacs_votes := (nacs_votes votes)[i := vote\<lparr>nac_verified := True\<rparr>]\<rparr>"]
      by (simp add: has_voted_def vote_def Let_def)
  next
    case False
    let ?r = "info_verify_signature X v (sign_bytes X (nac_signed_vote vote)) (sgv_signature (nac_signed_vote vote))"
    show ?thesis
    proof (cases ?r)
      case (Ok u)
      then have ?ok using info_verify_signature_cases(1) by simp
      with False Some signed Ok show ?thesis
        using mark [of "votes\<lparr>nacs_sign_bytes := sign_bytes X (nac_signed_vote vote),
            nacs_votes := (nacs_votes votes)[i := vote\<lparr>nac_verified := True\<rparr>]\<rparr>"]
        by (simp add: has_voted_def vote_def Let_def)
    next
      case (Err e)
      then have "\<not> ?ok"
        using info_verify_signature_cases(1) [of X v "sign_bytes X (nac_signed_vote vote)"] by force
      with False Some signed Err mem id show ?thesis
        by (force simp: has_voted_def vote_def Let_def)
    next
      case Panic
      then show ?thesis using info_verify_signature_cases(2) by blast
    qed
  qed
qed

section \<open>The loop\<close>

abbreviation signs :: "externals \<Rightarrow> signed_header \<Rightarrow> info \<Rightarrow> bool" where
  "signs X sh v \<equiv> signed_by X sh (info_address v) (info_pub_key v)"

text \<open>
  The loop adds the power of the validators that signed, in order, and stops early only when the
  threshold is met.
\<close>

lemma tally_validators_Ok:
  assumes "tally_validators X votes vs p = Ok (p', votes')"
    and "votes_inv sh votes" "flags_ok X K votes" "single_valued K"
    and "\<forall>v \<in> set vs. (info_address v, info_pub_key v) \<in> K"
    and "unat (tly_tallied p) + powers vs < 2 ^ 64"
  shows "votes_inv sh votes' \<and> flags_ok X K votes'
    \<and> tly_total p' = tly_total p \<and> tly_trust_threshold p' = tly_trust_threshold p
    \<and> (\<exists>us ws. vs = us @ ws \<and> (ws = [] \<or> is_ok (tally_check p'))
         \<and> unat (tly_tallied p') = unat (tly_tallied p) + powers (filter (signs X sh) us))"
  using assms
proof (induction vs arbitrary: votes p)
  case (Cons v vs)
  from Cons.prems have K: "(info_address v, info_pub_key v) \<in> K"
      "\<forall>v \<in> set vs. (info_address v, info_pub_key v) \<in> K" by simp_all
  from has_voted_cases [OF Cons.prems(2,3,4) K(1)] Cons.prems(1)
  obtain votes1 where hv: "has_voted X votes v = Ok (signs X sh v, votes1)"
      and inv1: "votes_inv sh votes1" "flags_ok X K votes1"
    by (auto simp: result_simps)
  let ?p = "tally_add p (info_power v)"
  have u: "unat (tly_tallied ?p) = unat (tly_tallied p) + unat (info_power v)"
    using Cons.prems(6) by (simp add: unat_add_no_overflow)
  consider "signs X sh v" "is_ok (tally_check ?p)" | "signs X sh v" "\<not> is_ok (tally_check ?p)" | "\<not> signs X sh v"
    by blast
  then show ?case
  proof cases
    case 1
    then have "p' = ?p" "votes' = votes1" using Cons.prems(1) hv by (simp_all add: Let_def)
    with 1 inv1 u show ?thesis
      by (intro conjI exI [of _ "[v]"] exI [of _ vs]) simp_all
  next
    case 2
    then have "tally_validators X votes1 vs ?p = Ok (p', votes')"
      using Cons.prems(1) hv by (simp add: Let_def)
    note IH = Cons.IH [OF this inv1 Cons.prems(4) K(2)]
    moreover have "unat (tly_tallied ?p) + powers vs < 2 ^ 64" using u Cons.prems(6) by simp
    ultimately obtain us ws where "vs = us @ ws" "ws = [] \<or> is_ok (tally_check p')"
        "unat (tly_tallied p') = unat (tly_tallied ?p) + powers (filter (signs X sh) us)"
        "votes_inv sh votes'" "flags_ok X K votes'" "tly_total p' = tly_total p"
        "tly_trust_threshold p' = tly_trust_threshold p"
      by auto
    with 2 u show ?thesis
      by (intro conjI exI [of _ "v # us"] exI [of _ ws]) simp_all
  next
    case 3
    then have "tally_validators X votes1 vs p = Ok (p', votes')"
      using Cons.prems(1) hv by simp
    note IH = Cons.IH [OF this inv1 Cons.prems(4) K(2)]
    moreover have "unat (tly_tallied p) + powers vs < 2 ^ 64" using Cons.prems(6) by simp
    ultimately obtain us ws where "vs = us @ ws" "ws = [] \<or> is_ok (tally_check p')"
        "unat (tly_tallied p') = unat (tly_tallied p) + powers (filter (signs X sh) us)"
        "votes_inv sh votes'" "flags_ok X K votes'" "tly_total p' = tly_total p"
        "tly_trust_threshold p' = tly_trust_threshold p"
      by auto
    with 3 show ?thesis
      by (intro conjI exI [of _ "v # us"] exI [of _ ws]) simp_all
  qed
qed auto

text \<open>An error of the loop is a signature of a validator of the set that does not verify.\<close>

lemma tally_validators_Err:
  assumes "tally_validators X votes vs p = Err e"
    and "votes_inv sh votes" "flags_ok X K votes" "single_valued K"
    and "\<forall>v \<in> set vs. (info_address v, info_pub_key v) \<in> K"
  shows "\<exists>v \<in> set vs. \<exists>s b. e = VE_InvalidSignature s v b \<and> \<not> signs X sh v
    \<and> (\<exists>cs \<in> set (cmt_signatures (sh_commit sh)). cs_is_commit cs \<and> cs_validator_address cs = Some (info_address v))"
  using assms
proof (induction vs arbitrary: votes p)
  case (Cons v vs)
  from Cons.prems have K: "(info_address v, info_pub_key v) \<in> K"
      "\<forall>v \<in> set vs. (info_address v, info_pub_key v) \<in> K" by simp_all
  from has_voted_cases [OF Cons.prems(2,3,4) K(1)] consider
      s b where "has_voted X votes v = Err (VE_InvalidSignature s v b)" "\<not> signs X sh v"
        "info_address v \<in> nac_validator_id ` set (nacs_votes votes)"
    | votes1 where "has_voted X votes v = Ok (signs X sh v, votes1)" "votes_inv sh votes1" "flags_ok X K votes1"
    by blast
  then show ?case
  proof cases
    case (2 votes1)
    then obtain p1 where "tally_validators X votes1 vs p1 = Err e"
      using Cons.prems(1) by (auto simp: Let_def split: if_splits)
    from Cons.IH [OF this 2(2,3) Cons.prems(4) K(2)] show ?thesis by auto
  next
    case (1 s b)
    then obtain w where "w \<in> set (nacs_votes votes)" "nac_validator_id w = info_address v" by auto
    with Cons.prems(2) obtain cs where "cs \<in> set (cmt_signatures (sh_commit sh))" "vote_from sh cs w"
      by (auto simp: votes_inv_def votes_of_def)
    with \<open>nac_validator_id w = _\<close> have "cs_is_commit cs" "cs_validator_address cs = Some (info_address v)"
      by (auto simp: vote_from_def)
    with 1 Cons.prems(1) \<open>cs \<in> _\<close> show ?thesis by auto
  qed
qed simp

text \<open>Whatever the flags say, a lookup fails only on a signature, and the loop never panics.\<close>

lemma has_voted_failure:
  "has_voted X votes v \<noteq> Panic"
  "has_voted X votes v = Err e \<Longrightarrow> \<exists>s b. e = VE_InvalidSignature s v b"
  using info_verify_signature_cases(2)
  by (auto simp: has_voted_def Let_def split: option.splits if_splits result.splits)

lemma tally_validators_neq_Panic: "tally_validators X votes vs p \<noteq> Panic"
  by (induction vs arbitrary: votes p)
    (auto simp: and_then_eq_Panic has_voted_failure(1) Let_def split: if_splits)

lemma tally_validators_error:
  "tally_validators X votes vs p = Err e \<Longrightarrow> \<exists>s v b. e = VE_InvalidSignature s v b"
  by (induction vs arbitrary: votes p)
    (auto simp: and_then_eq_Err Let_def dest: has_voted_failure(2) split: if_splits)

end
