(* ===== verification/Voting_Power_Lemmas.thy ===== *)
theory Voting_Power_Lemmas
  imports Voting_Power
begin

text \<open>
  What the tally is worth: soundness against the reference, agreement of the two-set routine with
  two separate calls, completeness, and the case in which one signature is counted for a whole set.
\<close>

section \<open>Soundness of the tally\<close>

definition keys_of :: "info list \<Rightarrow> (account_id \<times> public_key) set" where
  "keys_of vs = (\<lambda>v. (info_address v, info_pub_key v)) ` set vs"

lemma keys_by_address_single_valued: "keys_by_address vs \<longleftrightarrow> single_valued (keys_of vs)"
  by (auto simp: keys_by_address_def keys_of_def single_valued_def)

lemma signed_power_le: "signed_power X sh s \<le> powers (vs_validators s)"
  by (simp add: signed_power_def powers_filter_le)

lemma enough_iff_signed:
  assumes inv: "set_inv s" and t: "small_threshold t"
    and vs: "vs_validators s = us @ ws" "ws = [] \<or> is_enough_power t n (vs_total_voting_power s)"
    and n: "unat n = powers (filter (signs X sh) us)"
  shows "is_enough_power t n (vs_total_voting_power s) \<longleftrightarrow>
    unat (vs_total_voting_power s) * unat (numerator t) < signed_power X sh s * unat (denominator t)"
    and "unat n \<le> signed_power X sh s" "ws = [] \<Longrightarrow> unat n = signed_power X sh s"
proof -
  have sp: "signed_power X sh s = unat n + powers (filter (signs X sh) ws)"
    by (simp add: signed_power_def vs(1) n)
  then show le: "unat n \<le> signed_power X sh s" and "ws = [] \<Longrightarrow> unat n = signed_power X sh s" by simp_all
  have tot: "unat (vs_total_voting_power s) < 2 ^ 60" using set_invD(2) [OF inv] by simp
  have "unat n < 2 ^ 60"
    using le signed_power_le [of X sh s] set_invD(1,2) [OF inv] by simp
  note iff = is_enough_power_iff [OF t this tot]
  have mono: "unat n * unat (denominator t) \<le> signed_power X sh s * unat (denominator t)"
    using le by (rule mult_le_mono1)
  show "is_enough_power t n (vs_total_voting_power s) \<longleftrightarrow>
      unat (vs_total_voting_power s) * unat (numerator t) < signed_power X sh s * unat (denominator t)"
  proof (cases "ws = []")
    case True
    with sp have "signed_power X sh s = unat n" by simp
    with iff show ?thesis by (simp only:)
  next
    case False
    then have "is_enough_power t n (vs_total_voting_power s)" using vs(2) by simp
    moreover from this iff have "unat (vs_total_voting_power s) * unat (numerator t) < unat n * unat (denominator t)"
      by (simp only:)
    ultimately show ?thesis using mono by (simp only: order_less_le_trans)
  qed
qed

lemma voting_power_in_Ok:
  assumes inv: "set_inv s" and t: "small_threshold t" and keys: "keys_by_address (vs_validators s)"
    and ok: "voting_power_in X sh s t = Ok y"
  shows "tly_total y = vs_total_voting_power s" "tly_trust_threshold y = t"
    and "unat (tly_tallied y) \<le> signed_power X sh s"
    and "tally_check y = Ok () \<longleftrightarrow>
      unat (vs_total_voting_power s) * unat (numerator t) < signed_power X sh s * unat (denominator t)"
    and "tally_check y = Ok () \<or> unat (tly_tallied y) = signed_power X sh s"
proof -
  from ok obtain votes votes' where new: "non_absent_commit_votes_new sh = Ok votes"
      and impl: "tally_validators X votes (vs_validators s) (tally_new (total_power_of s) t) = Ok (y, votes')"
    by (auto simp: voting_power_in_def voting_power_in_impl_def result_simps)
  have small: "powers (vs_validators s) < 2 ^ 64" using set_invD(1,2) [OF inv] by simp
  have "\<forall>v \<in> set (vs_validators s). (info_address v, info_pub_key v) \<in> keys_of (vs_validators s)"
    by (simp add: keys_of_def)
  from tally_validators_Ok [OF impl votes_new_inv(1) [OF new]
      votes_new_inv(2) [OF new, where K = "keys_of (vs_validators s)"]
      keys [unfolded keys_by_address_single_valued] this] small
  obtain us ws where vs: "vs_validators s = us @ ws" "ws = [] \<or> is_ok (tally_check y)"
      and n: "unat (tly_tallied y) = powers (filter (signs X sh) us)"
      and tot: "tly_total y = total_power_of s" and thr: "tly_trust_threshold y = t"
    by auto
  show T: "tly_total y = vs_total_voting_power s" using tot total_power_of_eq [OF inv] by simp
  show "tly_trust_threshold y = t" by (fact thr)
  have e: "is_ok (tally_check y) \<longleftrightarrow> is_enough_power t (tly_tallied y) (vs_total_voting_power s)"
    by (simp add: is_ok_tally_check thr T)
  note c = enough_iff_signed [OF inv t vs(1) vs(2) [unfolded e] n]
  show "unat (tly_tallied y) \<le> signed_power X sh s" by (rule c(2))
  show "tally_check y = Ok () \<longleftrightarrow>
      unat (vs_total_voting_power s) * unat (numerator t) < signed_power X sh s * unat (denominator t)"
    using c(1) by (simp add: tally_check_def thr T)
  show "tally_check y = Ok () \<or> unat (tly_tallied y) = signed_power X sh s"
    using vs(2) c(3) by (auto simp: tally_check_def split: if_splits)
qed

section \<open>Two sets at once\<close>

text \<open>The outcome of the loop depends on the votes and not on which of them carry a flag.\<close>

definition same_votes :: "non_absent_commit_votes \<Rightarrow> non_absent_commit_votes \<Rightarrow> bool" where
  "same_votes a b \<longleftrightarrow> map nac_signed_vote (nacs_votes a) = map nac_signed_vote (nacs_votes b)"

lemma bsearch_map: "hi \<le> length xs \<Longrightarrow> bsearch f xs k lo hi = bsearch (\<lambda>x. x) (map f xs) k lo hi"
proof (induction f xs k lo hi rule: bsearch.induct)
  case (1 f xs k lo hi)
  show ?case
  proof (cases "lo < hi")
    case True
    let ?mid = "lo + (hi - lo) div 2"
    have "?mid < hi" using True by auto
    with 1 True show ?thesis
      by (subst (1 2) bsearch.simps) (simp add: Let_def)
  next
    case False
    then show ?thesis by (subst (1 2) bsearch.simps) simp
  qed
qed

lemma binary_search_same_votes:
  assumes "same_votes a b"
  shows "binary_search_by_key nac_validator_id (nacs_votes a) k = binary_search_by_key nac_validator_id (nacs_votes b) k"
proof -
  have "map nac_validator_id (nacs_votes a) = map nac_validator_id (nacs_votes b)"
    using arg_cong [OF assms [unfolded same_votes_def], of "map sgv_validator_address"]
    by (simp add: nac_validator_id_def [abs_def] comp_def)
  then show ?thesis
    unfolding binary_search_by_key_def by (metis bsearch_map length_map order_refl)
qed

lemma same_votes_mark:
  assumes "i < length (nacs_votes a)"
    and "nacs_votes a' = (nacs_votes a)[i := (nacs_votes a ! i)\<lparr>nac_verified := True\<rparr>]"
  shows "same_votes a a'"
proof -
  have "(map nac_signed_vote (nacs_votes a))[i := nac_signed_vote (nacs_votes a ! i)] = map nac_signed_vote (nacs_votes a)"
    using assms(1) by (metis list_update_id nth_map)
  then show ?thesis by (simp add: same_votes_def map_update assms(2))
qed

lemma has_voted_same:
  assumes "has_voted X a v = Ok (c, a')"
  shows "same_votes a a'"
proof (cases "binary_search_by_key nac_validator_id (nacs_votes a) (info_address v)")
  case None
  with assms show ?thesis by (simp add: has_voted_def same_votes_def)
next
  case (Some i)
  then have "i < length (nacs_votes a)" using binary_search_by_key_SomeD by blast
  with assms Some show ?thesis
    by (intro same_votes_mark [where i = i]) (auto simp: has_voted_def Let_def split: if_splits result.splits)
qed

lemma has_voted_Err_same:
  assumes "same_votes a b" "has_voted X a v = Err e" "has_voted X b v = Err e'"
  shows "e = e'"
proof (cases "binary_search_by_key nac_validator_id (nacs_votes a) (info_address v)")
  case None
  with assms(2) show ?thesis by (simp add: has_voted_def)
next
  case (Some i)
  then have i: "i < length (nacs_votes a)" using binary_search_by_key_SomeD by blast
  have len: "length (nacs_votes a) = length (nacs_votes b)"
    using assms(1) unfolding same_votes_def by (rule map_eq_imp_length_eq)
  have "nac_signed_vote (nacs_votes a ! i) = nac_signed_vote (nacs_votes b ! i)"
    using assms(1) i len unfolding same_votes_def by (metis nth_map)
  with assms Some show ?thesis
    using binary_search_same_votes [OF assms(1), of "info_address v"]
    by (auto simp: has_voted_def Let_def split: if_splits result.splits)
qed

lemma tally_validators_same:
  assumes "same_votes a b" "votes_inv sh a" "votes_inv sh b" "flags_ok X K a" "flags_ok X K b" "single_valued K"
    and "\<forall>v \<in> set vs. (info_address v, info_pub_key v) \<in> K"
  shows "and_then (tally_validators X a vs p) (\<lambda>(q, _). Ok q) = and_then (tally_validators X b vs p) (\<lambda>(q, _). Ok q)"
  using assms
proof (induction vs arbitrary: a b p)
  case (Cons v vs)
  from Cons.prems have K: "(info_address v, info_pub_key v) \<in> K"
      "\<forall>v \<in> set vs. (info_address v, info_pub_key v) \<in> K" by simp_all
  note ca = has_voted_cases [OF Cons.prems(2,4,6) K(1)] and cb = has_voted_cases [OF Cons.prems(3,5,6) K(1)]
  show ?case
  proof (cases "has_voted X a v")
    case (Err e)
    with ca have n: "\<not> signs X sh v" "info_address v \<in> nac_validator_id ` set (nacs_votes a)" by auto
    have "has_voted X b v \<noteq> Ok (False, c)" for c
    proof
      assume "has_voted X b v = Ok (False, c)"
      then have "binary_search_by_key nac_validator_id (nacs_votes b) (info_address v) = None"
        by (auto simp: has_voted_def Let_def split: option.splits if_splits result.splits)
      then have "binary_search_by_key nac_validator_id (nacs_votes a) (info_address v) = None"
        using binary_search_same_votes [OF Cons.prems(1)] by simp
      with Err show False by (simp add: has_voted_def)
    qed
    with cb n obtain e' where "has_voted X b v = Err e'" by auto
    with Err has_voted_Err_same [OF Cons.prems(1) Err] show ?thesis by simp
  next
    case (Ok r)
    with ca obtain a1 where a1: "has_voted X a v = Ok (signs X sh v, a1)" "votes_inv sh a1" "flags_ok X K a1"
      by auto
    have "\<exists>b1. has_voted X b v = Ok (signs X sh v, b1) \<and> votes_inv sh b1 \<and> flags_ok X K b1"
    proof (rule ccontr)
      assume "\<not> ?thesis"
      with cb obtain e where "has_voted X b v = Err e" "\<not> signs X sh v" by auto
      with a1 have "binary_search_by_key nac_validator_id (nacs_votes a) (info_address v) = None"
        by (auto simp: has_voted_def Let_def split: option.splits if_splits result.splits)
      then have "binary_search_by_key nac_validator_id (nacs_votes b) (info_address v) = None"
        using binary_search_same_votes [OF Cons.prems(1)] by simp
      with \<open>has_voted X b v = Err e\<close> show False by (simp add: has_voted_def)
    qed
    then obtain b1 where b1: "has_voted X b v = Ok (signs X sh v, b1)" "votes_inv sh b1" "flags_ok X K b1" by blast
    have "same_votes a1 b1"
      using has_voted_same [OF a1(1)] has_voted_same [OF b1(1)] Cons.prems(1) by (simp add: same_votes_def)
    note IH = Cons.IH [OF this a1(2) b1(2) a1(3) b1(3) Cons.prems(6) K(2)]
    show ?thesis using a1(1) b1(1) IH by (simp add: Let_def)
  next
    case Panic
    with ca show ?thesis by simp
  qed
qed simp

lemma tally_validators_votes:
  "tally_validators X a vs p = Ok (q, b) \<Longrightarrow> same_votes a b"
proof (induction vs arbitrary: a p)
  case Nil
  then show ?case by (simp add: same_votes_def)
next
  case (Cons v vs)
  from Cons.prems obtain c a1 where hv: "has_voted X a v = Ok (c, a1)"
    by (auto simp: result_simps)
  with Cons.prems have "b = a1 \<or> (\<exists>p1. tally_validators X a1 vs p1 = Ok (q, b))"
    by (auto simp: Let_def split: if_splits)
  with Cons.IH has_voted_same [OF hv] show ?case by (auto simp: same_votes_def)
qed

text \<open>
  The doc comment of \<open>voting_power_in_sets\<close> calls it equivalent to two separate calls. It is, when
  the two sets agree on the key of every address they share.
\<close>

lemma voting_power_in_sets_eq:
  assumes "set_inv s1" and keys: "keys_by_address (vs_validators s1 @ vs_validators s2)"
  shows "voting_power_in_sets X sh (s1, t1) (s2, t2) =
    and_then (voting_power_in X sh s1 t1) (\<lambda>a. and_then (voting_power_in X sh s2 t2) (\<lambda>b. Ok (a, b)))"
proof (cases "non_absent_commit_votes_new sh")
  case (Ok votes)
  let ?K = "keys_of (vs_validators s1 @ vs_validators s2)"
  have sv: "single_valued ?K" using keys by (simp add: keys_by_address_single_valued)
  have K: "\<forall>v \<in> set (vs_validators s1). (info_address v, info_pub_key v) \<in> ?K"
      "\<forall>v \<in> set (vs_validators s2). (info_address v, info_pub_key v) \<in> ?K"
    by (auto simp: keys_of_def)
  note new = votes_new_inv [OF Ok]
  show ?thesis
  proof (cases "tally_validators X votes (vs_validators s1) (tally_new (total_power_of s1) t1)")
    case ok1: (Ok r)
    then obtain p1 votes1 where r: "tally_validators X votes (vs_validators s1) (tally_new (total_power_of s1) t1) = Ok (p1, votes1)"
      by (cases r) auto
    have "powers (vs_validators s1) < 2 ^ 64" using set_invD(1,2) [OF assms(1)] by simp
    with tally_validators_Ok [OF r new(1) new(2) sv K(1)] have inv1: "votes_inv sh votes1" "flags_ok X ?K votes1"
      by auto
    have "same_votes votes1 votes" using tally_validators_votes [OF r] by (simp add: same_votes_def)
    note same = tally_validators_same [OF this inv1(1) new(1) inv1(2) new(2) sv K(2),
        where p = "tally_new (total_power_of s2) t2"]
    then have "and_then (tally_validators X votes1 (vs_validators s2) (tally_new (total_power_of s2) t2)) (\<lambda>(b, _). Ok (p1, b)) =
        and_then (tally_validators X votes (vs_validators s2) (tally_new (total_power_of s2) t2)) (\<lambda>(b, _). Ok (p1, b))"
      by (cases "tally_validators X votes1 (vs_validators s2) (tally_new (total_power_of s2) t2)";
          cases "tally_validators X votes (vs_validators s2) (tally_new (total_power_of s2) t2)") auto
    with r Ok show ?thesis
      by (simp add: voting_power_in_sets_def voting_power_in_def voting_power_in_impl_def and_then_assoc
          case_prod_beta')
  qed (simp_all add: voting_power_in_sets_def voting_power_in_def voting_power_in_impl_def Ok)
qed (simp_all add: voting_power_in_sets_def voting_power_in_def)

section \<open>Completeness\<close>

text \<open>A commit without missing signatures and without two entries of one address.\<close>

fun commit_address :: "commit_sig \<Rightarrow> account_id list" where
  "commit_address (BlockIdFlagCommit a t s) = [a]"
| "commit_address _ = []"

definition commit_addresses :: "signed_header \<Rightarrow> account_id list" where
  "commit_addresses sh = concat (map commit_address (cmt_signatures (sh_commit sh)))"

definition well_formed_commit :: "signed_header \<Rightarrow> bool" where
  "well_formed_commit sh \<longleftrightarrow>
     length (cmt_signatures (sh_commit sh)) \<le> 2 ^ 31
     \<and> (\<forall>a t. BlockIdFlagCommit a t None \<notin> set (cmt_signatures (sh_commit sh)))
     \<and> distinct (commit_addresses sh)"

lemma collect_votes_complete:
  assumes "i + length sigs \<le> 2 ^ 31" "\<forall>a t. BlockIdFlagCommit a t None \<notin> set sigs"
  shows "\<exists>vs. collect_votes c chain i sigs = Ok vs \<and> map nac_validator_id vs = concat (map commit_address sigs)"
  using assms
proof (induction sigs arbitrary: i)
  case (Cons cs sigs)
  from Cons.prems have i: "validator_index_try_from_usize i = Ok (of_nat i)"
    by (simp add: validator_index_try_from_usize_Ok_iff)
  from Cons.IH [of "Suc i"] Cons.prems obtain vs where
    vs: "collect_votes c chain (Suc i) sigs = Ok vs" "map nac_validator_id vs = concat (map commit_address sigs)"
    by auto
  show ?case
  proof (cases cs)
    case (BlockIdFlagCommit a t s)
    with Cons.prems(2) obtain b where "s = Some b" by (cases s) auto
    then obtain v where "non_absent_commit_vote_new cs (of_nat i) c chain = Some (Ok v)" "nac_validator_id v = a"
      by (simp add: BlockIdFlagCommit signed_vote_from_vote_def commit_vote_def signed_vote_new_def nac_validator_id_def)
    with BlockIdFlagCommit i vs show ?thesis by simp
  qed (use i vs in simp_all)
qed simp

lemma votes_new_complete:
  assumes "well_formed_commit sh"
  shows "\<exists>votes. non_absent_commit_votes_new sh = Ok votes"
proof -
  from assms obtain vs where vs: "collect_votes (sh_commit sh) (hdr_chain_id (sh_header sh)) 0
        (cmt_signatures (sh_commit sh)) = Ok vs" "map nac_validator_id vs = commit_addresses sh"
    using collect_votes_complete [of 0 "cmt_signatures (sh_commit sh)" "sh_commit sh" "hdr_chain_id (sh_header sh)"]
    by (auto simp: well_formed_commit_def commit_addresses_def)
  let ?s = "sort_key nac_validator_id vs"
  have "distinct (map nac_validator_id vs)" using assms vs(2) by (simp add: well_formed_commit_def)
  then have "distinct (map nac_validator_id ?s)"
    by (metis distinct_map distinct_sort set_sort)
  then have "find_adjacent (\<lambda>a b. nac_validator_id a = nac_validator_id b) ?s = None"
    using find_adjacent_Some_not_distinct [of nac_validator_id ?s]
    by (cases "find_adjacent (\<lambda>a b. nac_validator_id a = nac_validator_id b) ?s") auto
  with vs show ?thesis by (simp add: non_absent_commit_votes_new_def Let_def)
qed

lemma voting_power_in_complete:
  assumes "well_formed_commit sh" "keys_by_address (vs_validators s)"
    and sigs: "\<forall>v \<in> set (vs_validators s). info_address v \<in> set (commit_addresses sh) \<longrightarrow> signs X sh v"
  shows "\<exists>y. voting_power_in X sh s t = Ok y"
proof -
  from votes_new_complete [OF assms(1)] obtain votes where new: "non_absent_commit_votes_new sh = Ok votes" ..
  let ?K = "keys_of (vs_validators s)"
  have sv: "single_valued ?K" using assms(2) by (simp add: keys_by_address_single_valued)
  have K: "\<forall>v \<in> set (vs_validators s). (info_address v, info_pub_key v) \<in> ?K" by (simp add: keys_of_def)
  note inv = votes_new_inv(1) [OF new] and flags = votes_new_inv(2) [OF new]
  let ?r = "tally_validators X votes (vs_validators s) (tally_new (total_power_of s) t)"
  have "?r \<noteq> Panic" by (rule tally_validators_neq_Panic)
  moreover have "?r \<noteq> Err e" for e
  proof
    assume "?r = Err e"
    from tally_validators_Err [OF this inv flags sv K]
    obtain v cs where v: "v \<in> set (vs_validators s)" "\<not> signs X sh v"
      and cs: "cs \<in> set (cmt_signatures (sh_commit sh))" "cs_is_commit cs" "cs_validator_address cs = Some (info_address v)"
      by blast
    from cs(2,3) have "info_address v \<in> set (commit_address cs)" by (cases cs) auto
    with cs(1) have "info_address v \<in> set (commit_addresses sh)" by (auto simp: commit_addresses_def)
    with v sigs show False by blast
  qed
  ultimately obtain q where "?r = Ok q" by (cases ?r) auto
  with new show ?thesis
    by (cases q) (simp add: voting_power_in_def voting_power_in_impl_def)
qed

section \<open>Failures\<close>

lemma collect_votes_failure:
  "collect_votes c chain i sigs = Err e \<Longrightarrow> e = VE_MissingSignature"
  "i + length sigs \<le> 2 ^ 31 \<Longrightarrow> collect_votes c chain i sigs \<noteq> Panic"
proof -
  have "(collect_votes c chain i sigs = Err e \<longrightarrow> e = VE_MissingSignature) \<and>
    (i + length sigs \<le> 2 ^ 31 \<longrightarrow> collect_votes c chain i sigs \<noteq> Panic)"
  proof (induction sigs arbitrary: i)
    case (Cons cs sigs)
    have "validator_index_try_from_usize i = Ok (of_nat i)" if "i < 2 ^ 31"
      using that by (simp add: validator_index_try_from_usize_Ok_iff)
    with Cons [of "Suc i"] show ?case
      by (cases cs) (auto simp: result_simps split: result.splits)
  qed simp
  then show "collect_votes c chain i sigs = Err e \<Longrightarrow> e = VE_MissingSignature"
    "i + length sigs \<le> 2 ^ 31 \<Longrightarrow> collect_votes c chain i sigs \<noteq> Panic" by blast+
qed

lemma votes_new_failure:
  "non_absent_commit_votes_new sh = Err e \<Longrightarrow> e = VE_MissingSignature \<or> (\<exists>a. e = VE_DuplicateValidator a)"
  "length (cmt_signatures (sh_commit sh)) \<le> 2 ^ 31 \<Longrightarrow> non_absent_commit_votes_new sh \<noteq> Panic"
  using collect_votes_failure [where c = "sh_commit sh" and chain = "hdr_chain_id (sh_header sh)" and i = 0
      and sigs = "cmt_signatures (sh_commit sh)"]
  by (auto simp: non_absent_commit_votes_new_def result_simps Let_def split: option.splits)

text \<open>Counting votes never reports a lack of trust: only the check of the trusted tally does.\<close>

definition tally_error :: "verification_error \<Rightarrow> bool" where
  "tally_error e \<longleftrightarrow> e = VE_MissingSignature \<or> (\<exists>a. e = VE_DuplicateValidator a)
     \<or> (\<exists>s v b. e = VE_InvalidSignature s v b)"

lemma voting_power_failure:
  "voting_power_in X sh s t = Err e \<Longrightarrow> tally_error e"
  "voting_power_in_sets X sh a b = Err e \<Longrightarrow> tally_error e"
  using tally_validators_error
  by (auto simp: voting_power_in_def voting_power_in_sets_def voting_power_in_impl_def tally_error_def result_simps
      dest!: votes_new_failure(1))

lemma voting_power_neq_Panic:
  assumes "length (cmt_signatures (sh_commit sh)) \<le> 2 ^ 31"
  shows "voting_power_in X sh s t \<noteq> Panic" "voting_power_in_sets X sh a b \<noteq> Panic"
  using votes_new_failure(2) [OF assms] tally_validators_neq_Panic
  by (auto simp: voting_power_in_def voting_power_in_sets_def voting_power_in_impl_def result_simps)

lemma tally_check_neq_Panic [simp]: "tally_check t \<noteq> Panic"
  by (simp add: tally_check_def)

lemma check_signers_overlap_failure:
  "check_signers_overlap X sh s = Err e \<Longrightarrow> tally_error e \<or> (\<exists>t. e = VE_InsufficientSignersOverlap t)"
  "length (cmt_signatures (sh_commit sh)) \<le> 2 ^ 31 \<Longrightarrow> check_signers_overlap X sh s \<noteq> Panic"
  using voting_power_neq_Panic
  by (auto simp: check_signers_overlap_def result_simps dest: voting_power_failure)

lemma check_enough_trust_neq_Panic:
  "length (cmt_signatures (sh_commit sh)) \<le> 2 ^ 31 \<Longrightarrow> check_enough_trust_and_signers X sh s t u \<noteq> Panic"
  using voting_power_neq_Panic
  by (auto simp: check_enough_trust_and_signers_def result_simps)

section \<open>One signature, many validators\<close>

text \<open>
  Giving every validator of a set the address of one of them changes neither the order nor the hash
  of the set, but then the flag of a single verified vote stands for all of them.
\<close>

definition readdress :: "account_id \<Rightarrow> val_set \<Rightarrow> val_set" where
  "readdress a s = s\<lparr>vs_validators := map (\<lambda>v. v\<lparr>info_address := a\<rparr>) (vs_validators s)\<rparr>"

lemma vs_validators_readdress [simp]:
  "vs_validators (readdress a s) = map (\<lambda>v. v\<lparr>info_address := a\<rparr>) (vs_validators s)"
  by (simp add: readdress_def)

lemma readdress_hash: "set_hash X (readdress a s) = set_hash X s"
  by (rule set_hash_cong) (simp add: readdress_def simple_validator_from_info_def)

lemma powers_readdress [simp]: "powers (map (\<lambda>v. v\<lparr>info_address := a\<rparr>) vs) = powers vs"
  by (simp add: powers_def o_def)

lemma readdress_inv: "set_inv s \<Longrightarrow> set_inv (readdress a s)"
  by (auto simp: set_inv_def readdress_def sorted_validators_def sorted_iff_nth_mono less_eq_prod_def)

lemma has_voted_flagged:
  assumes "nacs_votes votes = [v]" "nac_verified v" "nac_validator_id v = info_address i"
  shows "has_voted X votes i = Ok (True, votes)"
proof -
  have "binary_search_by_key nac_validator_id (nacs_votes votes) (info_address i) = Some 0"
    by (simp add: binary_search_by_key_def assms bsearch.simps [of _ _ _ 0 "Suc 0"])
  with assms show ?thesis
    by (cases votes; cases v) (simp add: has_voted_def Let_def)
qed

lemma tally_flagged:
  assumes "nacs_votes votes = [v]" "nac_verified v" "\<forall>i \<in> set vs. info_address i = nac_validator_id v"
    and "unat (tly_tallied p) + powers vs < 2 ^ 64"
  shows "\<exists>q. tally_validators X votes vs p = Ok (q, votes) \<and> tly_total q = tly_total p
    \<and> tly_trust_threshold q = tly_trust_threshold p
    \<and> (is_ok (tally_check q) \<or> unat (tly_tallied q) = unat (tly_tallied p) + powers vs)"
  using assms
proof (induction vs arbitrary: p)
  case (Cons i vs)
  have hv: "has_voted X votes i = Ok (True, votes)"
    using Cons.prems by (intro has_voted_flagged) simp_all
  let ?p = "tally_add p (info_power i)"
  have u: "unat (tly_tallied ?p) = unat (tly_tallied p) + unat (info_power i)"
    using Cons.prems(4) by (simp add: unat_add_no_overflow)
  show ?case
  proof (cases "is_ok (tally_check ?p)")
    case True
    with hv show ?thesis by (simp add: Let_def)
  next
    case False
    with Cons.IH [of ?p] Cons.prems u hv show ?thesis by (auto simp: Let_def)
  qed
qed simp

lemma single_vote_collection:
  assumes "filter cs_is_commit (cmt_signatures (sh_commit sh)) = [BlockIdFlagCommit a ts (Some sg)]"
    and "length (cmt_signatures (sh_commit sh)) \<le> 2 ^ 31"
  obtains v where "non_absent_commit_votes_new sh = Ok \<lparr>nacs_votes = [v], nacs_sign_bytes = []\<rparr>"
    and "nac_validator_id v = a" "\<not> nac_verified v" "sgv_signature (nac_signed_vote v) = sg"
    and "sign_bytes X (nac_signed_vote v) = precommit_bytes X sh ts"
proof -
  let ?sigs = "cmt_signatures (sh_commit sh)"
  have one: "cs = BlockIdFlagCommit a ts (Some sg)" if "cs \<in> set ?sigs" "cs_is_commit cs" for cs
  proof -
    have "cs \<in> set (filter cs_is_commit ?sigs)" using that by simp
    then show ?thesis by (simp add: assms(1))
  qed
  have cc: "concat (map commit_address xs) = concat (map commit_address (filter cs_is_commit xs))" for xs
  proof (induction xs)
    case (Cons x xs)
    then show ?case by (cases x) simp_all
  qed simp
  have ids: "concat (map commit_address ?sigs) = [a]" using cc [of ?sigs] assms(1) by simp
  have "\<forall>a t. BlockIdFlagCommit a t None \<notin> set ?sigs" using one by fastforce
  with collect_votes_complete [of 0 ?sigs "sh_commit sh" "hdr_chain_id (sh_header sh)"] assms(2) ids
  obtain v where c: "collect_votes (sh_commit sh) (hdr_chain_id (sh_header sh)) 0 ?sigs = Ok [v]"
      and id: "nac_validator_id v = a"
    by (auto simp: Cons_eq_map_conv)
  from collect_votes_of [OF c] obtain cs where "\<not> nac_verified v" "cs \<in> set ?sigs" "vote_from sh cs v"
    by (auto simp: votes_of_def)
  moreover from this(3) have "cs_is_commit cs" by (auto simp: vote_from_def)
  ultimately have v: "\<not> nac_verified v" "vote_from sh (BlockIdFlagCommit a ts (Some sg)) v"
    using one by auto
  show ?thesis
  proof (rule that)
    show "non_absent_commit_votes_new sh = Ok \<lparr>nacs_votes = [v], nacs_sign_bytes = []\<rparr>"
      by (simp add: non_absent_commit_votes_new_def c)
    show "nac_validator_id v = a" "\<not> nac_verified v" by (fact id, fact v(1))
    show "sgv_signature (nac_signed_vote v) = sg" using v(2) by (simp add: vote_from_def)
    show "sign_bytes X (nac_signed_vote v) = precommit_bytes X sh ts"
      by (rule sign_bytes_vote_from [OF v(2) refl])
  qed
qed

lemma one_vote_tallies_all:
  assumes inv: "set_inv s" and vs: "vs_validators s = v0 # vs" and pos: "0 < vs_total_voting_power s"
    and sigs: "filter cs_is_commit (cmt_signatures (sh_commit sh)) = [BlockIdFlagCommit a ts (Some sg)]"
      "length (cmt_signatures (sh_commit sh)) \<le> 2 ^ 31"
    and sig: "signature_verify X (info_pub_key v0) (precommit_bytes X sh ts) sg = Ok ()"
  shows "check_signers_overlap X sh (readdress a s) = Ok ()"
proof -
  obtain v where new: "non_absent_commit_votes_new sh = Ok \<lparr>nacs_votes = [v], nacs_sign_bytes = []\<rparr>"
    and v: "nac_validator_id v = a" "\<not> nac_verified v" "sgv_signature (nac_signed_vote v) = sg"
      "sign_bytes X (nac_signed_vote v) = precommit_bytes X sh ts"
    using sigs by (rule single_vote_collection)
  let ?s = "readdress a s" and ?w = "v0\<lparr>info_address := a\<rparr>" and ?ws = "map (\<lambda>v. v\<lparr>info_address := a\<rparr>) vs"
  let ?p = "tally_new (total_power_of ?s) two_thirds"
  define votes where "votes = \<lparr>nacs_votes = [v\<lparr>nac_verified := True\<rparr>], nacs_sign_bytes = precommit_bytes X sh ts\<rparr>"
  have "info_verify_signature X ?w (precommit_bytes X sh ts) sg = Ok ()"
    using sig by (simp add: info_verify_signature_cases(1))
  moreover have "binary_search_by_key nac_validator_id [v] a = Some 0"
    by (simp add: binary_search_by_key_def v bsearch.simps [of _ _ _ 0 "Suc 0"])
  ultimately have hv: "has_voted X \<lparr>nacs_votes = [v], nacs_sign_bytes = []\<rparr> ?w = Ok (True, votes)"
    using v by (simp add: has_voted_def Let_def votes_def)
  have pw: "powers (v0 # vs) = unat (vs_total_voting_power s)" "unat (vs_total_voting_power s) < 2 ^ 60"
    using set_invD(1,2) [OF inv] vs by simp_all
  have tot: "total_power_of ?s = vs_total_voting_power s"
    using total_power_of_eq [OF readdress_inv [OF inv], of a] by (simp add: readdress_def)
  obtain q where q: "tally_validators X votes ?ws (tally_add ?p (info_power v0)) = Ok (q, votes)"
      "tly_total q = vs_total_voting_power s" "tly_trust_threshold q = two_thirds"
      "is_ok (tally_check q) \<or> unat (tly_tallied q) = unat (vs_total_voting_power s)"
    using tally_flagged [of votes "v\<lparr>nac_verified := True\<rparr>" ?ws "tally_add ?p (info_power v0)" X] pw tot v(1)
    by (auto simp: votes_def)
  have "is_ok (tally_check q)"
    using q(2-4) pw(2) pos is_enough_power_iff [of two_thirds "tly_tallied q" "vs_total_voting_power s"]
    by (auto simp: is_ok_tally_check word_less_nat_alt)
  moreover have "\<exists>r. voting_power_in X sh ?s two_thirds = Ok r \<and> (is_ok (tally_check r) \<or> r = q)"
    using new hv q(1) by (auto simp: voting_power_in_def voting_power_in_impl_def readdress_def vs Let_def)
  ultimately show ?thesis
    by (auto simp: check_signers_overlap_def is_ok_tally_check tally_check_def [of q] tally_check_def
        split: if_splits)
qed

end
