(* ===== verification/Verifier.thy ===== *)
theory Verifier
  imports Voting_Power_Lemmas
begin

text \<open>
  \<open>light-client-verifier\<close>: the commit validator, the verification predicates and the
  \<open>PredicateVerifier\<close> over them, in the production instance. A predicate returns \<open>Ok ()\<close> or an error;
  a step of the verifier returns a verdict, or panics where \<open>Height::increment\<close> does.
\<close>

section \<open>The commit validator\<close>

definition validate :: "signed_header \<Rightarrow> val_set \<Rightarrow> unit ve_result" where
  "validate sh s =
     (let signatures = cmt_signatures (sh_commit sh) in
      if \<not> list_ex (\<lambda>cs. \<not> cs_is_absent cs) signatures then Err VE_NoSignatureForCommit
      else if length signatures \<noteq> length (vs_validators s)
      then Err (VE_MismatchPreCommitLength (length signatures) (length (vs_validators s)))
      else Ok ())"

fun validate_full_loop :: "val_set \<Rightarrow> commit_sig list \<Rightarrow> unit ve_result" where
  "validate_full_loop s [] = Ok ()"
| "validate_full_loop s (commit_sig # sigs) =
     (case cs_validator_address commit_sig of
        None \<Rightarrow> validate_full_loop s sigs
      | Some validator_address \<Rightarrow>
          if set_validator s validator_address = None then Err (VE_FaultySigner validator_address s)
          else validate_full_loop s sigs)"

definition validate_full :: "signed_header \<Rightarrow> val_set \<Rightarrow> unit ve_result" where
  "validate_full sh s = validate_full_loop s (cmt_signatures (sh_commit sh))"

section \<open>The predicates\<close>

definition validator_sets_match :: "externals \<Rightarrow> val_set \<Rightarrow> tm_hash \<Rightarrow> unit ve_result" where
  "validator_sets_match X validators header_validators_hash =
     (let validators_hash = set_hash X validators in
      if header_validators_hash = validators_hash then Ok ()
      else Err (VE_InvalidValidatorSet header_validators_hash validators_hash))"

definition next_validators_match :: "externals \<Rightarrow> val_set \<Rightarrow> tm_hash \<Rightarrow> unit ve_result" where
  "next_validators_match X next_validators header_next_validators_hash =
     (let next_validators_hash = set_hash X next_validators in
      if header_next_validators_hash = next_validators_hash then Ok ()
      else Err (VE_InvalidNextValidatorSet header_next_validators_hash next_validators_hash))"

definition header_matches_commit :: "externals \<Rightarrow> header \<Rightarrow> tm_hash \<Rightarrow> unit ve_result" where
  "header_matches_commit X h commit_hash =
     (let hh = header_hash X h in
      if hh = commit_hash then Ok () else Err (VE_InvalidCommitValue hh commit_hash))"

definition valid_commit :: "signed_header \<Rightarrow> val_set \<Rightarrow> unit ve_result" where
  "valid_commit sh validators = and_then (validate sh validators) (\<lambda>_. validate_full sh validators)"

definition is_within_trust_period :: "externals \<Rightarrow> time \<Rightarrow> duration \<Rightarrow> time \<Rightarrow> unit ve_result" where
  "is_within_trust_period X trusted_header_time trusting_period now =
     and_then (map_err VE_Tendermint (time_add X trusted_header_time trusting_period))
       (\<lambda>expires_at. if expires_at > now then Ok () else Err (VE_NotWithinTrustPeriod expires_at now))"

definition is_header_from_past :: "externals \<Rightarrow> time \<Rightarrow> duration \<Rightarrow> time \<Rightarrow> unit ve_result" where
  "is_header_from_past X untrusted_header_time clock_drift now =
     and_then (map_err VE_Tendermint (time_add X now clock_drift))
       (\<lambda>drifted. if untrusted_header_time < drifted then Ok ()
                  else Err (VE_HeaderFromTheFuture untrusted_header_time now clock_drift))"

definition is_monotonic_bft_time :: "time \<Rightarrow> time \<Rightarrow> unit ve_result" where
  "is_monotonic_bft_time untrusted_header_time trusted_header_time =
     (if untrusted_header_time > trusted_header_time then Ok ()
      else Err (VE_NonMonotonicBftTime untrusted_header_time trusted_header_time))"

definition is_monotonic_height :: "height \<Rightarrow> height \<Rightarrow> unit ve_result" where
  "is_monotonic_height untrusted_height trusted_height =
     (if untrusted_height > trusted_height then Ok ()
      else and_then (height_increment trusted_height)
        (\<lambda>expected. Err (VE_NonIncreasingHeight untrusted_height expected)))"

definition is_matching_chain_id :: "chain_id \<Rightarrow> chain_id \<Rightarrow> unit ve_result" where
  "is_matching_chain_id untrusted_chain_id trusted_chain_id =
     (if untrusted_chain_id = trusted_chain_id then Ok ()
      else Err (VE_ChainIdMismatch untrusted_chain_id trusted_chain_id))"

definition has_sufficient_validators_and_signers_overlap ::
  "externals \<Rightarrow> signed_header \<Rightarrow> val_set \<Rightarrow> trust_threshold \<Rightarrow> val_set \<Rightarrow> unit ve_result" where
  "has_sufficient_validators_and_signers_overlap X untrusted_sh trusted_validators t untrusted_validators =
     check_enough_trust_and_signers X untrusted_sh trusted_validators t untrusted_validators"

definition has_sufficient_signers_overlap :: "externals \<Rightarrow> signed_header \<Rightarrow> val_set \<Rightarrow> unit ve_result" where
  "has_sufficient_signers_overlap X untrusted_sh untrusted_validators =
     check_signers_overlap X untrusted_sh untrusted_validators"

definition valid_next_validator_set :: "tm_hash \<Rightarrow> tm_hash \<Rightarrow> unit ve_result" where
  "valid_next_validator_set untrusted_validators_hash trusted_next_validators_hash =
     (if trusted_next_validators_hash = untrusted_validators_hash then Ok ()
      else Err (VE_InvalidNextValidatorSet untrusted_validators_hash trusted_next_validators_hash))"

section \<open>The verifier\<close>

datatype verdict = Success | NotEnoughTrust tally | Invalid verification_error

fun verdict_from_error :: "verification_error \<Rightarrow> verdict" where
  "verdict_from_error e =
     (case ve_not_enough_trust e of Some t \<Rightarrow> NotEnoughTrust t | None \<Rightarrow> Invalid e)"

text \<open>
  The macro \<open>verdict!\<close> returns early on an error of a predicate, and
  \<open>ensure_verdict_success!\<close> on a verdict other than success.
\<close>

fun verdict_or :: "unit ve_result \<Rightarrow> ('e, verdict) result \<Rightarrow> ('e, verdict) result" where
  "verdict_or (Ok _) k = k"
| "verdict_or (Err e) k = Ok (verdict_from_error e)"
| "verdict_or Panic k = Panic"

definition ensure_success :: "('e, verdict) result \<Rightarrow> ('e, verdict) result \<Rightarrow> ('e, verdict) result" where
  "ensure_success v k = and_then v (\<lambda>verdict. if verdict = Success then k else Ok verdict)"

definition verify_validator_sets :: "externals \<Rightarrow> untrusted_block_state \<Rightarrow> ('e, verdict) result" where
  "verify_validator_sets X untrusted =
     (let sh = ubs_signed_header untrusted in
      verdict_or (validator_sets_match X (ubs_validators untrusted) (hdr_validators_hash (sh_header sh)))
     (verdict_or (case ubs_next_validators untrusted of
                    Some nv \<Rightarrow> next_validators_match X nv (hdr_next_validators_hash (sh_header sh))
                  | None \<Rightarrow> Ok ())
     (verdict_or (header_matches_commit X (sh_header sh) (bid_hash (cmt_block_id (sh_commit sh))))
     (verdict_or (valid_commit sh (ubs_validators untrusted))
       (Ok Success)))))"

definition validate_against_trusted ::
  "externals \<Rightarrow> untrusted_block_state \<Rightarrow> trusted_block_state \<Rightarrow> options \<Rightarrow> time \<Rightarrow> ('e, verdict) result" where
  "validate_against_trusted X untrusted trusted opts now =
     (let h = sh_header (ubs_signed_header untrusted) in
      verdict_or (is_within_trust_period X (tbs_header_time trusted) (opt_trusting_period opts) now)
     (verdict_or (is_monotonic_bft_time (hdr_time h) (tbs_header_time trusted))
     (verdict_or (is_matching_chain_id (hdr_chain_id h) (tbs_chain_id trusted))
     (and_then (height_increment (tbs_height trusted))
       (\<lambda>trusted_next_height.
          if ubs_height untrusted = trusted_next_height
          then verdict_or (valid_next_validator_set (hdr_validators_hash h) (tbs_next_validators_hash trusted))
                 (Ok Success)
          else verdict_or (is_monotonic_height (hdr_height h) (tbs_height trusted))
                 (Ok Success))))))"

definition check_header_is_from_past ::
  "externals \<Rightarrow> untrusted_block_state \<Rightarrow> options \<Rightarrow> time \<Rightarrow> ('e, verdict) result" where
  "check_header_is_from_past X untrusted opts now =
     verdict_or (is_header_from_past X (hdr_time (sh_header (ubs_signed_header untrusted))) (opt_clock_drift opts) now)
       (Ok Success)"

definition verify_commit :: "externals \<Rightarrow> untrusted_block_state \<Rightarrow> ('e, verdict) result" where
  "verify_commit X untrusted =
     verdict_or (has_sufficient_signers_overlap X (ubs_signed_header untrusted) (ubs_validators untrusted))
       (Ok Success)"

definition verify_commit_against_trusted ::
  "externals \<Rightarrow> untrusted_block_state \<Rightarrow> trusted_block_state \<Rightarrow> options \<Rightarrow> ('e, verdict) result" where
  "verify_commit_against_trusted X untrusted trusted opts =
     and_then (height_increment (tbs_height trusted))
       (\<lambda>trusted_next_height.
          let need_both = (ubs_height untrusted \<noteq> trusted_next_height);
              r = (if need_both
                   then has_sufficient_validators_and_signers_overlap X (ubs_signed_header untrusted)
                          (tbs_next_validators trusted) (opt_trust_threshold opts) (ubs_validators untrusted)
                   else has_sufficient_signers_overlap X (ubs_signed_header untrusted) (ubs_validators untrusted))
          in verdict_or r (Ok Success))"

definition verify_update_header ::
  "externals \<Rightarrow> untrusted_block_state \<Rightarrow> trusted_block_state \<Rightarrow> options \<Rightarrow> time \<Rightarrow> ('e, verdict) result" where
  "verify_update_header X untrusted trusted opts now =
     ensure_success (verify_validator_sets X untrusted)
    (ensure_success (validate_against_trusted X untrusted trusted opts now)
    (ensure_success (check_header_is_from_past X untrusted opts now)
    (ensure_success (verify_commit_against_trusted X untrusted trusted opts)
      (Ok Success))))"

definition verify_misbehaviour_header ::
  "externals \<Rightarrow> untrusted_block_state \<Rightarrow> trusted_block_state \<Rightarrow> options \<Rightarrow> time \<Rightarrow> ('e, verdict) result" where
  "verify_misbehaviour_header X untrusted trusted opts now =
     ensure_success (verify_validator_sets X untrusted)
    (ensure_success (validate_against_trusted X untrusted trusted opts now)
    (ensure_success (verify_commit_against_trusted X untrusted trusted opts)
      (Ok Success)))"

section \<open>Lemmas on the steps\<close>

named_theorems verdict_simps \<open>rules that take a verdict apart\<close>

lemma verdict_or_Success [verdict_simps]:
  "verdict_or r k = Ok Success \<longleftrightarrow> r = Ok () \<and> k = Ok Success"
  by (cases r) (auto split: option.splits)

lemma verdict_or_NotEnoughTrust [verdict_simps]:
  "verdict_or r k = Ok (NotEnoughTrust t) \<longleftrightarrow> r = Err (VE_NotEnoughTrust t) \<or> r = Ok () \<and> k = Ok (NotEnoughTrust t)"
proof (cases r)
  case (Err e)
  then show ?thesis by (cases e) auto
qed auto

lemma verdict_or_Panic [verdict_simps]: "verdict_or r k = Panic \<longleftrightarrow> r = Panic \<or> r = Ok () \<and> k = Panic"
  by (cases r) auto

lemma verdict_or_Err [verdict_simps]: "verdict_or r k = Err e \<longleftrightarrow> r = Ok () \<and> k = Err e"
  by (cases r) auto

lemma ensure_success_Success [verdict_simps]:
  "ensure_success v k = Ok Success \<longleftrightarrow> v = Ok Success \<and> k = Ok Success"
  by (auto simp: ensure_success_def result_simps)

lemma ensure_success_NotEnoughTrust [verdict_simps]:
  "ensure_success v k = Ok (NotEnoughTrust t) \<longleftrightarrow> v = Ok (NotEnoughTrust t) \<or> v = Ok Success \<and> k = Ok (NotEnoughTrust t)"
  by (auto simp: ensure_success_def result_simps)

lemma ensure_success_Panic [verdict_simps]:
  "ensure_success v k = Panic \<longleftrightarrow> v = Panic \<or> v = Ok Success \<and> k = Panic"
  by (auto simp: ensure_success_def result_simps)

lemma ensure_success_Err [verdict_simps]:
  "ensure_success v k = Err e \<longleftrightarrow> v = Err e \<or> v = Ok Success \<and> k = Err e"
  by (auto simp: ensure_success_def result_simps)

lemma validate_full_loop_Ok:
  "validate_full_loop s sigs = Ok () \<longleftrightarrow>
     (\<forall>cs \<in> set sigs. \<forall>a. cs_validator_address cs = Some a \<longrightarrow> set_validator s a \<noteq> None)"
  by (induction sigs) (auto split: option.splits)

lemma valid_commit_Ok:
  "valid_commit sh s = Ok () \<longleftrightarrow>
     (\<exists>cs \<in> set (cmt_signatures (sh_commit sh)). \<not> cs_is_absent cs)
     \<and> length (cmt_signatures (sh_commit sh)) = length (vs_validators s)
     \<and> (\<forall>cs \<in> set (cmt_signatures (sh_commit sh)). \<forall>a. cs_validator_address cs = Some a \<longrightarrow>
          a \<in> info_address ` set (vs_validators s))"
  by (auto simp: valid_commit_def validate_def validate_full_def validate_full_loop_Ok result_simps Let_def
      list_ex_iff set_validator_def find_None_iff split: if_splits)

lemma predicate_Ok_iffs:
  "validator_sets_match X s h = Ok () \<longleftrightarrow> h = set_hash X s"
  "next_validators_match X s h = Ok () \<longleftrightarrow> h = set_hash X s"
  "header_matches_commit X hdr h = Ok () \<longleftrightarrow> header_hash X hdr = h"
  "is_monotonic_bft_time u t = Ok () \<longleftrightarrow> t < u"
  "is_monotonic_height m n = Ok () \<longleftrightarrow> n < m"
  "is_matching_chain_id c d = Ok () \<longleftrightarrow> c = d"
  "valid_next_validator_set h g = Ok () \<longleftrightarrow> g = h"
  by (auto simp: validator_sets_match_def next_validators_match_def header_matches_commit_def
      is_monotonic_bft_time_def is_monotonic_height_def is_matching_chain_id_def valid_next_validator_set_def
      Let_def result_simps)

end
