(* ===== verification/Verifier_Lemmas.thy ===== *)
theory Verifier_Lemmas
  imports Verifier
begin

text \<open>
  What a verdict of the verifier means: the content of success, when the verdict is a lack of trust,
  that it does not panic, that honest blocks are accepted, and the forged commit it accepts.
\<close>

section \<open>What success means\<close>

text \<open>A block that is consistent in itself: hashes, commit and signers belong together.\<close>

definition well_formed_block :: "externals \<Rightarrow> untrusted_block_state \<Rightarrow> bool" where
  "well_formed_block X u \<longleftrightarrow>
     (let sh = ubs_signed_header u; h = sh_header sh; sigs = cmt_signatures (sh_commit sh) in
      hdr_validators_hash h = set_hash X (ubs_validators u)
      \<and> (\<forall>nv. ubs_next_validators u = Some nv \<longrightarrow> hdr_next_validators_hash h = set_hash X nv)
      \<and> header_hash X h = bid_hash (cmt_block_id (sh_commit sh))
      \<and> (\<exists>cs \<in> set sigs. \<not> cs_is_absent cs)
      \<and> length sigs = length (vs_validators (ubs_validators u))
      \<and> (\<forall>cs \<in> set sigs. \<forall>a. cs_validator_address cs = Some a \<longrightarrow>
           a \<in> info_address ` set (vs_validators (ubs_validators u))))"

text \<open>A block that may follow the trusted one: time, chain and height.\<close>

definition follows :: "trusted_block_state \<Rightarrow> untrusted_block_state \<Rightarrow> options \<Rightarrow> time \<Rightarrow> bool" where
  "follows T u opts now \<longleftrightarrow>
     (let h = sh_header (ubs_signed_header u) in
      now < tbs_header_time T + int (opt_trusting_period opts)
      \<and> tbs_header_time T < hdr_time h
      \<and> hdr_chain_id h = tbs_chain_id T
      \<and> unat (tbs_height T) < unat (hdr_height h)
      \<and> (unat (hdr_height h) = unat (tbs_height T) + 1 \<longrightarrow> hdr_validators_hash h = tbs_next_validators_hash T))"

definition adjacent :: "trusted_block_state \<Rightarrow> untrusted_block_state \<Rightarrow> bool" where
  "adjacent T u \<longleftrightarrow> unat (ubs_height u) = unat (tbs_height T) + 1"

text \<open>The signed power that stands behind a block, measured by the reference tally.\<close>

definition two_thirds_signed :: "externals \<Rightarrow> untrusted_block_state \<Rightarrow> bool" where
  "two_thirds_signed X u \<longleftrightarrow>
     2 * unat (vs_total_voting_power (ubs_validators u)) < 3 * signed_power X (ubs_signed_header u) (ubs_validators u)"

definition trusted_power_signed ::
  "externals \<Rightarrow> trust_threshold \<Rightarrow> trusted_block_state \<Rightarrow> untrusted_block_state \<Rightarrow> bool" where
  "trusted_power_signed X t T u \<longleftrightarrow>
     unat (vs_total_voting_power (tbs_next_validators T)) * unat (numerator t)
       < signed_power X (ubs_signed_header u) (tbs_next_validators T) * unat (denominator t)"

lemma verify_validator_sets_Success:
  "verify_validator_sets X u = Ok Success \<longleftrightarrow> well_formed_block X u"
  by (auto simp: verify_validator_sets_def well_formed_block_def verdict_simps predicate_Ok_iffs valid_commit_Ok
      Let_def split: option.splits)

lemma trust_period_Ok:
  assumes "time_crate X" "time_inv t"
  shows "is_within_trust_period X t d now = Ok () \<longleftrightarrow> now < t + int d \<and> t + int d < year_10000"
  using time_add_Ok_iff [OF assms, of d]
  by (auto simp: is_within_trust_period_def result_simps)

lemma header_from_past_Ok:
  assumes "time_crate X" "time_inv now"
  shows "is_header_from_past X t d now = Ok () \<longleftrightarrow> t < now + int d \<and> now + int d < year_10000"
  using time_add_Ok_iff [OF assms, of d]
  by (auto simp: is_header_from_past_def result_simps)

lemma height_next_iff:
  "unat (T :: height) + 1 < 2 ^ 63 \<Longrightarrow> h = T + 1 \<longleftrightarrow> unat h = unat T + 1"
  by (auto simp: unat_add_no_overflow word_unat_eq_iff)

lemma validate_against_trusted_Success:
  assumes "time_crate X" "time_inv (tbs_header_time T)"
  shows "validate_against_trusted X u T opts now = Ok Success \<longleftrightarrow>
    follows T u opts now \<and> tbs_header_time T + int (opt_trusting_period opts) < year_10000
    \<and> unat (tbs_height T) + 1 < 2 ^ 63"
  using height_next_iff [of "tbs_height T" "hdr_height (sh_header (ubs_signed_header u))"]
  by (auto simp: validate_against_trusted_def follows_def verdict_simps predicate_Ok_iffs Let_def ubs_height_def
      trust_period_Ok [OF assms] and_then_eq_Ok height_increment_Ok_iff word_less_nat_alt)

lemma check_signers_overlap_sound:
  assumes "set_inv s" "keys_by_address (vs_validators s)" "check_signers_overlap X sh s = Ok ()"
  shows "2 * unat (vs_total_voting_power s) < 3 * signed_power X sh s"
proof -
  from assms(3) obtain y where "voting_power_in X sh s two_thirds = Ok y" "tally_check y = Ok ()"
    by (auto simp: check_signers_overlap_def result_simps)
  with voting_power_in_Ok(4) [OF assms(1) small_threshold_two_thirds assms(2)] show ?thesis by fastforce
qed

lemma keys_by_address_append: "keys_by_address (a @ b) \<Longrightarrow> keys_by_address a \<and> keys_by_address b"
  by (auto simp: keys_by_address_def)

lemma check_enough_trust_sound:
  assumes "set_inv s" "set_inv u" "small_threshold t" "keys_by_address (vs_validators s @ vs_validators u)"
    and "check_enough_trust_and_signers X sh s t u = Ok ()"
  shows "unat (vs_total_voting_power s) * unat (numerator t) < signed_power X sh s * unat (denominator t)"
    and "2 * unat (vs_total_voting_power u) < 3 * signed_power X sh u"
proof -
  from assms(5) obtain a b where r: "voting_power_in_sets X sh (s, t) (u, two_thirds) = Ok (a, b)"
      "tally_check a = Ok ()" "tally_check b = Ok ()"
    by (auto simp: check_enough_trust_and_signers_def result_simps)
  then have "voting_power_in X sh s t = Ok a" "voting_power_in X sh u two_thirds = Ok b"
    using voting_power_in_sets_eq [OF assms(1,4)] by (auto simp: result_simps)
  moreover have "keys_by_address (vs_validators s)" "keys_by_address (vs_validators u)"
    using keys_by_address_append [OF assms(4)] by simp_all
  ultimately show "unat (vs_total_voting_power s) * unat (numerator t) < signed_power X sh s * unat (denominator t)"
      "2 * unat (vs_total_voting_power u) < 3 * signed_power X sh u"
    using voting_power_in_Ok(4) [OF assms(1,3), of X sh a] r(2,3)
      voting_power_in_Ok(4) [OF assms(2) small_threshold_two_thirds, of X sh b] by (simp_all add: mult.commute)
qed

lemma verify_commit_against_trusted_Success:
  assumes "set_inv (ubs_validators u)" "set_inv (tbs_next_validators T)" "small_threshold (opt_trust_threshold opts)"
    and "keys_by_address (vs_validators (tbs_next_validators T) @ vs_validators (ubs_validators u))"
    and "verify_commit_against_trusted X u T opts = Ok Success"
  shows "two_thirds_signed X u" "\<not> adjacent T u \<Longrightarrow> trusted_power_signed X (opt_trust_threshold opts) T u"
proof -
  let ?sh = "ubs_signed_header u"
  from assms(5) have fit: "unat (tbs_height T) + 1 < 2 ^ 63"
    and r: "if adjacent T u then check_signers_overlap X ?sh (ubs_validators u) = Ok ()
      else check_enough_trust_and_signers X ?sh (tbs_next_validators T) (opt_trust_threshold opts) (ubs_validators u) = Ok ()"
    using height_next_iff [of "tbs_height T" "ubs_height u"]
    by (auto simp: verify_commit_against_trusted_def verdict_simps and_then_eq_Ok height_increment_Ok_iff Let_def
        adjacent_def has_sufficient_signers_overlap_def has_sufficient_validators_and_signers_overlap_def
        split: if_splits)
  note keys = keys_by_address_append [OF assms(4)]
  show "two_thirds_signed X u" "\<not> adjacent T u \<Longrightarrow> trusted_power_signed X (opt_trust_threshold opts) T u"
    using r check_signers_overlap_sound [OF assms(1) conjunct2 [OF keys]]
      check_enough_trust_sound [OF assms(2,1,3,4)]
    by (auto simp: two_thirds_signed_def trusted_power_signed_def split: if_splits)
qed

lemma check_enough_trust_NotEnough:
  "check_signers_overlap X sh s \<noteq> Err (VE_NotEnoughTrust t)"
  using check_signers_overlap_failure(1) [of X sh s] by (auto simp: tally_error_def)

lemma predicates_not_trust:
  "validator_sets_match X s h \<noteq> Err (VE_NotEnoughTrust t)" "next_validators_match X s h \<noteq> Err (VE_NotEnoughTrust t)"
  "header_matches_commit X hdr h \<noteq> Err (VE_NotEnoughTrust t)" "is_monotonic_bft_time a b \<noteq> Err (VE_NotEnoughTrust t)"
  "is_monotonic_height m n \<noteq> Err (VE_NotEnoughTrust t)" "is_matching_chain_id c d \<noteq> Err (VE_NotEnoughTrust t)"
  "valid_next_validator_set h g \<noteq> Err (VE_NotEnoughTrust t)" "is_within_trust_period X a p b \<noteq> Err (VE_NotEnoughTrust t)"
  "is_header_from_past X a p b \<noteq> Err (VE_NotEnoughTrust t)"
  by (auto simp: validator_sets_match_def next_validators_match_def header_matches_commit_def
      is_monotonic_bft_time_def is_monotonic_height_def is_matching_chain_id_def valid_next_validator_set_def
      is_within_trust_period_def is_header_from_past_def Let_def result_simps split: if_splits)

lemma valid_commit_not_trust: "valid_commit sh s \<noteq> Err (VE_NotEnoughTrust t)"
proof -
  have "validate_full_loop s sigs \<noteq> Err (VE_NotEnoughTrust t)" for sigs
    by (induction sigs) (auto split: option.splits)
  then show ?thesis
    by (auto simp: valid_commit_def validate_def validate_full_def Let_def result_simps split: if_splits)
qed

text \<open>The verdict that makes the client bisect is given only for a block at least two heights ahead.\<close>

lemma verify_update_header_NotEnoughTrust:
  assumes "verify_update_header X u T opts now = (Ok (NotEnoughTrust t) :: ('e, verdict) result)"
  shows "unat (tbs_height T) + 1 < unat (ubs_height u)" "unat (tbs_height T) + 1 < 2 ^ 63"
proof -
  have n: "verify_validator_sets X u \<noteq> (Ok (NotEnoughTrust t) :: ('e, verdict) result)"
    "validate_against_trusted X u T opts now \<noteq> (Ok (NotEnoughTrust t) :: ('e, verdict) result)"
    "check_header_is_from_past X u opts now \<noteq> (Ok (NotEnoughTrust t) :: ('e, verdict) result)"
    by (auto simp: verify_validator_sets_def validate_against_trusted_def check_header_is_from_past_def
        verdict_simps predicates_not_trust valid_commit_not_trust Let_def and_then_eq_Ok
        split: option.splits if_splits)
  with assms have va: "validate_against_trusted X u T opts now = (Ok Success :: ('e, verdict) result)"
    and vc: "verify_commit_against_trusted X u T opts = (Ok (NotEnoughTrust t) :: ('e, verdict) result)"
    by (auto simp: verify_update_header_def verdict_simps)
  from va show fit: "unat (tbs_height T) + 1 < 2 ^ 63"
    by (auto simp: validate_against_trusted_def verdict_simps and_then_eq_Ok height_increment_Ok_iff Let_def)
  from vc fit have "ubs_height u \<noteq> tbs_height T + 1"
    using check_enough_trust_NotEnough
    by (auto simp: verify_commit_against_trusted_def verdict_simps and_then_eq_Ok height_increment_Ok_iff
        has_sufficient_signers_overlap_def Let_def split: if_splits)
  moreover from this va have "tbs_height T < ubs_height u"
    by (auto simp: validate_against_trusted_def verdict_simps and_then_eq_Ok height_increment_Ok_iff
        predicate_Ok_iffs ubs_height_def Let_def split: if_splits)
  ultimately show "unat (tbs_height T) + 1 < unat (ubs_height u)"
    using height_next_iff [OF fit] by (auto simp: word_less_nat_alt)
qed
section \<open>Panics\<close>

lemma predicates_neq_Panic [simp]:
  "validator_sets_match X s h \<noteq> Panic" "next_validators_match X s h \<noteq> Panic"
  "header_matches_commit X hdr h \<noteq> Panic" "is_monotonic_bft_time a b \<noteq> Panic"
  "is_matching_chain_id c d \<noteq> Panic" "valid_next_validator_set h g \<noteq> Panic"
  "is_within_trust_period X a p b \<noteq> Panic" "is_header_from_past X a p b \<noteq> Panic"
  by (auto simp: validator_sets_match_def next_validators_match_def header_matches_commit_def
      is_monotonic_bft_time_def is_matching_chain_id_def valid_next_validator_set_def
      is_within_trust_period_def is_header_from_past_def Let_def result_simps split: if_splits)

lemma valid_commit_neq_Panic [simp]: "valid_commit sh s \<noteq> Panic"
proof -
  have "validate_full_loop s sigs \<noteq> Panic" for sigs
    by (induction sigs) (auto split: option.splits)
  then show ?thesis
    by (auto simp: valid_commit_def validate_def validate_full_def Let_def result_simps split: if_splits)
qed

lemma is_monotonic_height_neq_Panic: "unat n + 1 < 2 ^ 63 \<Longrightarrow> is_monotonic_height m n \<noteq> Panic"
  by (auto simp: is_monotonic_height_def result_simps height_increment_Panic_iff)

lemma verify_update_header_neq_Err: "verify_update_header X u T opts now \<noteq> Err e"
  by (auto simp: verify_update_header_def verify_validator_sets_def validate_against_trusted_def
      check_header_is_from_past_def verify_commit_against_trusted_def verdict_simps Let_def and_then_eq_Err
      split: option.splits if_splits)

lemma verify_update_header_neq_Panic:
  assumes "unat (tbs_height T) + 1 < 2 ^ 63" "length (cmt_signatures (sh_commit (ubs_signed_header u))) \<le> 2 ^ 31"
  shows "verify_update_header X u T opts now \<noteq> (Panic :: ('e, verdict) result)"
proof -
  have "verify_validator_sets X u \<noteq> (Panic :: ('e, verdict) result)"
    "check_header_is_from_past X u opts now \<noteq> (Panic :: ('e, verdict) result)"
    by (auto simp: verify_validator_sets_def check_header_is_from_past_def verdict_simps Let_def split: option.splits)
  moreover have "validate_against_trusted X u T opts now \<noteq> (Panic :: ('e, verdict) result)"
    using assms(1) is_monotonic_height_neq_Panic [OF assms(1)]
    by (auto simp: validate_against_trusted_def verdict_simps Let_def and_then_eq_Panic height_increment_Panic_iff
        split: if_splits)
  moreover have "verify_commit_against_trusted X u T opts \<noteq> (Panic :: ('e, verdict) result)"
    using assms check_signers_overlap_failure(2) check_enough_trust_neq_Panic
    by (auto simp: verify_commit_against_trusted_def verdict_simps Let_def and_then_eq_Panic
        height_increment_Panic_iff has_sufficient_signers_overlap_def has_sufficient_validators_and_signers_overlap_def
        split: if_splits)
  ultimately show ?thesis by (auto simp: verify_update_header_def verdict_simps)
qed

section \<open>Completeness\<close>

lemma tally_check_complete:
  assumes "set_inv s" "small_threshold t" "keys_by_address (vs_validators s)" "voting_power_in X sh s t = Ok y"
    and "unat (vs_total_voting_power s) * unat (numerator t) < signed_power X sh s * unat (denominator t)"
  shows "tally_check y = Ok ()"
  using voting_power_in_Ok(4) [OF assms(1-4)] assms(5) by blast

lemma verify_commit_against_trusted_complete:
  assumes inv: "set_inv (ubs_validators u)" "set_inv (tbs_next_validators T)" "small_threshold (opt_trust_threshold opts)"
    and keys: "keys_by_address (vs_validators (tbs_next_validators T) @ vs_validators (ubs_validators u))"
    and wf: "well_formed_commit (ubs_signed_header u)"
    and sigs: "\<forall>v \<in> set (vs_validators (tbs_next_validators T)) \<union> set (vs_validators (ubs_validators u)).
      info_address v \<in> set (commit_addresses (ubs_signed_header u)) \<longrightarrow> signs X (ubs_signed_header u) v"
    and enough: "two_thirds_signed X u" "\<not> adjacent T u \<Longrightarrow> trusted_power_signed X (opt_trust_threshold opts) T u"
    and fit: "unat (tbs_height T) + 1 < 2 ^ 63"
  shows "verify_commit_against_trusted X u T opts = Ok Success"
proof -
  let ?sh = "ubs_signed_header u" and ?s = "ubs_validators u" and ?n = "tbs_next_validators T"
  note k = keys_by_address_append [OF keys]
  obtain y where y: "voting_power_in X ?sh ?s two_thirds = Ok y"
    using voting_power_in_complete [OF wf conjunct2 [OF k]] sigs by blast
  have cy: "tally_check y = Ok ()"
    using enough(1) by (intro tally_check_complete [OF inv(1) _ conjunct2 [OF k] y])
      (simp_all add: two_thirds_signed_def mult.commute)
  show ?thesis
  proof (cases "adjacent T u")
    case True
    then have "ubs_height u = tbs_height T + 1" using height_next_iff [OF fit] by (simp add: adjacent_def)
    with fit y cy show ?thesis
      by (simp add: verify_commit_against_trusted_def has_sufficient_signers_overlap_def check_signers_overlap_def
          and_then_eq_Ok height_increment_Ok_iff Let_def)
  next
    case False
    obtain z where z: "voting_power_in X ?sh ?n (opt_trust_threshold opts) = Ok z"
      using voting_power_in_complete [OF wf conjunct1 [OF k]] sigs by blast
    have "tally_check z = Ok ()"
      using enough(2) [OF False] by (intro tally_check_complete [OF inv(2,3) conjunct1 [OF k] z])
        (simp add: trusted_power_signed_def)
    moreover have "voting_power_in_sets X ?sh (?n, opt_trust_threshold opts) (?s, two_thirds) = Ok (z, y)"
      using voting_power_in_sets_eq [OF inv(2) keys] y z by simp
    moreover have "ubs_height u \<noteq> tbs_height T + 1" using False height_next_iff [OF fit] by (simp add: adjacent_def)
    ultimately show ?thesis using fit cy
      by (simp add: verify_commit_against_trusted_def has_sufficient_validators_and_signers_overlap_def
          check_enough_trust_and_signers_def and_then_eq_Ok height_increment_Ok_iff Let_def)
  qed
qed

section \<open>Both directions\<close>

text \<open>What the arithmetic on times and heights leaves out at the ends of their ranges.\<close>

definition in_range :: "trusted_block_state \<Rightarrow> options \<Rightarrow> time \<Rightarrow> bool" where
  "in_range T opts now \<longleftrightarrow>
     tbs_header_time T + int (opt_trusting_period opts) < year_10000
     \<and> now + int (opt_clock_drift opts) < year_10000 \<and> unat (tbs_height T) + 1 < 2 ^ 63"

lemma verify_update_header_Success_parts:
  "verify_update_header X u T opts now = (Ok Success :: ('e, verdict) result) \<longleftrightarrow>
     verify_validator_sets X u = (Ok Success :: ('e, verdict) result)
     \<and> validate_against_trusted X u T opts now = (Ok Success :: ('e, verdict) result)
     \<and> check_header_is_from_past X u opts now = (Ok Success :: ('e, verdict) result)
     \<and> verify_commit_against_trusted X u T opts = (Ok Success :: ('e, verdict) result)"
  by (auto simp: verify_update_header_def verdict_simps)

lemma verify_update_header_Success_cases:
  assumes "time_crate X" "time_inv (tbs_header_time T)" "time_inv now"
  shows "verify_update_header X u T opts now = (Ok Success :: ('e, verdict) result) \<longleftrightarrow>
    well_formed_block X u \<and> follows T u opts now \<and> in_range T opts now
    \<and> hdr_time (sh_header (ubs_signed_header u)) < now + int (opt_clock_drift opts)
    \<and> verify_commit_against_trusted X u T opts = (Ok Success :: ('e, verdict) result)"
  unfolding verify_update_header_Success_parts
  by (auto simp: verify_validator_sets_Success validate_against_trusted_Success [OF assms(1,2)] in_range_def
      check_header_is_from_past_def verdict_simps header_from_past_Ok [OF assms(1,3)])

section \<open>A forged commit\<close>

lemma forged_block_accepted:
  assumes X: "time_crate X" "time_inv (tbs_header_time T)" "time_inv now"
    and s: "set_inv s" "vs_validators s = v0 # vs" "0 < vs_total_voting_power s" "length vs < 2 ^ 31"
    and u: "ubs_validators u = readdress a s" "ubs_signed_header u = sh"
      "hdr_validators_hash (sh_header sh) = set_hash X s"
      "\<forall>nv. ubs_next_validators u = Some nv \<longrightarrow> hdr_next_validators_hash (sh_header sh) = set_hash X nv"
      "bid_hash (cmt_block_id (sh_commit sh)) = header_hash X (sh_header sh)"
      "cmt_signatures (sh_commit sh) = BlockIdFlagCommit a ts (Some sg) # replicate (length vs) BlockIdFlagAbsent"
    and sig: "signature_verify X (info_pub_key v0) (precommit_bytes X sh ts) sg = Ok ()"
    and f: "follows T u opts now" "adjacent T u" "unat (tbs_height T) + 1 < 2 ^ 63"
      "tbs_header_time T + int (opt_trusting_period opts) < year_10000"
      "hdr_time (sh_header sh) < now + int (opt_clock_drift opts)" "now + int (opt_clock_drift opts) < year_10000"
  shows "verify_update_header X u T opts now = Ok Success"
proof -
  have 1: "well_formed_block X u"
    using u s(2) by (auto simp: well_formed_block_def Let_def readdress_hash cs_is_absent_def vs_validators_readdress)
  have "ubs_height u = tbs_height T + 1" using f(2) height_next_iff [OF f(3)] by (simp add: adjacent_def)
  moreover have "check_signers_overlap X sh (readdress a s) = Ok ()"
    using u(6) s(4) by (intro one_vote_tallies_all [OF s(1,2,3) _ _ sig]) (simp_all add: filter_replicate)
  ultimately have "verify_commit_against_trusted X u T opts = Ok Success"
    using f(3) u(1,2) by (simp add: verify_commit_against_trusted_def has_sufficient_signers_overlap_def
        and_then_eq_Ok height_increment_Ok_iff Let_def)
  then show ?thesis
    using 1 f u(2) by (simp add: verify_update_header_Success_cases [OF X] in_range_def)
qed

end
