(* ===== verification/Light_Client.thy ===== *)
theory Light_Client
  imports Effects Scheduler Verifier_Lemmas
begin

text \<open>
  \<open>light-client/src\<close>: the state and its verification trace (\<open>state.rs\<close>), the predicates of its
  contracts (\<open>contracts.rs\<close>), the client itself (\<open>light_client.rs\<close>) and its instance (\<open>instance.rs\<close>).

  The clock and the peer are functions of the number of calls made so far, so that both may answer
  differently every time and a peer may answer with anything; the state carries the two counters.
\<close>

section \<open>Errors and interfaces\<close>

datatype io_error =
    IO_Rpc string
  | IO_InvalidHeight
  | IO_HeightTooHigh height height
  | IO_InvalidValidatorSet tm_error
  | IO_Timeout duration
  | IO_Runtime string

fun io_is_timeout :: "io_error \<Rightarrow> duration option" where
  "io_is_timeout (IO_Timeout d) = Some d"
| "io_is_timeout _ = None"

datatype lc_error =
    LE_Io io_error
  | LE_NoPrimary
  | LE_NoWitnesses
  | LE_NoWitnessesLeft
  | LE_ForkDetected "peer_id list"
  | LE_NoInitialTrustedState
  | LE_NoTrustedState status
  | LE_TargetLowerThanTrustedState height height
  | LE_HeightTooHigh height height
  | LE_TrustedStateOutsideTrustingPeriod light_block options
  | LE_BisectionFailed height height
  | LE_InvalidLightBlock verification_error
  | LE_InvalidAdjacentHeaders tm_hash tm_hash
  | LE_MissingLastBlockId height
  | LE_ChannelDisconnected
  | LE_Sled string
  | LE_SerdeCbor string

fun le_not_enough_trust :: "lc_error \<Rightarrow> tally option" where
  "le_not_enough_trust (LE_InvalidLightBlock e) = ve_not_enough_trust e"
| "le_not_enough_trust _ = None"

fun le_has_expired :: "lc_error \<Rightarrow> bool" where
  "le_has_expired (LE_InvalidLightBlock e) \<longleftrightarrow> ve_has_expired e"
| "le_has_expired _ \<longleftrightarrow> False"

fun le_is_timeout :: "lc_error \<Rightarrow> duration option" where
  "le_is_timeout (LE_Io e) = io_is_timeout e"
| "le_is_timeout _ = None"

fun le_is_io :: "lc_error \<Rightarrow> bool" where
  "le_is_io (LE_Io e) \<longleftrightarrow> True"
| "le_is_io _ \<longleftrightarrow> False"

fun le_is_height_too_high :: "lc_error \<Rightarrow> bool" where
  "le_is_height_too_high (LE_HeightTooHigh h l) \<longleftrightarrow> True"
| "le_is_height_too_high _ \<longleftrightarrow> False"

datatype at_height = At height | Highest

definition at_height_from :: "height \<Rightarrow> at_height" where
  "at_height_from h = (if h = 0 then Highest else At h)"

section \<open>State\<close>

record 's lc_state =
  st_light_store :: 's
  st_verification_trace :: "height \<rightharpoonup> height list"
  st_ticks :: nat
  st_fetches :: nat

definition state_new :: "'s \<Rightarrow> 's lc_state" where
  "state_new s = \<lparr>st_light_store = s, st_verification_trace = Map.empty, st_ticks = 0, st_fetches = 0\<rparr>"

definition trace_block :: "height \<Rightarrow> height \<Rightarrow> 's lc_state \<Rightarrow> ('e, 's lc_state) result" where
  "trace_block target h st =
     requires (h \<le> target)
       (let trace = (case st_verification_trace st target of Some t \<Rightarrow> t | None \<Rightarrow> [target]) in
        Ok (st\<lparr>st_verification_trace := (st_verification_trace st)(target \<mapsto> hs_insert h trace)\<rparr>))"

definition get_trace :: "'s store_ops \<Rightarrow> 's lc_state \<Rightarrow> height \<Rightarrow> light_block list" where
  "get_trace S st target =
     (let trace = (case st_verification_trace st target of Some t \<Rightarrow> t | None \<Rightarrow> []) in
      sort_key lb_height (List.map_filter (get_trusted_or_verified S (st_light_store st)) trace))"

section \<open>Predicates of the contracts\<close>

definition trusted_store_contains_block_at_target_height :: "'s store_ops \<Rightarrow> 's \<Rightarrow> height \<Rightarrow> bool" where
  "trusted_store_contains_block_at_target_height S s target \<longleftrightarrow>
     so_get S s target Verified \<noteq> None \<or> so_get S s target Trusted \<noteq> None"

definition lc_is_within_trust_period :: "externals \<Rightarrow> light_block \<Rightarrow> duration \<Rightarrow> time \<Rightarrow> bool" where
  "lc_is_within_trust_period X b trusting_period now \<longleftrightarrow>
     (case time_sub X now trusting_period of
        Ok start \<Rightarrow> hdr_time (sh_header (lb_signed_header b)) > start
      | _ \<Rightarrow> False)"

definition light_store_contains_block_within_trusting_period ::
  "externals \<Rightarrow> 's store_ops \<Rightarrow> 's \<Rightarrow> duration \<Rightarrow> time \<Rightarrow> bool" where
  "light_store_contains_block_within_trusting_period X S s trusting_period now \<longleftrightarrow>
     list_ex (\<lambda>lb. lc_is_within_trust_period X lb trusting_period now) (so_all S s Trusted)"

section \<open>The client\<close>

type_synonym verifier =
  "untrusted_block_state \<Rightarrow> trusted_block_state \<Rightarrow> options \<Rightarrow> time \<Rightarrow> (lc_error, verdict) result"

record 's light_client =
  lc_peer :: peer_id
  lc_options :: options
  lc_clock :: "nat \<Rightarrow> time"
  lc_scheduler :: "'s store_ops \<Rightarrow> 's \<Rightarrow> height \<Rightarrow> height \<Rightarrow> (lc_error, height) result"
  lc_verifier :: verifier
  lc_io :: "nat \<Rightarrow> at_height \<Rightarrow> (io_error, light_block) result"

type_synonym ('s, 'a) lc_call = "('s lc_state, lc_error, 'a) call"

definition clock_now :: "'s light_client \<Rightarrow> ('s, time) lc_call" where
  "clock_now C st = (st\<lparr>st_ticks := st_ticks st + 1\<rparr>, Ok (lc_clock C (st_ticks st)))"

definition fetch_light_block :: "'s light_client \<Rightarrow> at_height \<Rightarrow> ('s, light_block) lc_call" where
  "fetch_light_block C h st =
     (st\<lparr>st_fetches := st_fetches st + 1\<rparr>, map_err LE_Io (lc_io C (st_fetches st) h))"

definition store_insert :: "'s store_ops \<Rightarrow> light_block \<Rightarrow> status \<Rightarrow> ('s, unit) lc_call" where
  "store_insert S b status st = (st\<lparr>st_light_store := so_insert S (st_light_store st) b status\<rparr>, Ok ())"

definition store_update :: "'s store_ops \<Rightarrow> light_block \<Rightarrow> status \<Rightarrow> ('s, unit) lc_call" where
  "store_update S b status st = (st\<lparr>st_light_store := so_update S (st_light_store st) b status\<rparr>, Ok ())"

text \<open>The contract of \<open>get_or_fetch_block\<close> asserts that the block comes from the client's peer.\<close>

definition get_or_fetch_block ::
  "'s store_ops \<Rightarrow> 's light_client \<Rightarrow> height \<Rightarrow> ('s, light_block \<times> status) lc_call" where
  "get_or_fetch_block S C h =
     sbind (sbind (gets (\<lambda>st. Ok (get_non_failed S (st_light_store st) h)))
       (\<lambda>found. case found of
          Some block \<Rightarrow> lift (Ok block)
        | None \<Rightarrow>
            sbind (fetch_light_block C (At h)) (\<lambda>block.
            sbind (store_insert S block Unverified) (\<lambda>_.
            lift (Ok (block, Unverified))))))
       (\<lambda>block. lift (requires (lb_provider (fst block) = lc_peer C) (Ok block)))"

subsection \<open>Forward verification\<close>

text \<open>What the loop does with a verdict, and one turn of the loop.\<close>

definition record_verdict ::
  "'s store_ops \<Rightarrow> height \<Rightarrow> light_block \<Rightarrow> light_block \<Rightarrow> status \<Rightarrow> verdict \<Rightarrow> ('s, unit) lc_call" where
  "record_verdict S current_height trusted_block current_block status verdict =
     (case verdict of
        Success \<Rightarrow>
          sbind (store_update S current_block (most_trusted Verified status)) (\<lambda>_.
          modify (trace_block current_height (lb_height trusted_block)))
      | Invalid e \<Rightarrow>
          sbind (store_update S current_block Failed) (\<lambda>_.
          lift (Err (LE_InvalidLightBlock e)))
      | NotEnoughTrust _ \<Rightarrow> store_update S current_block Unverified)"

datatype step = Finished light_block | Continue height

definition forward_step ::
  "externals \<Rightarrow> 's store_ops \<Rightarrow> 's light_client \<Rightarrow> height \<Rightarrow> height \<Rightarrow> ('s, step) lc_call" where
  "forward_step X S C target_height current_height =
     sbind (clock_now C) (\<lambda>now.
     sbind (gets (\<lambda>st. ok_or LE_NoInitialTrustedState
       (highest_trusted_or_verified_before S (st_light_store st) target_height))) (\<lambda>trusted_block.
     sbind (fail_if (target_height < lb_height trusted_block)
       (LE_TargetLowerThanTrustedState target_height (lb_height trusted_block))) (\<lambda>_.
     sbind (fail_if (\<not> lc_is_within_trust_period X trusted_block (opt_trusting_period (lc_options C)) now)
       (LE_TrustedStateOutsideTrustingPeriod trusted_block (lc_options C))) (\<lambda>_.
     sbind (modify (trace_block target_height current_height)) (\<lambda>_.
     if target_height = lb_height trusted_block then lift (Ok (Finished trusted_block))
     else
       sbind (get_or_fetch_block S C current_height) (\<lambda>(current_block, status).
       sbind (lift (lc_verifier C (as_untrusted_state current_block) (as_trusted_state trusted_block)
         (lc_options C) now)) (\<lambda>verdict.
       sbind (record_verdict S current_height trusted_block current_block status verdict) (\<lambda>_.
       sbind (gets (\<lambda>st. schedule (lc_scheduler C) S (st_light_store st) current_height target_height))
         (\<lambda>next_height. lift (Ok (Continue next_height)))))))))))"

text \<open>The loop itself; \<open>None\<close> is a loop that never ends.\<close>

partial_function (option) forward_loop ::
  "externals \<Rightarrow> 's store_ops \<Rightarrow> 's light_client \<Rightarrow> height \<Rightarrow> height \<Rightarrow> 's lc_state \<Rightarrow>
   ('s lc_state \<times> (lc_error, light_block) result) option" where
  "forward_loop X S C target current st =
     (case forward_step X S C target current st of
        (st', Ok (Continue h)) \<Rightarrow> forward_loop X S C target h st'
      | (st', Ok (Finished b)) \<Rightarrow> Some (st', Ok b)
      | (st', Err e) \<Rightarrow> Some (st', Err e)
      | (st', Panic) \<Rightarrow> Some (st', Panic))"

definition verify_forward ::
  "externals \<Rightarrow> 's store_ops \<Rightarrow> 's light_client \<Rightarrow> height \<Rightarrow> 's lc_state \<Rightarrow>
   ('s lc_state \<times> (lc_error, light_block) result) option" where
  "verify_forward X S C target st = forward_loop X S C target target st"

subsection \<open>Backward verification\<close>

definition lowest_root :: "'s store_ops \<Rightarrow> height \<Rightarrow> ('s, light_block) lc_call" where
  "lowest_root S target =
     gets (\<lambda>st. ok_or LE_NoInitialTrustedState
       (or_else (highest_trusted_or_verified_before S (st_light_store st) target)
         (lowest_trusted_or_verified S (st_light_store st))))"

text \<open>Without the feature \<open>unstable\<close>.\<close>

definition verify_backward :: "'s store_ops \<Rightarrow> height \<Rightarrow> ('s, light_block) lc_call" where
  "verify_backward S target =
     sbind (lowest_root S target) (\<lambda>trusted_state.
     lift (Err (LE_TargetLowerThanTrustedState target (lb_height trusted_state))))"

text \<open>With it: the loop over the heights from below the root down to the target.\<close>

fun backward_loop ::
  "externals \<Rightarrow> 's store_ops \<Rightarrow> 's light_client \<Rightarrow> light_block \<Rightarrow> height list \<Rightarrow> ('s, light_block) lc_call" where
  "backward_loop X S C latest [] = lift (Ok latest)"
| "backward_loop X S C latest (h # hs) =
     sbind (get_or_fetch_block S C h) (\<lambda>(current, _).
     sbind (lift (ok_or (LE_MissingLastBlockId (lb_height latest))
       (hdr_last_block_id (sh_header (lb_signed_header latest))))) (\<lambda>last_id.
     let current_hash = header_hash X (sh_header (lb_signed_header current)) in
     sbind (fail_if (current_hash \<noteq> bid_hash last_id)
       (LE_InvalidAdjacentHeaders current_hash (bid_hash last_id))) (\<lambda>_.
     sbind (store_insert S current Trusted) (\<lambda>_.
     sbind (store_insert S latest Trusted) (\<lambda>_.
     sbind (modify (trace_block (lb_height latest) (lb_height current))) (\<lambda>_.
     backward_loop X S C current hs))))))"

definition verify_backward_unstable ::
  "externals \<Rightarrow> 's store_ops \<Rightarrow> 's light_client \<Rightarrow> height \<Rightarrow> ('s, light_block) lc_call" where
  "verify_backward_unstable X S C target =
     sbind (lowest_root S target) (\<lambda>root.
     sbind (lift (requires (lb_height root \<ge> target) (Ok ()))) (\<lambda>_.
     sbind (clock_now C) (\<lambda>now.
     sbind (fail_if (\<not> lc_is_within_trust_period X root (opt_trusting_period (lc_options C)) now)
       (LE_TrustedStateOutsideTrustingPeriod root (lc_options C))) (\<lambda>_.
     sbind (backward_loop X S C root (map of_nat (rev [unat target ..< unat (lb_height root)]))) (\<lambda>latest.
     lift (requires (lb_height latest = target) (Ok latest)))))))"

subsection \<open>Entry points\<close>

text \<open>The body of \<open>verify_to_target\<close> under its postcondition, given the backward verification in use.\<close>

definition verify_to_target_with ::
  "(height \<Rightarrow> ('s, light_block) lc_call) \<Rightarrow> externals \<Rightarrow> 's store_ops \<Rightarrow> 's light_client \<Rightarrow> height \<Rightarrow> 's lc_state \<Rightarrow>
   ('s lc_state \<times> (lc_error, light_block) result) option" where
  "verify_to_target_with backward X S C target st =
     map_option (\<lambda>(st', r). (st', ensures (\<lambda>_.
         Ok (trusted_store_contains_block_at_target_height S (st_light_store st') target)) r))
      (case get_trusted_or_verified S (st_light_store st) target of
         Some light_block \<Rightarrow> Some (st, Ok light_block)
       | None \<Rightarrow>
          (case or_else (highest_trusted_or_verified_before S (st_light_store st) target)
                 (lowest_trusted_or_verified S (st_light_store st)) of
             None \<Rightarrow> Some (st, Err LE_NoInitialTrustedState)
           | Some highest \<Rightarrow>
               if target \<ge> lb_height highest then verify_forward X S C target st
               else Some (backward target st)))"

definition verify_to_target ::
  "externals \<Rightarrow> 's store_ops \<Rightarrow> 's light_client \<Rightarrow> height \<Rightarrow> 's lc_state \<Rightarrow>
   ('s lc_state \<times> (lc_error, light_block) result) option" where
  "verify_to_target X S C = verify_to_target_with (verify_backward S) X S C"

definition verify_to_target_unstable ::
  "externals \<Rightarrow> 's store_ops \<Rightarrow> 's light_client \<Rightarrow> height \<Rightarrow> 's lc_state \<Rightarrow>
   ('s lc_state \<times> (lc_error, light_block) result) option" where
  "verify_to_target_unstable X S C = verify_to_target_with (verify_backward_unstable X S C) X S C"

definition verify_to_highest ::
  "externals \<Rightarrow> 's store_ops \<Rightarrow> 's light_client \<Rightarrow> 's lc_state \<Rightarrow>
   ('s lc_state \<times> (lc_error, light_block) result) option" where
  "verify_to_highest X S C st =
     (case fetch_light_block C Highest st of
        (st', Ok target_block) \<Rightarrow> verify_to_target X S C (lb_height target_block) st'
      | (st', Err e) \<Rightarrow> Some (st', Err e)
      | (st', Panic) \<Rightarrow> Some (st', Panic))"

datatype target_or_latest = Latest light_block | Target light_block

definition get_target_block_or_latest ::
  "'s store_ops \<Rightarrow> 's light_client \<Rightarrow> height \<Rightarrow> ('s, target_or_latest) lc_call" where
  "get_target_block_or_latest S C h st =
     (case get_non_failed S (st_light_store st) h of
        Some (block, _) \<Rightarrow> (st, Ok (Target block))
      | None \<Rightarrow>
          (case fetch_light_block C (At h) st of
             (st', Ok block) \<Rightarrow> (st', Ok (Target block))
           | (st', Panic) \<Rightarrow> (st', Panic)
           | (st', Err _) \<Rightarrow>
               sbind (fetch_light_block C Highest) (\<lambda>latest.
                 lift (Ok (if lb_height latest = h then Target latest else Latest latest))) st'))"

section \<open>Instance\<close>

record 's lc_instance =
  in_light_client :: "'s light_client"
  in_state :: "'s lc_state"

definition instance_peer_id :: "'s lc_instance \<Rightarrow> peer_id" where
  "instance_peer_id i = lc_peer (in_light_client i)"

definition latest_trusted :: "'s store_ops \<Rightarrow> 's lc_instance \<Rightarrow> light_block option" where
  "latest_trusted S i = so_highest S (st_light_store (in_state i)) Trusted"

definition trust_block :: "'s store_ops \<Rightarrow> light_block \<Rightarrow> 's lc_instance \<Rightarrow> 's lc_instance" where
  "trust_block S lb i = i\<lparr>in_state := (in_state i)\<lparr>st_light_store := so_update S (st_light_store (in_state i)) lb Trusted\<rparr>\<rparr>"

end
