(* ===== verification/Light_Client_Lemmas.thy ===== *)
theory Light_Client_Lemmas
  imports Light_Client
begin

text \<open>
  What the light client guarantees whatever its peer answers: forward verification ends, every
  block it comes to trust hangs on the initial trust by a chain of successful verifications, and
  the assertion about the target height never fails. With a peer that answers as asked, no
  assertion fails at all and the search succeeds.
\<close>

section \<open>The verifier as the client sees it\<close>

text \<open>
  The client relies on two facts about verdicts: a verified block is above the trusted one, and
  lack of trust is reported only for blocks further ahead than the next.
\<close>

locale client_store = light_store S inv view
  for S :: "'s store_ops" and inv :: "'s \<Rightarrow> bool" and view :: "'s \<Rightarrow> store_view" +
  fixes V :: verifier
  assumes Success_above:
      "V (as_untrusted_state b) (as_trusted_state t) opts now = Ok Success \<Longrightarrow> lb_height t < lb_height b"
    and NotEnoughTrust_above:
      "V (as_untrusted_state b) (as_trusted_state t) opts now = Ok (NotEnoughTrust y) \<Longrightarrow>
       lb_height t < lb_height b \<and> lb_height b \<noteq> lb_height t + 1"

text \<open>The blocks that hang on a set of roots by successful verifications at readings of the clock.\<close>

inductive trust_chain :: "verifier \<Rightarrow> options \<Rightarrow> (nat \<Rightarrow> time) \<Rightarrow> light_block set \<Rightarrow> light_block \<Rightarrow> bool"
  for V opts clock roots where
  root: "b \<in> roots \<Longrightarrow> trust_chain V opts clock roots b"
| link: "trust_chain V opts clock roots a \<Longrightarrow>
    V (as_untrusted_state b) (as_trusted_state a) opts (clock n) = Ok Success \<Longrightarrow>
    trust_chain V opts clock roots b"

text \<open>Every trusted or verified block of a store satisfies a property.\<close>

definition vouched :: "(light_block \<Rightarrow> bool) \<Rightarrow> store_view \<Rightarrow> bool" where
  "vouched P W \<longleftrightarrow> (\<forall>h b. W h Trusted = Some b \<or> W h Verified = Some b \<longrightarrow> P b)"

text \<open>A block whose header hash is the one the header above it records as its predecessor's.\<close>

definition hash_linked :: "externals \<Rightarrow> light_block \<Rightarrow> light_block \<Rightarrow> bool" where
  "hash_linked X a b \<longleftrightarrow>
     (\<exists>id. hdr_last_block_id (sh_header (lb_signed_header a)) = Some id
        \<and> header_hash X (sh_header (lb_signed_header b)) = bid_hash id)"

section \<open>One turn of the loop\<close>

lemma trace_block_Ok: "trace_block t h st = Ok st' \<Longrightarrow> h \<le> t \<and> st_light_store st' = st_light_store st"
  by (auto simp: trace_block_def result_simps Let_def)

lemma trace_block_Ok_iff: "(\<exists>st'. trace_block t h st = Ok st') \<longleftrightarrow> h \<le> t"
  by (simp add: trace_block_def requires_def Let_def)

lemma get_or_fetch_block_Ok:
  assumes "get_or_fetch_block S C h st = (st', Ok (b, status))"
  shows "lb_provider b = lc_peer C" (is ?provider)
    and "get_non_failed S (st_light_store st) h = Some (b, status) \<and> st' = st \<or>
      get_non_failed S (st_light_store st) h = None \<and> status = Unverified
      \<and> st_light_store st' = so_insert S (st_light_store st) b Unverified" (is ?cases)
  using assms
  by (auto simp: get_or_fetch_block_def sbind_Ok result_simps fetch_light_block_def store_insert_def
      split: option.splits)

lemma record_verdict_Ok:
  assumes "record_verdict S current trusted b status verdict st = (st', Ok ())"
  shows "verdict = Success \<and> lb_height trusted \<le> current
      \<and> st_light_store st' = so_update S (st_light_store st) b (most_trusted Verified status)
    \<or> (\<exists>y. verdict = NotEnoughTrust y \<and> st_light_store st' = so_update S (st_light_store st) b Unverified)"
  using assms
  by (cases verdict) (auto simp: record_verdict_def store_update_def sbind_Ok dest!: trace_block_Ok)

text \<open>Everything a turn that goes on has done.\<close>

lemma forward_step_Continue:
  assumes "forward_step X S C target current st = (st', Ok (Continue h))"
  obtains trusted s1 b status verdict
  where "highest_trusted_or_verified_before S (st_light_store st) target = Some trusted"
    and "lb_height trusted \<noteq> target" "\<not> target < lb_height trusted" "current \<le> target"
    and "s1 = st_light_store st \<and> get_non_failed S (st_light_store st) current = Some (b, status) \<or>
      s1 = so_insert S (st_light_store st) b Unverified \<and> status = Unverified"
    and "lc_verifier C (as_untrusted_state b) (as_trusted_state trusted) (lc_options C)
      (lc_clock C (st_ticks st)) = Ok verdict"
    and "verdict = Success \<and> lb_height trusted \<le> current
        \<and> st_light_store st' = so_update S s1 b (most_trusted Verified status)
      \<or> (\<exists>y. verdict = NotEnoughTrust y \<and> st_light_store st' = so_update S s1 b Unverified)"
    and "schedule (lc_scheduler C) S (st_light_store st') current target = Ok h"
proof -
  from assms obtain trusted st1 st2 b status verdict st3
    where t: "highest_trusted_or_verified_before S (st_light_store st) target = Some trusted"
      "lb_height trusted \<noteq> target" "\<not> target < lb_height trusted"
    and tr: "trace_block target current (st\<lparr>st_ticks := st_ticks st + 1\<rparr>) = (Ok st1 :: (lc_error, _) result)"
    and g: "get_or_fetch_block S C current st1 = (st2, Ok (b, status))"
    and v: "lc_verifier C (as_untrusted_state b) (as_trusted_state trusted) (lc_options C)
      (lc_clock C (st_ticks st)) = Ok verdict"
    and r: "record_verdict S current trusted b status verdict st2 = (st', Ok ())"
    and sch: "schedule (lc_scheduler C) S (st_light_store st') current target = Ok h"
    by (auto simp: forward_step_def sbind_Ok clock_now_def result_simps split: if_splits)
  from trace_block_Ok [OF tr] have "current \<le> target" "st_light_store st1 = st_light_store st" by simp_all
  moreover note get_or_fetch_block_Ok(2) [OF g] record_verdict_Ok [OF r]
  ultimately show ?thesis using that [OF t _ _ v _ sch] by auto
qed

lemma forward_step_Finished:
  "forward_step X S C target current st = (st', Ok (Finished b)) \<Longrightarrow>
   highest_trusted_or_verified_before S (st_light_store st) target = Some b \<and> lb_height b = target
   \<and> st_light_store st' = st_light_store st"
  by (auto simp: forward_step_def sbind_Ok clock_now_def result_simps split: if_splits dest!: trace_block_Ok)

text \<open>The turn once the trusted block has been found and accepted.\<close>

lemma forward_step_trusted:
  assumes "highest_trusted_or_verified_before S (st_light_store st) target = Some t" "\<not> target < lb_height t"
    and "lc_is_within_trust_period X t (opt_trusting_period (lc_options C)) (lc_clock C (st_ticks st))"
    and "trace_block target current (st\<lparr>st_ticks := st_ticks st + 1\<rparr>) = (Ok st1 :: (lc_error, _) result)"
  shows "forward_step X S C target current st =
    (if target = lb_height t then (st1, Ok (Finished t))
     else sbind (get_or_fetch_block S C current) (\<lambda>(current_block, status).
       sbind (lift (lc_verifier C (as_untrusted_state current_block) (as_trusted_state t) (lc_options C)
         (lc_clock C (st_ticks st)))) (\<lambda>verdict.
       sbind (record_verdict S current t current_block status verdict) (\<lambda>_.
       sbind (gets (\<lambda>st. schedule (lc_scheduler C) S (st_light_store st) current target))
         (\<lambda>next_height. lift (Ok (Continue next_height)))))) st1)"
  using assms
  by (simp add: forward_step_def sbind_run [where m = "clock_now C"] clock_now_def sbind_def [where m = "gets _"]
      sbind_def [where m = "fail_if _ _"] sbind_def [where m = "modify _"] modify_def)

text \<open>What the scheduler of the production client leaves for the next turn.\<close>

lemma bisecting_schedule_next:
  assumes "schedule basic_bisecting_schedule S s current target = Ok h"
    and "highest_trusted_or_verified_before S s target = Some t" "lb_height t \<le> target" "current \<le> target"
  shows "h \<le> target" "lb_height t < h \<or> lb_height t = target" "lb_height t < current \<Longrightarrow> h < current"
proof -
  have le: "lb_height t \<le> current"
    using assms by (auto simp: schedule_def basic_bisecting_schedule_def midpoint_def result_simps split: if_splits)
  show "h \<le> target" "lb_height t < h \<or> lb_height t = target" "lb_height t < current \<Longrightarrow> h < current"
    using assms le by (auto simp: schedule_def result_simps valid_schedule_eq split: if_splits)
qed

text \<open>
  Partial correctness of the loop, by induction on its unfoldings: what every turn keeps holds of
  the turn that returns.
\<close>

fun final_turn :: "'s lc_state \<times> (lc_error, step) result \<Rightarrow> 's lc_state \<times> (lc_error, light_block) result \<Rightarrow> bool" where
  "final_turn (s, Ok (Finished b)) y \<longleftrightarrow> y = (s, Ok b)"
| "final_turn (s, Ok (Continue h)) y \<longleftrightarrow> False"
| "final_turn (s, Err e) y \<longleftrightarrow> y = (s, Err e)"
| "final_turn (s, Panic) y \<longleftrightarrow> y = (s, Panic)"

lemma forward_loop_last:
  assumes "forward_loop X S C target current st = Some (st', r)" "K current st"
    and keep: "\<And>c s s' h. K c s \<Longrightarrow> forward_step X S C target c s = (s', Ok (Continue h)) \<Longrightarrow> K h s'"
  shows "\<exists>c s. K c s \<and> final_turn (forward_step X S C target c s) (st', r)"
proof -
  let ?post = "\<lambda>y. \<exists>c s. K c s \<and> final_turn (forward_step X S C target c s) y"
  have "(X, S, C, target) = (X, S, C, target) \<longrightarrow> K current st \<longrightarrow> ?post (st', r)"
  proof (rule forward_loop.raw_induct [where P = "\<lambda>X' S' C' t' c s y. (X', S', C', t') = (X, S, C, target) \<longrightarrow> K c s \<longrightarrow> ?post y",
        OF _ assms(1)], intro impI)
    fix loop X' S' C' target' current st y
    assume IH: "\<And>X' S' C' t' c s y. loop X' S' C' t' c s = Some y \<Longrightarrow>
        (X', S', C', t') = (X, S, C, target) \<longrightarrow> K c s \<longrightarrow> ?post y"
      and body: "(case forward_step X' S' C' target' current st of
          (st', Ok (Finished b)) \<Rightarrow> Some (st', Ok b) | (st', Ok (Continue h)) \<Rightarrow> loop X' S' C' target' h st'
        | (st', Err e) \<Rightarrow> Some (st', Err e) | (st', Panic) \<Rightarrow> Some (st', Panic)) = Some y"
      and eq: "(X', S', C', target') = (X, S, C, target)" and K: "K current st"
    obtain st1 r1 where step: "forward_step X S C target current st = (st1, r1)" by fastforce
    show "?post y"
    proof (cases "\<exists>h. r1 = Ok (Continue h)")
      case True
      then obtain h where r1: "r1 = Ok (Continue h)" by blast
      then have "K h st1" using keep [OF K] step by simp
      moreover have "loop X S C target h st1 = Some y" using body step eq r1 by simp
      ultimately show ?thesis using IH by blast
    next
      case False
      with body step eq have "final_turn (forward_step X S C target current st) y"
        by (auto split: result.splits step.splits)
      with K show ?thesis by blast
    qed
  qed
  with assms(2) show ?thesis by simp
qed

lemma forward_loop_invariant:
  assumes "forward_loop X S C target current st = Some (st', r)" "I st"
    and pres: "\<And>current. preserves I (forward_step X S C target current)"
  shows "I st' \<and> (\<forall>b. r = Ok b \<longrightarrow> highest_trusted_or_verified_before S (st_light_store st') target = Some b \<and> lb_height b = target)"
proof -
  obtain c s where I: "I s" and last: "final_turn (forward_step X S C target c s) (st', r)"
    using forward_loop_last [OF assms(1), of "\<lambda>_. I"] assms(2) preservesD [OF pres] by blast
  obtain s1 r1 where step: "forward_step X S C target c s = (s1, r1)" by fastforce
  from pres step I have "I s1" by (rule preservesD)
  with step last show ?thesis by (auto elim!: final_turn.elims(2) dest!: forward_step_Finished)
qed

section \<open>Whatever the peer answers\<close>

context client_store
begin

lemma lowest_tv:
  "inv s \<Longrightarrow> lowest_trusted_or_verified S s = Some b \<Longrightarrow>
     view s (lb_height b) Trusted = Some b \<or> view s (lb_height b) Verified = Some b"
  using lowest_law [of s Trusted] lowest_law [of s Verified]
  by (cases "so_lowest S s Trusted"; cases "so_lowest S s Verified")
    (auto simp: lowest_trusted_or_verified_def is_lowest_def cmp_min_by_key_def split: if_splits)

lemma update_tv_other: "inv s \<Longrightarrow> h \<noteq> lb_height b \<Longrightarrow> tv (so_update S s b st) h = tv s h"
  by (simp add: tv_of_def update_law)

lemma highest_before_Some:
  assumes "inv s" "highest_trusted_or_verified_before S s k = Some b"
  shows "lb_height b \<le> k" "tv s (lb_height b) \<noteq> None"
    and "view s (lb_height b) Trusted = Some b \<or> view s (lb_height b) Verified = Some b"
  using highest_tv_before [OF assms(1), of k] assms(2) by auto

lemma highest_before_above:
  assumes "inv s" "tv s h \<noteq> None" "h \<le> k"
  shows "\<exists>b. highest_trusted_or_verified_before S s k = Some b \<and> h \<le> lb_height b \<and> lb_height b \<le> k"
  using highest_tv_before [OF assms(1), of k] assms(2,3) by (auto split: option.splits)

text \<open>
  A turn never loses the trusted block: a block that replaces it in the store is not above it, and
  the verdict on such a block ends the loop. So the trusted height does not fall, and where it
  stays the scheduled height falls.
\<close>

lemma step_progress:
  assumes inv: "inv (st_light_store st)" and C: "lc_verifier C = V" "lc_scheduler C = basic_bisecting_schedule"
    and step: "forward_step X S C target current st = (st', Ok (Continue h))"
    and t: "highest_trusted_or_verified_before S (st_light_store st) target = Some t"
      "lb_height t < current \<or> lb_height t = target"
  shows "\<exists>t'. highest_trusted_or_verified_before S (st_light_store st') target = Some t'
    \<and> lb_height t' \<le> target \<and> (lb_height t' < h \<or> lb_height t' = target)
    \<and> (lb_height t < lb_height t' \<or> lb_height t' = lb_height t \<and> h < current)"
proof -
  obtain s1 b status verdict
    where lt: "lb_height t \<noteq> target" "current \<le> target"
    and s1: "s1 = st_light_store st \<or> s1 = so_insert S (st_light_store st) b Unverified"
    and v: "V (as_untrusted_state b) (as_trusted_state t) (lc_options C) (lc_clock C (st_ticks st)) = Ok verdict"
    and s': "verdict = Success \<or> (\<exists>y. verdict = NotEnoughTrust y)" "\<exists>k. st_light_store st' = so_update S s1 b k"
    and sch: "schedule basic_bisecting_schedule S (st_light_store st') current target = (Ok h :: (lc_error, height) result)"
    by (rule forward_step_Continue [OF step]) (use t C in auto)
  have "lb_height t < lb_height b" using s'(1) v Success_above NotEnoughTrust_above by blast
  then have neq: "lb_height t \<noteq> lb_height b" by simp
  have inv1: "inv s1" using s1 inv insert_inv by auto
  have inv': "inv (st_light_store st')" using s'(2) inv1 update_inv by auto
  have "tv (st_light_store st') (lb_height t) = tv (st_light_store st) (lb_height t)"
    using s'(2) s1 update_tv_other [OF inv1 neq] insert_tv_other [OF inv neq] by auto
  then have "tv (st_light_store st') (lb_height t) \<noteq> None" "lb_height t \<le> target"
    using highest_before_Some [OF inv t(1)] by simp_all
  with highest_before_above [OF inv'] obtain t'
    where t': "highest_trusted_or_verified_before S (st_light_store st') target = Some t'"
      "lb_height t \<le> lb_height t'" "lb_height t' \<le> target" by blast
  from bisecting_schedule_next [OF sch t'(1,3) lt(2)] t' t(2) lt(1) show ?thesis by auto
qed

lemma step_inv:
  assumes "inv (st_light_store st)" "forward_step X S C target current st = (st', Ok (Continue h))"
  shows "inv (st_light_store st')"
  by (rule forward_step_Continue [OF assms(2)]) (use assms(1) insert_inv update_inv in auto)

lemma forward_loop_returns:
  assumes "inv (st_light_store st)" "lc_verifier C = V" "lc_scheduler C = basic_bisecting_schedule"
    and "\<And>t. highest_trusted_or_verified_before S (st_light_store st) target = Some t \<Longrightarrow>
      lb_height t < current \<or> lb_height t = target"
  shows "\<exists>r. forward_loop X S C target current st = Some r"
  using assms
proof (induction "(case highest_trusted_or_verified_before S (st_light_store st) target of
      None \<Rightarrow> 0 | Some t \<Rightarrow> unat target - unat (lb_height t), unat current)" arbitrary: current st
    rule: wf_induct_rule [OF wf_lex_prod [OF wf_less_than wf_less_than]])
  case 1
  show ?case
  proof (cases "\<exists>h st'. forward_step X S C target current st = (st', Ok (Continue h))")
    case False
    then show ?thesis
      by (subst forward_loop.simps) (auto split: prod.splits result.splits step.splits)
  next
    case True
    then obtain h st' where step: "forward_step X S C target current st = (st', Ok (Continue h))" by blast
    then obtain t where t: "highest_trusted_or_verified_before S (st_light_store st) target = Some t"
      by (rule forward_step_Continue)
    from step_progress [OF 1(2-4) step t 1(5) [OF t]] obtain t'
      where t': "highest_trusted_or_verified_before S (st_light_store st') target = Some t'"
        "lb_height t' \<le> target" "lb_height t' < h \<or> lb_height t' = target"
        "lb_height t < lb_height t' \<or> lb_height t' = lb_height t \<and> h < current" by blast
    have "\<exists>r. forward_loop X S C target h st' = Some r"
    proof (rule 1(1) [OF _ step_inv [OF 1(2) step] 1(3,4)])
      show "((case highest_trusted_or_verified_before S (st_light_store st') target of
              None \<Rightarrow> 0 | Some t \<Rightarrow> unat target - unat (lb_height t), unat h),
            case highest_trusted_or_verified_before S (st_light_store st) target of
              None \<Rightarrow> 0 | Some t \<Rightarrow> unat target - unat (lb_height t), unat current) \<in> less_than <*lex*> less_than"
        using t t'(1,2,4) by (auto simp: word_less_nat_alt word_le_nat_alt)
    qed (use t' in auto)
    then show ?thesis by (subst forward_loop.simps) (simp add: step)
  qed
qed

lemma verify_forward_returns:
  assumes "inv (st_light_store st)" "lc_verifier C = V" "lc_scheduler C = basic_bisecting_schedule"
  shows "\<exists>r. verify_forward X S C target st = Some r"
  unfolding verify_forward_def
  using highest_before_Some(1) [OF assms(1)] by (intro forward_loop_returns [OF assms]) force

text \<open>Only verified blocks become trusted or verified.\<close>

lemma insert_view_Some:
  assumes "inv s" "view (so_insert S s b k) h k' = Some c"
  shows "h = lb_height b \<and> k' = k \<and> c = b \<or> view s h k' = Some c"
proof (cases "h = lb_height b")
  case True
  then show ?thesis
    using insert_status [OF assms(1), of k' k b] insert_same [OF assms(1), of b k] assms(2) by (cases "k' = k") auto
next
  case False
  then show ?thesis using insert_other [OF assms(1) False, of k k'] assms(2) by simp
qed

lemma vouched_insert:
  assumes "inv s" "vouched P (view s)" "st = Unverified \<or> st = Failed \<or> P b"
  shows "vouched P (view (so_insert S s b st))"
  unfolding vouched_def
proof (intro allI impI)
  fix h c assume "view (so_insert S s b st) h Trusted = Some c \<or> view (so_insert S s b st) h Verified = Some c"
  then show "P c" using assms(2,3) unfolding vouched_def by (auto dest!: insert_view_Some [OF assms(1)])
qed

lemma vouched_update:
  "inv s \<Longrightarrow> vouched P (view s) \<Longrightarrow> st = Unverified \<or> st = Failed \<or> P b \<Longrightarrow>
   vouched P (view (so_update S s b st))"
  by (auto simp: vouched_def update_law split: if_splits)

abbreviation good :: "(light_block \<Rightarrow> bool) \<Rightarrow> 's lc_state \<Rightarrow> bool" where
  "good P st \<equiv> inv (st_light_store st) \<and> vouched P (view (st_light_store st))"

lemma vouched_highest: "inv s \<Longrightarrow> vouched P (view s) \<Longrightarrow> highest_trusted_or_verified_before S s k = Some b \<Longrightarrow> P b"
  using highest_before_Some(3) unfolding vouched_def by blast

lemma preserves_basic:
  "preserves (good P) (clock_now C)" "preserves (good P) (fetch_light_block C a)"
  "preserves (good P) (modify (trace_block t h))"
  by (auto simp: preserves_def clock_now_def fetch_light_block_def modify_def trace_block_def requires_def Let_def)

lemma preserves_store:
  "st = Unverified \<or> st = Failed \<or> P b \<Longrightarrow> preserves (good P) (store_insert S b st)"
  "st = Unverified \<or> st = Failed \<or> P b \<Longrightarrow> preserves (good P) (store_update S b st)"
  using vouched_insert vouched_update by (auto simp: preserves_def store_insert_def store_update_def insert_inv update_inv)

lemma preserves_get_or_fetch: "preserves (good P) (get_or_fetch_block S C h)"
  unfolding get_or_fetch_block_def
  by (auto intro!: preserves_sbind preserves_basic preserves_store split: option.splits)

lemma preserves_record_verdict:
  "(verdict = Success \<Longrightarrow> P b) \<Longrightarrow> preserves (good P) (record_verdict S h t b st verdict)"
  unfolding record_verdict_def
  by (auto intro!: preserves_sbind preserves_basic preserves_store split: verdict.splits)

lemma preserves_forward_step:
  assumes "lc_verifier C = V" "\<forall>a b n. P a \<longrightarrow>
    V (as_untrusted_state b) (as_trusted_state a) (lc_options C) (lc_clock C n) = Ok Success \<longrightarrow> P b"
  shows "preserves (good P) (forward_step X S C target current)"
  unfolding forward_step_def
proof (rule preserves_sbind [OF preserves_basic(1)], rule preserves_sbind [OF preserves_gets])
  fix now and st0 st1 :: "'s lc_state" and trusted and st st' :: "'s lc_state"
  assume "clock_now C st0 = (st1, Ok now)" and "good P st"
    and "gets (\<lambda>st. ok_or LE_NoInitialTrustedState (highest_trusted_or_verified_before S (st_light_store st) target)) st
      = (st', Ok trusted)"
  then have now: "\<exists>n. now = lc_clock C n" and "P trusted"
    by (auto simp: clock_now_def result_simps dest: vouched_highest)
  then have success: "P b"
    if "lc_verifier C (as_untrusted_state b) (as_trusted_state trusted) (lc_options C) now = Ok Success" for b
    using that assms by auto
  show "preserves (good P)
    (sbind (fail_if (target < lb_height trusted) (LE_TargetLowerThanTrustedState target (lb_height trusted))) (\<lambda>_.
     sbind (fail_if (\<not> lc_is_within_trust_period X trusted (opt_trusting_period (lc_options C)) now)
       (LE_TrustedStateOutsideTrustingPeriod trusted (lc_options C))) (\<lambda>_.
     sbind (modify (trace_block target current)) (\<lambda>_.
     if target = lb_height trusted then lift (Ok (Finished trusted))
     else
       sbind (get_or_fetch_block S C current) (\<lambda>(current_block, status).
       sbind (lift (lc_verifier C (as_untrusted_state current_block) (as_trusted_state trusted) (lc_options C) now)) (\<lambda>verdict.
       sbind (record_verdict S current trusted current_block status verdict) (\<lambda>_.
       sbind (gets (\<lambda>st. schedule (lc_scheduler C) S (st_light_store st) current target))
         (\<lambda>next_height. lift (Ok (Continue next_height))))))))))"
    by (auto intro!: preserves_sbind preserves_basic preserves_get_or_fetch preserves_record_verdict success)
qed

lemma verify_to_target_returns:
  assumes "inv (st_light_store st)" "lc_verifier C = V" "lc_scheduler C = basic_bisecting_schedule"
  shows "\<exists>r. verify_to_target_with backward X S C target st = Some r"
  using verify_forward_returns [OF assms]
  by (auto simp: verify_to_target_with_def split: option.splits)

lemma verify_forward_inv:
  assumes "lc_verifier C = V" "inv (st_light_store st)" "verify_forward X S C target st = Some (st', r)"
  shows "inv (st_light_store st')"
proof -
  have "vouched (\<lambda>_. True) W" for W by (simp add: vouched_def)
  then show ?thesis
    using forward_loop_invariant [OF assms(3) [unfolded verify_forward_def], of "good (\<lambda>_. True)"]
      preserves_forward_step [OF assms(1), of "\<lambda>_. True"] assms(2) by blast
qed

text \<open>
  The entry point keeps the property of trusted blocks, and answers with a block of the requested
  height that has it, provided the backward verification in use does.
\<close>

lemma verify_to_target_good:
  assumes C: "lc_verifier C = V" "\<forall>a b n. P a \<longrightarrow>
      V (as_untrusted_state b) (as_trusted_state a) (lc_options C) (lc_clock C n) = Ok Success \<longrightarrow> P b"
    and run: "verify_to_target_with backward X S C target st = Some (st', r)" and good: "good P st"
    and bwd: "preserves (good P) (backward target)"
      "\<And>st st' b. good P st \<Longrightarrow> backward target st = (st', Ok b) \<Longrightarrow> P b \<and> lb_height b = target"
  shows "good P st'" "r = Ok b \<Longrightarrow> P b \<and> lb_height b = target \<and> tv (st_light_store st') target \<noteq> None"
proof -
  let ?inner = "case get_trusted_or_verified S (st_light_store st) target of
         Some light_block \<Rightarrow> Some (st, Ok light_block)
       | None \<Rightarrow>
          (case or_else (highest_trusted_or_verified_before S (st_light_store st) target)
                 (lowest_trusted_or_verified S (st_light_store st)) of
             None \<Rightarrow> Some (st, Err LE_NoInitialTrustedState)
           | Some highest \<Rightarrow>
               if target \<ge> lb_height highest then verify_forward X S C target st
               else Some (backward target st))"
  from run obtain r' where r': "?inner = Some (st', r')"
    and ens: "r = ensures (\<lambda>_. Ok (trusted_store_contains_block_at_target_height S (st_light_store st') target)) r'"
    unfolding verify_to_target_with_def by (cases ?inner) auto
  have fwd: "good P st' \<and> (\<forall>b. r' = Ok b \<longrightarrow> P b \<and> lb_height b = target)"
    if "verify_forward X S C target st = Some (st', r')"
    using forward_loop_invariant [OF that [unfolded verify_forward_def], of "good P"] good preserves_forward_step [OF C]
    by (auto dest: vouched_highest)
  have "good P st' \<and> (\<forall>b. r' = Ok b \<longrightarrow> P b \<and> lb_height b = target)"
  proof (cases "get_trusted_or_verified S (st_light_store st) target")
    case (Some b)
    then have "tv (st_light_store st) target = Some b" using get_trusted_or_verified_eq good by simp
    then have "P b" "lb_height b = target"
      using good tv_height [of "st_light_store st" target b] unfolding vouched_def
      by (blast elim: tv_of_cases)+
    then show ?thesis using Some r' good by auto
  next
    case None
    then show ?thesis using r' good fwd bwd(2) [OF good] preservesD [OF bwd(1)]
      by (auto split: option.splits if_splits)
  qed
  then show gd: "good P st'" and "r = Ok b \<Longrightarrow> P b \<and> lb_height b = target \<and> tv (st_light_store st') target \<noteq> None"
    using ens by (auto simp: result_simps trusted_store_contains_block_at_target_height_def get_law)
qed

lemma verify_backward_stub:
  "preserves I (verify_backward S target)" "verify_backward S target st \<noteq> (st', Ok b)"
  by (auto simp: verify_backward_def lowest_root_def sbind_Ok result_simps intro!: preserves_sbind)

text \<open>Backward verification accepts a block for the hash the block above it records.\<close>

lemma preserves_backward_loop:
  assumes "\<forall>a b. P a \<longrightarrow> hash_linked X a b \<longrightarrow> P b" "P latest"
  shows "preserves (good P) (backward_loop X S C latest hs)"
  using assms(2)
proof (induction hs arbitrary: latest)
  case (Cons h hs)
  show ?case
    unfolding backward_loop.simps Let_def case_prod_beta
  proof (rule preserves_sbind [OF preserves_get_or_fetch], rule preserves_sbind [OF preserves_lift],
      cases "\<exists>id. hdr_last_block_id (sh_header (lb_signed_header latest)) = Some id", goal_cases)
    case (1 p _ _ id)
    show ?case
    proof (cases "header_hash X (sh_header (lb_signed_header (fst p))) = bid_hash id")
      case True
      with 1(4) have "P (fst p)"
        using assms(1) Cons.prems by (auto simp: hash_linked_def result_simps)
      then show ?thesis using Cons
        by (auto intro!: preserves_sbind preserves_basic preserves_store)
    next
      case False
      then show ?thesis by (simp add: preserves_def sbind_def)
    qed
  qed (auto simp: result_simps)
qed simp

lemma backward_loop_result:
  assumes "\<forall>a b. P a \<longrightarrow> hash_linked X a b \<longrightarrow> P b" "P latest" "backward_loop X S C latest hs st = (st', Ok b)"
  shows "P b"
  using assms(2,3)
proof (induction hs arbitrary: latest st)
  case (Cons h hs)
  then obtain current k st1 id st2 where "hdr_last_block_id (sh_header (lb_signed_header latest)) = Some id"
      "header_hash X (sh_header (lb_signed_header current)) = bid_hash id"
      "backward_loop X S C current hs st2 = (st', Ok b)"
    by (auto simp: sbind_Ok Let_def result_simps split: if_splits)
  with Cons.IH [of current st2] assms(1) Cons.prems(1) show ?case by (auto simp: hash_linked_def)
qed simp

lemma verify_backward_unstable_good:
  assumes "\<forall>a b. P a \<longrightarrow> hash_linked X a b \<longrightarrow> P b"
  shows "preserves (good P) (verify_backward_unstable X S C target)"
    and "good P st \<Longrightarrow> verify_backward_unstable X S C target st = (st', Ok b) \<Longrightarrow> P b \<and> lb_height b = target"
proof -
  have root: "P r" if "good P st" "lowest_root S target st = (st', Ok r)" for st st' r
  proof (cases "highest_trusted_or_verified_before S (st_light_store st) target")
    case None
    with that have "lowest_trusted_or_verified S (st_light_store st) = Some r" by (auto simp: lowest_root_def result_simps)
    then show ?thesis using lowest_tv [of "st_light_store st" r] that(1) unfolding vouched_def by blast
  next
    case (Some b)
    with that have "b = r" by (auto simp: lowest_root_def result_simps)
    then show ?thesis using vouched_highest [of "st_light_store st" P target b] that(1) Some by simp
  qed
  show "preserves (good P) (verify_backward_unstable X S C target)"
    unfolding verify_backward_unstable_def
  proof (rule preserves_sbind)
    fix r st st' assume "good P st" "lowest_root S target st = (st', Ok r)"
    from root [OF this] preserves_backward_loop [OF assms] show "preserves (good P)
        (sbind (lift (requires (target \<le> lb_height r) (Ok ()))) (\<lambda>_.
         sbind (clock_now C) (\<lambda>now.
         sbind (fail_if (\<not> lc_is_within_trust_period X r (opt_trusting_period (lc_options C)) now)
           (LE_TrustedStateOutsideTrustingPeriod r (lc_options C))) (\<lambda>_.
         sbind (backward_loop X S C r (map word_of_nat (rev [unat target..<unat (lb_height r)]))) (\<lambda>latest.
         lift (requires (lb_height latest = target) (Ok latest)))))))"
      by (auto intro!: preserves_sbind preserves_basic)
  qed (simp add: lowest_root_def)
  assume st: "good P st" "verify_backward_unstable X S C target st = (st', Ok b)"
  then obtain r s1 s2 hs where "lowest_root S target st = (s1, Ok r)" "backward_loop X S C r hs s2 = (st', Ok b)" "lb_height b = target"
    by (auto simp: verify_backward_unstable_def sbind_Ok result_simps)
  with root [OF st(1)] backward_loop_result [OF assms] show "P b \<and> lb_height b = target" by blast
qed

end

section \<open>With a peer that answers as asked\<close>

definition honest_peer :: "'s light_client \<Rightarrow> (height \<Rightarrow> light_block) \<Rightarrow> bool" where
  "honest_peer C B \<longleftrightarrow> (\<forall>n h. lc_io C n (At h) = Ok (B h)) \<and> (\<forall>h. lb_height (B h) = h \<and> lb_provider (B h) = lc_peer C)"

definition holds_chain :: "(height \<Rightarrow> light_block) \<Rightarrow> store_view \<Rightarrow> bool" where
  "holds_chain B W \<longleftrightarrow> (\<forall>h k b. k \<noteq> Failed \<longrightarrow> W h k = Some b \<longrightarrow> b = B h)"

text \<open>
  The blocks from the trusted height up to the target are within the trusting period and never
  judged invalid against each other, at every reading of the clock.
\<close>

definition never_invalid :: "externals \<Rightarrow> 's light_client \<Rightarrow> (height \<Rightarrow> light_block) \<Rightarrow> height \<Rightarrow> height \<Rightarrow> bool" where
  "never_invalid X C B low target \<longleftrightarrow>
     (\<forall>n t h. low \<le> t \<longrightarrow> t \<le> h \<longrightarrow> h \<le> target \<longrightarrow>
        lc_is_within_trust_period X (B t) (opt_trusting_period (lc_options C)) (lc_clock C n)
        \<and> (t < h \<longrightarrow> (\<exists>v. lc_verifier C (as_untrusted_state (B h)) (as_trusted_state (B t)) (lc_options C) (lc_clock C n) = Ok v
             \<and> (\<forall>e. v \<noteq> Invalid e))))"

context client_store
begin

text \<open>Before each turn: the store holds the chain, and the search lies between trust and target.\<close>

abbreviation on_chain :: "(height \<Rightarrow> light_block) \<Rightarrow> height \<Rightarrow> height \<Rightarrow> height \<Rightarrow> 's lc_state \<Rightarrow> bool" where
  "on_chain B low target current st \<equiv>
     inv (st_light_store st) \<and> holds_chain B (view (st_light_store st)) \<and> current \<le> target
     \<and> (\<exists>t. highest_trusted_or_verified_before S (st_light_store st) target = Some t \<and> low \<le> lb_height t
          \<and> (lb_height t < current \<or> lb_height t = target))"

lemma holds_chain_insert:
  "inv s \<Longrightarrow> holds_chain B (view s) \<Longrightarrow> B (lb_height b) = b \<Longrightarrow> holds_chain B (view (so_insert S s b k))"
  unfolding holds_chain_def by (auto dest: insert_view_Some)

lemma holds_chain_update:
  "inv s \<Longrightarrow> holds_chain B (view s) \<Longrightarrow> B (lb_height b) = b \<Longrightarrow> holds_chain B (view (so_update S s b k))"
  by (auto simp: holds_chain_def update_law split: if_splits)

lemma holds_chain_highest:
  assumes "inv s" "holds_chain B (view s)" "highest_trusted_or_verified_before S s k = Some t"
  shows "B (lb_height t) = t"
  using highest_before_Some(3) [OF assms(1,3)] assms(2) unfolding holds_chain_def by fastforce

lemma get_or_fetch_honest:
  assumes "honest_peer C B" "inv (st_light_store st)" "holds_chain B (view (st_light_store st))"
  shows "\<exists>st' k. get_or_fetch_block S C h st = (st', Ok (B h, k)) \<and> (k = Unverified \<or> tv (st_light_store st) h \<noteq> None)
    \<and> (st_light_store st' = st_light_store st \<or> st_light_store st' = so_insert S (st_light_store st) (B h) Unverified)"
proof (cases "get_non_failed S (st_light_store st) h")
  case None
  then show ?thesis using assms(1)
    by (simp add: get_or_fetch_block_def sbind_def fetch_light_block_def store_insert_def honest_peer_def requires_def)
next
  case (Some bk)
  obtain b k where bk: "bk = (b, k)" by (cases bk)
  with get_non_failed_Some [OF assms(2), of h b k] Some
  have v: "view (st_light_store st) h k = Some b" "k \<noteq> Failed" by simp_all
  then have "b = B h" using assms(3) by (simp add: holds_chain_def)
  moreover have "k = Unverified \<or> tv (st_light_store st) h \<noteq> None" using v by (cases k) auto
  ultimately show ?thesis using Some bk assms(1)
    by (simp add: get_or_fetch_block_def sbind_def honest_peer_def requires_def)
qed

text \<open>What the store looks like after the verdict on the block at the current height.\<close>

lemma highest_after_update:
  assumes inv: "inv s" "highest_trusted_or_verified_before S s target = Some t" "lb_height t < lb_height b" "lb_height b \<le> target"
    and s': "k = Unverified \<and> t0 = lb_height t \<or> k \<in> {Trusted, Verified} \<and> t0 = lb_height b"
  shows "\<exists>t'. highest_trusted_or_verified_before S (so_update S s b k) target = Some t' \<and> lb_height t' = t0"
proof -
  have max: "h \<le> lb_height t" if "h \<le> target" "tv s h \<noteq> None" for h
    using highest_before_above [OF inv(1) that(2,1)] inv(2) by simp
  have tv': "tv (so_update S s b k) h = (if h = lb_height b then if k = Unverified then None else Some b else tv s h)" for h
    using s' update_tv [OF inv(1)] by (auto simp: tv_of_def update_law [OF inv(1)])
  have le: "t0 \<le> target" using s' inv(3,4) by auto
  have "tv (so_update S s b k) t0 \<noteq> None"
    using s' inv(3) highest_before_Some(2) [OF inv(1,2)] unfolding tv' by (auto simp del: tv_of_eq_None not_None_eq)
  then obtain t' where t': "highest_trusted_or_verified_before S (so_update S s b k) target = Some t'" "t0 \<le> lb_height t'"
    using highest_before_above [OF update_inv [OF inv(1)] _ le] by blast
  have "lb_height t' \<le> target" "tv (so_update S s b k) (lb_height t') \<noteq> None"
    using highest_before_Some [OF update_inv [OF inv(1)] t'(1)] by simp_all
  then have "lb_height t' \<le> t0"
    using s' max [of "lb_height t'"] inv(3) unfolding tv'
    by (auto simp del: tv_of_eq_None not_None_eq split: if_splits)
  with t' show ?thesis by auto
qed

lemma honest_schedule:
  assumes "inv s" "highest_trusted_or_verified_before S s target = Some t" "lb_height t < current" "current \<le> target"
    "lb_height b = current" "fits_i64 target"
    and "k = Unverified \<and> current \<noteq> lb_height t + 1 \<or> k \<in> {Trusted, Verified}"
  shows "\<exists>h. schedule basic_bisecting_schedule S (so_update S s b k) current target = (Ok h :: (lc_error, height) result)"
proof -
  let ?s = "so_update S s b k" and ?t0 = "if k = Unverified then lb_height t else lb_height b"
  obtain t' where t': "highest_trusted_or_verified_before S ?s target = Some t'" "lb_height t' = ?t0"
    using highest_after_update [OF assms(1,2), of b k ?t0] assms(3,4,5,7) by auto
  have "tv ?s (lb_height t') \<noteq> None" using highest_before_Some(2) [OF update_inv [OF assms(1)] t'(1)] .
  then have "highest_trusted_or_verified S ?s \<noteq> None"
    using highest_tv_eq_None [OF update_inv [OF assms(1), of b k]] by metis
  then show ?thesis
    using t'(2) assms(3-7) by (intro schedule_complete [OF _ t'(1)]) (auto split: if_splits)
qed

lemma record_verdict_honest:
  assumes s: "inv s1" "holds_chain B (view s1)" "highest_trusted_or_verified_before S s1 target = Some t"
    and h: "lb_height t < current" "current \<le> target" "lb_height (B current) = current" "fits_i64 target"
    and st2: "st_light_store st2 = s1" and status: "status = Unverified \<or> status = Trusted \<or> status = Verified"
    and v: "V (as_untrusted_state (B current)) (as_trusted_state t) opts now = Ok v" "\<forall>e. v \<noteq> Invalid e"
  shows "\<exists>st3 n. record_verdict S current t (B current) status v st2 = (st3, Ok ())
    \<and> schedule basic_bisecting_schedule S (st_light_store st3) current target = (Ok n :: (lc_error, height) result)
    \<and> inv (st_light_store st3) \<and> holds_chain B (view (st_light_store st3))"
proof (cases v)
  case Success
  let ?k = "most_trusted Verified status"
  have k: "?k \<in> {Trusted, Verified}"
    using status by (auto simp: most_trusted_def max_def less_eq_status_def)
  obtain st3 where "trace_block current (lb_height t) (st2\<lparr>st_light_store := so_update S s1 (B current) ?k\<rparr>) = (Ok st3 :: (lc_error, _) result)"
    using trace_block_Ok_iff [of current "lb_height t" "st2\<lparr>st_light_store := so_update S s1 (B current) ?k\<rparr>"] h(1)
    by (metis less_imp_le)
  moreover from trace_block_Ok [OF this] have "st_light_store st3 = so_update S s1 (B current) ?k" by simp
  moreover from k have "\<exists>n. schedule basic_bisecting_schedule S (so_update S s1 (B current) ?k) current target = (Ok n :: (lc_error, height) result)"
    by (intro honest_schedule [OF s(1,3) h(1,2,3,4)]) blast
  ultimately show ?thesis using Success st2 update_inv [OF s(1)] holds_chain_update [OF s(1,2)] h(3)
    by (auto simp: record_verdict_def sbind_def store_update_def modify_def)
next
  case (NotEnoughTrust y)
  then have "current \<noteq> lb_height t + 1" using NotEnoughTrust_above [OF v(1) [unfolded NotEnoughTrust]] h(3) by simp
  then have "\<exists>n. schedule basic_bisecting_schedule S (so_update S s1 (B current) Unverified) current target = (Ok n :: (lc_error, height) result)"
    by (intro honest_schedule [OF s(1,3) h(1,2,3,4)]) blast
  then show ?thesis using NotEnoughTrust st2 update_inv [OF s(1)] holds_chain_update [OF s(1,2)] h(3)
    by (auto simp: record_verdict_def store_update_def)
qed (use v(2) in auto)

lemma highest_after_insert:
  assumes "inv s" "highest_trusted_or_verified_before S s target = Some t" "tv s (lb_height b) = None"
  shows "\<exists>t'. highest_trusted_or_verified_before S (so_insert S s b Unverified) target = Some t' \<and> lb_height t' = lb_height t"
proof -
  have tv': "tv (so_insert S s b Unverified) h = None \<longleftrightarrow> tv s h = None" for h
    using insert_tv_other [OF assms(1), of h b Unverified] insert_view_Some [OF assms(1), of b Unverified h] assms(3)
    by (cases "h = lb_height b") (auto simp del: not_None_eq simp flip: not_None_eq, (metis not_None_eq status.distinct)+)
  note i = insert_inv [OF assms(1), of b Unverified]
  obtain t' where t': "highest_trusted_or_verified_before S (so_insert S s b Unverified) target = Some t'" "lb_height t \<le> lb_height t'"
    using highest_before_above [OF i] highest_before_Some(1,2) [OF assms(1,2)] tv' by metis
  moreover have "lb_height t' \<le> lb_height t"
    using highest_before_above [OF assms(1)] highest_before_Some(1,2) [OF i t'(1)] tv' assms(2) by (metis option.inject)
  ultimately show ?thesis by auto
qed

text \<open>A turn on the honest chain neither fails nor panics, and the next turn is on the chain again.\<close>

lemma forward_step_honest:
  assumes C: "honest_peer C B" "never_invalid X C B low target" "lc_verifier C = V"
      "lc_scheduler C = basic_bisecting_schedule" "fits_i64 target"
    and K: "on_chain B low target current st"
  shows "\<exists>st' r. forward_step X S C target current st = (st', Ok r) \<and> (\<forall>h. r = Continue h \<longrightarrow> on_chain B low target h st')"
proof -
  from K obtain t where inv: "inv (st_light_store st)" and chain: "holds_chain B (view (st_light_store st))"
    and t: "highest_trusted_or_verified_before S (st_light_store st) target = Some t" "low \<le> lb_height t"
      "lb_height t < current \<or> lb_height t = target" and le: "current \<le> target" by blast
  let ?st = "st\<lparr>st_ticks := st_ticks st + 1\<rparr>" and ?now = "lc_clock C (st_ticks st)"
  have Bt: "B (lb_height t) = t" by (rule holds_chain_highest [OF inv chain t(1)])
  have tle: "lb_height t \<le> target" by (rule highest_before_Some(1) [OF inv t(1)])
  have within: "lc_is_within_trust_period X t (opt_trusting_period (lc_options C)) ?now"
    using C(2) t(2) tle Bt unfolding never_invalid_def by fastforce
  obtain st1 where tr: "trace_block target current ?st = (Ok st1 :: (lc_error, _) result)"
    using le trace_block_Ok_iff [of target current ?st] by metis
  with trace_block_Ok [OF tr] have st1: "trace_block target current ?st = (Ok st1 :: (lc_error, _) result)"
      "st_light_store st1 = st_light_store st" by simp_all
  have "\<not> target < lb_height t" using tle by simp
  note prefix = forward_step_trusted [OF t(1) this within st1(1)]
  show ?thesis
  proof (cases "target = lb_height t")
    case True
    then show ?thesis unfolding prefix by simp
  next
    case False
    with t(3) have lt: "lb_height t < current" by auto
    obtain st2 k where g: "get_or_fetch_block S C current st1 = (st2, Ok (B current, k))"
      and k: "k = Unverified \<or> tv (st_light_store st) current \<noteq> None"
      and s2: "st_light_store st2 = st_light_store st \<or> st_light_store st2 = so_insert S (st_light_store st) (B current) Unverified"
      using get_or_fetch_honest [OF C(1), of st1 current] inv chain st1(2) by auto
    have none: "tv (st_light_store st) current = None"
      using highest_before_above [OF inv _ le] t(1) lt by fastforce
    have hB: "lb_height (B current) = current" using C(1) by (simp add: honest_peer_def)
    have s2': "inv (st_light_store st2)" "holds_chain B (view (st_light_store st2))"
      using s2 inv insert_inv holds_chain_insert [OF inv chain] hB chain by auto
    have t2: "highest_trusted_or_verified_before S (st_light_store st2) target = Some t"
    proof -
      have "tv (st_light_store st) (lb_height (B current)) = None" using none hB by simp
      note ins = highest_after_insert [OF inv t(1) this]
      have "\<exists>t2. highest_trusted_or_verified_before S (st_light_store st2) target = Some t2 \<and> lb_height t2 = lb_height t"
        by (rule disjE [OF s2]) (simp_all add: t(1) ins)
      then obtain t2 where t2: "highest_trusted_or_verified_before S (st_light_store st2) target = Some t2"
          "lb_height t2 = lb_height t" by blast
      have "t2 = t" using holds_chain_highest [OF s2' t2(1)] unfolding t2(2) Bt by (rule sym)
      then show ?thesis using t2(1) by simp
    qed
    obtain v where v: "V (as_untrusted_state (B current)) (as_trusted_state t) (lc_options C) ?now = Ok v" "\<forall>e. v \<noteq> Invalid e"
      using C(2) [unfolded never_invalid_def, rule_format, of "lb_height t" current "st_ticks st"] t(2) lt less_imp_le [OF lt] le C(3) Bt
      by auto
    obtain st3 n where r: "record_verdict S current t (B current) k v st2 = (st3, Ok ())"
      and n: "schedule basic_bisecting_schedule S (st_light_store st3) current target = (Ok n :: (lc_error, height) result)"
      and s3: "inv (st_light_store st3)" "holds_chain B (view (st_light_store st3))"
      using record_verdict_honest [OF s2' t2 lt le hB C(5) refl _ v, of k] k none by blast
    have step: "forward_step X S C target current st = (st3, Ok (Continue n))"
      unfolding prefix using False v(1) r n C(3,4) by (simp add: sbind_def g)
    have "n \<le> target"
    proof -
      obtain t3 where "highest_trusted_or_verified_before S (st_light_store st3) target = Some t3" "lb_height t3 \<le> target"
        using step_progress [OF inv C(3,4) step t(1,3)] by blast
      then show ?thesis using bisecting_schedule_next(1) [OF n _ _ le] by blast
    qed
    then show ?thesis using step s3 step_progress [OF inv C(3,4) step t(1,3)] t(2) by auto
  qed
qed

lemma verify_forward_honest:
  assumes C: "honest_peer C B" "never_invalid X C B low target" "lc_verifier C = V"
      "lc_scheduler C = basic_bisecting_schedule" "fits_i64 target"
    and st: "inv (st_light_store st)" "holds_chain B (view (st_light_store st))"
      "highest_trusted_or_verified_before S (st_light_store st) target = Some t" "low \<le> lb_height t"
  shows "\<exists>st'. verify_forward X S C target st = Some (st', Ok (B target)) \<and> tv (st_light_store st') target \<noteq> None"
proof -
  define K where "K = on_chain B low target"
  have K: "K target st"
    unfolding K_def using st highest_before_Some(1) [OF st(1,3)] by (auto simp: order_less_le)
  obtain st' r where run: "forward_loop X S C target target st = Some (st', r)"
    using verify_forward_returns [OF st(1) C(3,4), of X target] unfolding verify_forward_def by (metis prod.exhaust)
  have keep: "K h s'" if "K c s" "forward_step X S C target c s = (s', Ok (Continue h))" for c s s' h
    using forward_step_honest [OF C that(1) [unfolded K_def]] that(2) unfolding K_def by simp
  obtain c s where s: "K c s" and last: "final_turn (forward_step X S C target c s) (st', r)"
    using forward_loop_last [OF run, where K = K, OF K] keep by blast
  note s = s [unfolded K_def]
  from forward_step_honest [OF C s] obtain s' r' where step: "forward_step X S C target c s = (s', Ok r')" by blast
  with last obtain b where b: "r' = Finished b" "st' = s'" "r = Ok b" by (cases r') auto
  from forward_step_Finished [OF step [unfolded b(1)]]
  have h: "highest_trusted_or_verified_before S (st_light_store s) target = Some b" "lb_height b = target"
    "st_light_store s' = st_light_store s" by simp_all
  have i: "inv (st_light_store s)" "holds_chain B (view (st_light_store s))" using s by simp_all
  have "B target = b" "tv (st_light_store s') target \<noteq> None"
    using holds_chain_highest [OF i h(1)] highest_before_Some(2) [OF i(1) h(1)] h(2,3) by simp_all
  with run b show ?thesis unfolding verify_forward_def by auto
qed

end

section \<open>The production client over the in-memory store\<close>

lemma verify_update_header_above:
  assumes "verify_update_header X (as_untrusted_state b) (as_trusted_state t) opts now = (Ok Success :: ('e, verdict) result)"
  shows "lb_height t < lb_height b"
proof -
  from assms have "validate_against_trusted X (as_untrusted_state b) (as_trusted_state t) opts now = (Ok Success :: ('e, verdict) result)"
    by (auto simp: verify_update_header_def verdict_simps)
  then show ?thesis
    by (auto simp: validate_against_trusted_def verdict_simps and_then_eq_Ok height_increment_Ok_iff predicate_Ok_iffs
        Let_def ubs_height_def as_untrusted_state_def as_trusted_state_def lb_height_def word_less_nat_alt
        unat_add_no_overflow split: if_splits)
qed

interpretation prod: client_store memory_ops memory_inv memory_view "verify_update_header X" for X
proof unfold_locales
  fix b t opts now y
  show "verify_update_header X (as_untrusted_state b) (as_trusted_state t) opts now = Ok Success \<Longrightarrow> lb_height t < lb_height b"
    by (rule verify_update_header_above)
  assume "verify_update_header X (as_untrusted_state b) (as_trusted_state t) opts now = (Ok (NotEnoughTrust y) :: (lc_error, verdict) result)"
  from verify_update_header_NotEnoughTrust [OF this]
  have "unat (lb_height t) + 1 < unat (lb_height b)" "unat (lb_height t) + 1 < 2 ^ 63"
    by (simp_all add: ubs_height_def as_untrusted_state_def as_trusted_state_def lb_height_def)
  then show "lb_height t < lb_height b \<and> lb_height b \<noteq> lb_height t + 1"
    using height_next_iff [of "lb_height t" "lb_height b"] by (auto simp: word_less_nat_alt)
qed

text \<open>The chain of trust, for the entry point of the stable client.\<close>

lemma verify_to_target_vouched:
  assumes "lc_verifier C = verify_update_header X" "memory_inv (st_light_store st)"
    and "vouched (trust_chain (lc_verifier C) (lc_options C) (lc_clock C) roots) (memory_view (st_light_store st))"
    and "verify_to_target X memory_ops C target st = Some (st', r)"
  shows "memory_inv (st_light_store st')"
    and "vouched (trust_chain (lc_verifier C) (lc_options C) (lc_clock C) roots) (memory_view (st_light_store st'))"
    and "r = Ok b \<Longrightarrow> trust_chain (lc_verifier C) (lc_options C) (lc_clock C) roots b \<and> lb_height b = target
      \<and> tv_of (memory_view (st_light_store st')) target \<noteq> None"
proof -
  let ?P = "trust_chain (lc_verifier C) (lc_options C) (lc_clock C) roots"
  have link: "\<forall>a b n. ?P a \<longrightarrow> verify_update_header X (as_untrusted_state b) (as_trusted_state a) (lc_options C) (lc_clock C n)
      = (Ok Success :: (lc_error, verdict) result) \<longrightarrow> ?P b"
    using trust_chain.link [of "lc_verifier C" "lc_options C" "lc_clock C" roots] assms(1) by metis
  note good = prod.verify_to_target_good [where P = ?P, OF assms(1) link assms(4) [unfolded verify_to_target_def]]
  have stub: "preserves (\<lambda>st. memory_inv (st_light_store st) \<and> vouched ?P (memory_view (st_light_store st))) (verify_backward memory_ops target)"
    "\<And>st st' b. verify_backward memory_ops target st \<noteq> (st', Ok b)"
    by (rule prod.verify_backward_stub)+
  show "memory_inv (st_light_store st')" "vouched ?P (memory_view (st_light_store st'))"
    using good(1) [OF _ stub(1)] assms(2,3) stub(2) by blast+
  show "r = Ok b \<Longrightarrow> ?P b \<and> lb_height b = target \<and> tv_of (memory_view (st_light_store st')) target \<noteq> None"
    using good(2) [OF _ stub(1)] assms(2,3) stub(2) by blast
qed

end
