(* ===== verification/Sample.thy ===== *)
theory Sample
  imports Light_Client_Lemmas
begin

text \<open>
  A small concrete world in which the hypotheses of the theorems hold: a calendar with exact
  arithmetic, a digest that tells only whether a marked byte was hashed, a toy signature scheme in which the signature under a key is the
  key twice, two validators, and a chain with one block per second that the stronger validator
  signs alone.
\<close>

section \<open>The external functions\<close>

definition sample_digest :: "bytes \<Rightarrow> bytes" where
  "sample_digest b = (if 8 \<in> set b then replicate 32 8 else replicate 32 7)"

definition sample_externals :: externals where
  "sample_externals = ref_calendar
     \<lparr>x_sha256 = sample_digest, x_ripemd160 = (\<lambda>_. replicate 20 7),
      x_ed25519_key_ok = (\<lambda>k. length k = 32), x_ed25519_sig_ok = (\<lambda>s. length s = 64),
      x_ed25519_verify = (\<lambda>k m s. s = k @ k),
      x_secp256k1_from_sec1 = Some, x_secp256k1_sig_ok = (\<lambda>s. length s = 64),
      x_secp256k1_verify = (\<lambda>k m s. s = k @ k),
      x_enc_version = (\<lambda>_. []), x_enc_string = (\<lambda>_. []), x_enc_i64 = (\<lambda>_. []), x_enc_timestamp = (\<lambda>_. []),
      x_enc_block_id = (\<lambda>_. []), x_enc_bytes = (\<lambda>b. b), x_enc_simple_validator = (\<lambda>_. []),
      x_enc_canonical_vote_delimited = (\<lambda>_. []),
      x_duration_from_std = (\<lambda>_. None), x_duration_into_std = (\<lambda>_. None), x_datetime_add = (\<lambda>_ _. None),
      x_datetime_sub = (\<lambda>_ _. None), x_year = (\<lambda>_. 0), x_from_unix_nanos = (\<lambda>_. None)\<rparr>"

lemma sample_externals_time [simp]: "time_crate sample_externals"
  by (simp add: sample_externals_def)

lemma sample_externals_simps [simp]:
  "x_sha256 sample_externals = sample_digest" "x_ed25519_key_ok sample_externals k \<longleftrightarrow> length k = 32"
  "x_ed25519_sig_ok sample_externals s \<longleftrightarrow> length s = 64" "x_ed25519_verify sample_externals k m s \<longleftrightarrow> s = k @ k"
  "x_secp256k1_from_sec1 sample_externals b = Some b"
  "x_enc_version sample_externals v = []" "x_enc_string sample_externals c = []" "x_enc_i64 sample_externals i = []"
  "x_enc_timestamp sample_externals t = []" "x_enc_block_id sample_externals d = []" "x_enc_bytes sample_externals b = b"
  "x_enc_simple_validator sample_externals w = []"
  by (simp_all add: sample_externals_def ref_calendar_def)

lemma sample_externals_laws [simp]: "sha256_length sample_externals" "sec1_canonical sample_externals"
  by (simp_all add: sha256_length_def sec1_canonical_def sample_digest_def)

lemma sample_root:
  "simple_hash_from_byte_vectors sample_externals bs =
     (if \<exists>b \<in> set bs. 8 \<in> set b then replicate 32 8 else replicate 32 7)"
proof -
  have "tree_hash sample_externals bs h \<Longrightarrow> h = (if \<exists>b \<in> set bs. 8 \<in> set b then replicate 32 8 else replicate 32 7)" for h
    by (induction rule: tree_hash.induct) (auto simp: sample_digest_def)
  then show ?thesis by (simp add: simple_hash_iff_tree_hash)
qed

lemma sample_set_hash [simp]: "set_hash sample_externals s = Sha256 (replicate 32 7)"
  by (auto simp: set_hash_def sample_root info_hash_bytes_def)

lemma sample_header_hash [simp]:
  "header_hash sample_externals h = Sha256 (if 8 \<in> set (hash_as_bytes (hash_or_default (hdr_last_commit_hash h))
      @ hash_as_bytes (hash_or_default (hdr_data_hash h)) @ hash_as_bytes (hdr_validators_hash h)
      @ hash_as_bytes (hdr_next_validators_hash h) @ hash_as_bytes (hdr_consensus_hash h) @ hdr_app_hash h
      @ hash_as_bytes (hash_or_default (hdr_last_results_hash h)) @ hash_as_bytes (hash_or_default (hdr_evidence_hash h))
      @ hdr_proposer_address h) then replicate 32 8 else replicate 32 7)"
  by (auto simp: header_hash_def header_fields_bytes_def sample_root)

section \<open>Validators\<close>

definition sample_info :: "8 word \<Rightarrow> u64 \<Rightarrow> info" where
  "sample_info n p = \<lparr>info_address = replicate 20 n, info_pub_key = Ed25519 (replicate 32 n), info_power = p,
     info_name = None, info_proposer_priority = 0\<rparr>"

definition sample_set :: val_set where
  "sample_set = \<lparr>vs_validators = [sample_info 1 20, sample_info 2 5], vs_proposer = None, vs_total_voting_power = 25\<rparr>"

lemma sample_info_simps [simp]:
  "info_address (sample_info n p) = replicate 20 n" "info_pub_key (sample_info n p) = Ed25519 (replicate 32 n)"
  "info_power (sample_info n p) = p" "info_name (sample_info n p) = None"
  by (simp_all add: sample_info_def)

lemma sample_set_simps [simp]:
  "vs_validators sample_set = [sample_info 1 20, sample_info 2 5]" "vs_total_voting_power sample_set = 25"
  "vs_proposer sample_set = None"
  by (simp_all add: sample_set_def)

lemma replicate_eq_iff [simp]: "0 < n \<Longrightarrow> replicate n x = replicate n y \<longleftrightarrow> x = y"
  by (cases n) auto

lemma replicate_less [simp]: "0 < n \<Longrightarrow> x < y \<Longrightarrow> replicate n x \<le> replicate n (y :: 'a::linorder)"
  by (cases n) auto

lemma sample_set_inv [simp]: "set_inv sample_set"
  by (simp add: set_inv_def powers_def sorted_validators_def less_eq_reverse_def less_reverse_def max_total_voting_power_def
      i64_max_def less_eq_prod_def)

lemma sample_keys [simp]: "keys_by_address (vs_validators sample_set @ vs_validators sample_set)"
  "keys_by_address (vs_validators sample_set)"
  by (auto simp: keys_by_address_def)

section \<open>A chain\<close>

definition sample_hash :: tm_hash where
  "sample_hash = Sha256 (replicate 32 7)"

definition sample_time :: "height \<Rightarrow> time" where
  "sample_time h = int (unat h) * 1000000000"

definition sample_header :: "height \<Rightarrow> header" where
  "sample_header h =
     \<lparr>hdr_version = \<lparr>ver_block = 11, ver_app = 0\<rparr>, hdr_chain_id = ''test'', hdr_height = h, hdr_time = sample_time h,
      hdr_last_block_id = None, hdr_last_commit_hash = None, hdr_data_hash = None, hdr_validators_hash = sample_hash,
      hdr_next_validators_hash = sample_hash, hdr_consensus_hash = sample_hash, hdr_app_hash = [],
      hdr_last_results_hash = None, hdr_evidence_hash = None, hdr_proposer_address = replicate 20 1\<rparr>"

definition sample_commit :: "height \<Rightarrow> commit" where
  "sample_commit h =
     \<lparr>cmt_height = h, cmt_round = 0,
      cmt_block_id = \<lparr>bid_hash = sample_hash, bid_part_set_header = \<lparr>psh_total = 1, psh_hash = sample_hash\<rparr>\<rparr>,
      cmt_signatures = [BlockIdFlagCommit (replicate 20 1) (sample_time h) (Some (replicate 64 1)), BlockIdFlagAbsent]\<rparr>"

definition sample_signed_header :: "height \<Rightarrow> signed_header" where
  "sample_signed_header h = \<lparr>sh_header = sample_header h, sh_commit = sample_commit h\<rparr>"

definition sample_block :: "height \<Rightarrow> light_block" where
  "sample_block h = \<lparr>lb_signed_header = sample_signed_header h, lb_validators = sample_set,
     lb_next_validators = sample_set, lb_provider = replicate 20 9\<rparr>"

definition sample_options :: options where
  "sample_options = \<lparr>opt_trust_threshold = one_third, opt_trusting_period = 1000 * 1000000000,
     opt_clock_drift = 10 * 1000000000\<rparr>"

lemmas sample_simps = sample_header_def sample_commit_def sample_signed_header_def sample_block_def sample_hash_def
  as_untrusted_state_def as_trusted_state_def lb_height_def

lemma lb_height_sample [simp]: "lb_height (sample_block h) = h"
  by (simp add: sample_simps)

lemma sample_signs:
  "signed_by sample_externals (sample_signed_header h) a k \<longleftrightarrow>
     a = replicate 20 1 \<and> signature_verify sample_externals k
       (precommit_bytes sample_externals (sample_signed_header h) (sample_time h)) (replicate 64 1) = Ok ()"
  by (auto simp: signed_by_def sample_simps)

lemma sample_signature: "replicate 64 (1 :: 8 word) = replicate 32 1 @ replicate 32 1"
  by (simp flip: replicate_add)

lemma sample_signed_power [simp]: "signed_power sample_externals (sample_signed_header h) sample_set = 20"
  by (simp add: signed_power_def sample_signs sample_signature)

lemma sample_addresses: "commit_addresses (sample_signed_header h) = [replicate 20 1]"
  by (simp add: commit_addresses_def sample_simps)

lemma sample_states:
  "ubs_validators (as_untrusted_state (sample_block h)) = sample_set"
  "ubs_signed_header (as_untrusted_state (sample_block h)) = sample_signed_header h"
  "tbs_next_validators (as_trusted_state (sample_block t)) = sample_set"
  "tbs_header_time (as_trusted_state (sample_block t)) = sample_time t"
  "tbs_height (as_trusted_state (sample_block t)) = t"
  "keys_by_address ([sample_info 1 20, sample_info 2 5] @ [sample_info 1 20, sample_info 2 5])"
  "keys_by_address [sample_info 1 20, sample_info 2 5, sample_info 1 20, sample_info 2 5]"
  "small_threshold (opt_trust_threshold sample_options)"
  by (simp_all add: sample_simps sample_options_def keys_by_address_def)

text \<open>Times, heights and power along the chain.\<close>

lemma sample_time_inv: "k \<le> 100 \<Longrightarrow> time_inv (sample_time k)"
proof -
  assume "k \<le> 100"
  then have "unat k \<le> 100" by (simp add: word_le_nat_alt)
  then have "0 \<le> int (unat k)" "int (unat k) \<le> 100" by linarith+
  then show ?thesis unfolding time_inv_def sample_time_def year_1_def year_10000_def by linarith
qed

lemma sample_well_formed: "well_formed_block sample_externals (as_untrusted_state (sample_block h))"
  by (simp add: well_formed_block_def Let_def sample_simps cs_is_absent_def)

lemma sample_chain_order:
  assumes "t < h" "h \<le> 100"
  shows "follows (as_trusted_state (sample_block t)) (as_untrusted_state (sample_block h)) sample_options (sample_time 100)"
    and "in_range (as_trusted_state (sample_block t)) sample_options (sample_time 100)"
    and "hdr_time (sh_header (sample_signed_header h)) < sample_time 100 + int (opt_clock_drift sample_options)"
proof -
  have n: "unat t < unat h" "unat h \<le> 100" using assms by (simp_all add: word_less_nat_alt word_le_nat_alt)
  have m: "uint t < uint h" "uint h \<le> 100" "0 \<le> uint t" using assms by (simp_all add: word_less_def word_le_def)
  show "follows (as_trusted_state (sample_block t)) (as_untrusted_state (sample_block h)) sample_options (sample_time 100)"
    using n m by (simp add: follows_def Let_def sample_simps sample_options_def sample_time_def add_pos_nonneg)
  show "in_range (as_trusted_state (sample_block t)) sample_options (sample_time 100)"
    using n m by (simp add: in_range_def sample_simps sample_options_def sample_time_def year_10000_def)
  show "hdr_time (sh_header (sample_signed_header h)) < sample_time 100 + int (opt_clock_drift sample_options)"
    using m by (simp add: sample_simps sample_options_def sample_time_def)
qed

lemma sample_commit_facts:
  "well_formed_commit (sample_signed_header h)"
  "v \<in> set (vs_validators sample_set) \<Longrightarrow> info_address v \<in> set (commit_addresses (sample_signed_header h)) \<Longrightarrow>
     signs sample_externals (sample_signed_header h) v"
  "two_thirds_signed sample_externals (as_untrusted_state (sample_block h))"
  "trusted_power_signed sample_externals (opt_trust_threshold sample_options) (as_trusted_state (sample_block t))
     (as_untrusted_state (sample_block h))"
proof -
  show "well_formed_commit (sample_signed_header h)"
    using sample_addresses [of h] by (simp add: well_formed_commit_def sample_commit_def sample_signed_header_def)
  show "v \<in> set (vs_validators sample_set) \<Longrightarrow> info_address v \<in> set (commit_addresses (sample_signed_header h)) \<Longrightarrow>
     signs sample_externals (sample_signed_header h) v"
    by (auto simp: sample_addresses sample_signs sample_signature)
qed (simp_all add: two_thirds_signed_def trusted_power_signed_def sample_states sample_options_def one_third_def)

lemma sample_commit_ok:
  "unat t + 1 < 2 ^ 63 \<Longrightarrow>
   verify_commit_against_trusted sample_externals (as_untrusted_state (sample_block h)) (as_trusted_state (sample_block t))
     sample_options = Ok Success"
  by (rule verify_commit_against_trusted_complete)
    (use sample_commit_facts in \<open>auto simp: sample_states simp del: append.simps\<close>)

text \<open>Every block of the chain is verified from every earlier one while the clock is near.\<close>

lemma sample_verified:
  assumes "t < h" "h \<le> 100"
  shows "verify_update_header sample_externals (as_untrusted_state (sample_block h)) (as_trusted_state (sample_block t))
    sample_options (sample_time 100) = Ok Success"
proof -
  have "unat t < 100" "t \<le> 100" using assms by (auto simp: word_less_nat_alt word_le_nat_alt)
  then show ?thesis
    using sample_chain_order [OF assms] sample_time_inv [of t] sample_time_inv [of 100] sample_commit_ok [of t h]
    by (subst verify_update_header_Success_cases) (simp_all add: sample_states sample_well_formed)
qed

section \<open>A change of validators\<close>

text \<open>A block after which validators take over that did not sign the later blocks.\<close>

definition sample_other_set :: val_set where
  "sample_other_set = \<lparr>vs_validators = [sample_info 3 10], vs_proposer = None, vs_total_voting_power = 10\<rparr>"

definition sample_moved :: "height \<Rightarrow> light_block" where
  "sample_moved t = (sample_block t)\<lparr>lb_next_validators := sample_other_set\<rparr>"

lemma sample_other_set_inv: "set_inv sample_other_set"
  by (simp add: sample_other_set_def set_inv_def powers_def sorted_validators_def max_total_voting_power_def i64_max_def)

lemma sample_moved_check:
  "\<exists>y. check_enough_trust_and_signers sample_externals (sample_signed_header h) sample_other_set one_third sample_set
     = Err (VE_NotEnoughTrust y)"
proof -
  have keys: "keys_by_address (vs_validators sample_other_set @ vs_validators sample_set)"
      "keys_by_address (vs_validators sample_other_set)"
    by (auto simp: keys_by_address_def sample_other_set_def)
  obtain y where y: "voting_power_in sample_externals (sample_signed_header h) sample_other_set one_third = Ok y"
    using voting_power_in_complete [OF sample_commit_facts(1) keys(2), of h sample_externals one_third]
    by (auto simp: sample_other_set_def sample_addresses)
  obtain z where z: "voting_power_in sample_externals (sample_signed_header h) sample_set two_thirds = Ok z"
    using voting_power_in_complete [OF sample_commit_facts(1) sample_keys(2), of h sample_externals two_thirds]
      sample_commit_facts(2) by blast
  have "tally_check y \<noteq> Ok ()"
    using voting_power_in_Ok(4) [OF sample_other_set_inv small_threshold_one_third keys(2) y]
    by (simp add: signed_power_def sample_other_set_def sample_signs)
  then have "tally_check y = Err y" by (simp add: tally_check_def split: if_splits)
  then show ?thesis
    using voting_power_in_sets_eq [OF sample_other_set_inv keys(1), of sample_externals "sample_signed_header h" one_third two_thirds] y z
    by (simp add: check_enough_trust_and_signers_def)
qed

lemma sample_not_enough_trust:
  assumes "t + 1 < h" "t < h" "h \<le> 100"
  shows "\<exists>y. verify_update_header sample_externals (as_untrusted_state (sample_block h)) (as_trusted_state (sample_moved t))
    sample_options (sample_time 100) = Ok (NotEnoughTrust y)"
proof -
  let ?u = "as_untrusted_state (sample_block h)" and ?T = "as_trusted_state (sample_moved t)"
  have n: "unat t < 100" "t \<le> 100" using assms by (auto simp: word_less_nat_alt word_le_nat_alt)
  have "follows ?T ?u sample_options (sample_time 100)" "in_range ?T sample_options (sample_time 100)"
    using sample_chain_order [OF assms(2,3)]
    by (simp_all add: follows_def in_range_def as_trusted_state_def sample_moved_def)
  then have trusted: "validate_against_trusted sample_externals ?u ?T sample_options (sample_time 100) = Ok Success"
    using sample_time_inv [OF n(2)]
    by (subst validate_against_trusted_Success) (simp_all add: in_range_def sample_simps sample_moved_def)
  have past: "check_header_is_from_past sample_externals ?u sample_options (sample_time 100) = Ok Success"
    using sample_chain_order(2,3) [OF assms(2,3)] header_from_past_Ok [OF sample_externals_time sample_time_inv [of 100]]
    by (simp add: check_header_is_from_past_def verdict_or_Success sample_states in_range_def)
  have "ubs_height ?u \<noteq> tbs_height ?T + 1"
    using assms(1) by (auto simp: ubs_height_def sample_simps sample_moved_def)
  moreover obtain y where "check_enough_trust_and_signers sample_externals (sample_signed_header h) sample_other_set one_third sample_set
     = Err (VE_NotEnoughTrust y)" using sample_moved_check by blast
  moreover have "tbs_height ?T = t" "tbs_next_validators ?T = sample_other_set" "opt_trust_threshold sample_options = one_third"
    by (simp_all add: sample_simps sample_moved_def sample_options_def)
  ultimately have commit: "verify_commit_against_trusted sample_externals ?u ?T sample_options = Ok (NotEnoughTrust y)"
    using n by (simp add: verify_commit_against_trusted_def has_sufficient_validators_and_signers_overlap_def sample_states
        verdict_or_NotEnoughTrust and_then_eq_Ok height_increment_Ok_iff)
  have sets: "verify_validator_sets sample_externals ?u = Ok Success"
    using sample_well_formed by (simp add: verify_validator_sets_Success)
  show ?thesis by (simp add: verify_update_header_def ensure_success_def commit past trusted sets)
qed

section \<open>A minority commit\<close>

text \<open>Four validators of equal power, a header for height 2 that names them, and the signature of one.\<close>

definition sample_weak_set :: val_set where
  "sample_weak_set = \<lparr>vs_validators = [sample_info 1 5, sample_info 2 5, sample_info 3 5, sample_info 4 5],
     vs_proposer = None, vs_total_voting_power = 20\<rparr>"

definition sample_minority :: signed_header where
  "sample_minority = (sample_signed_header 2)\<lparr>sh_commit := (sample_commit 2)\<lparr>cmt_signatures :=
     BlockIdFlagCommit (replicate 20 1) (sample_time 2) (Some (replicate 64 1)) # [BlockIdFlagAbsent, BlockIdFlagAbsent, BlockIdFlagAbsent]\<rparr>\<rparr>"

definition sample_forged :: untrusted_block_state where
  "sample_forged = \<lparr>ubs_signed_header = sample_minority, ubs_validators = readdress (replicate 20 1) sample_weak_set,
     ubs_next_validators = Some sample_set\<rparr>"

lemma sample_weak_set_inv: "set_inv sample_weak_set"
  by (simp add: sample_weak_set_def set_inv_def powers_def sorted_validators_def less_eq_reverse_def less_reverse_def
      less_eq_prod_def max_total_voting_power_def i64_max_def)

lemma sample_minority_power: "signed_power sample_externals sample_minority sample_weak_set = 5"
  by (simp add: signed_power_def signed_by_def sample_minority_def sample_weak_set_def sample_simps sample_signature)

end
