(* ===== verification/Verifier_Properties.thy ===== *)
theory Verifier_Properties
  imports Sample
begin

text \<open>
  The properties of the \<open>light-client-verifier\<close> crate: what a successful verification means, which
  honest blocks it accepts, a forged block it also accepts, the tally behind both, and the absence
  of panics.
\<close>

section \<open>Verdicts\<close>

text \<open>
  C1. If \<open>verify_update_header\<close> answers \<open>Success\<close>, the block is consistent with itself (validator
  hashes, commit hash, signers), follows the trusted block in time, chain and height within the
  trusting period, lies before the drifted clock, more than two thirds of its own validators' power
  signed it, and unless it is the next height, more than the trusted fraction of the trusted
  validators' power did too. Addresses must determine keys in the two sets.
\<close>

theorem verify_update_header_sound:
  assumes "time_crate X" "time_inv (tbs_header_time T)" "time_inv now"
    and "set_inv (ubs_validators u)" "set_inv (tbs_next_validators T)" "small_threshold (opt_trust_threshold opts)"
    and "keys_by_address (vs_validators (tbs_next_validators T) @ vs_validators (ubs_validators u))"
    and "verify_update_header X u T opts now = (Ok Success :: ('e, verdict) result)"
  shows "well_formed_block X u \<and> follows T u opts now
    \<and> hdr_time (sh_header (ubs_signed_header u)) < now + int (opt_clock_drift opts)
    \<and> two_thirds_signed X u
    \<and> (adjacent T u \<or> trusted_power_signed X (opt_trust_threshold opts) T u)"
  using assms(8) verify_commit_against_trusted_Success [OF assms(4-7)]
  unfolding verify_update_header_Success_cases [OF assms(1-3)] by blast

theorem verify_update_header_sound_witness:
  "two_thirds_signed sample_externals (as_untrusted_state (sample_block 3))
   \<and> (adjacent (as_trusted_state (sample_block 1)) (as_untrusted_state (sample_block 3))
      \<or> trusted_power_signed sample_externals (opt_trust_threshold sample_options) (as_trusted_state (sample_block 1))
          (as_untrusted_state (sample_block 3)))"
  using verify_update_header_sound [where T = "as_trusted_state (sample_block 1)" and opts = sample_options
        and now = "sample_time 100", OF _ _ _ _ _ _ _ sample_verified [of 1 3]]
  by (simp add: sample_states sample_time_inv)

text \<open>
  C6. Conversely a block that is consistent with itself, follows the trusted block, is not from the
  future, whose commit holds one signed entry per address with signatures that verify for every
  validator named, and that carries the required power, is accepted, as long as no date or height
  involved is at the end of its range.
\<close>

theorem verify_update_header_complete:
  assumes "time_crate X" "time_inv (tbs_header_time T)" "time_inv now"
    and "set_inv (ubs_validators u)" "set_inv (tbs_next_validators T)" "small_threshold (opt_trust_threshold opts)"
    and "keys_by_address (vs_validators (tbs_next_validators T) @ vs_validators (ubs_validators u))"
    and "well_formed_block X u" "follows T u opts now" "in_range T opts now"
    and "hdr_time (sh_header (ubs_signed_header u)) < now + int (opt_clock_drift opts)"
    and "well_formed_commit (ubs_signed_header u)"
    and "\<forall>v \<in> set (vs_validators (tbs_next_validators T)) \<union> set (vs_validators (ubs_validators u)).
      info_address v \<in> set (commit_addresses (ubs_signed_header u)) \<longrightarrow> signs X (ubs_signed_header u) v"
    and "two_thirds_signed X u" "adjacent T u \<or> trusted_power_signed X (opt_trust_threshold opts) T u"
  shows "verify_update_header X u T opts now = Ok Success"
proof -
  have "unat (tbs_height T) + 1 < 2 ^ 63" using assms(10) by (simp add: in_range_def)
  then have "verify_commit_against_trusted X u T opts = Ok Success"
    using assms(15) by (intro verify_commit_against_trusted_complete [OF assms(4-7,12-14)]) auto
  then show ?thesis
    unfolding verify_update_header_Success_cases [OF assms(1-3)] using assms(8-11) by blast
qed

theorem verify_update_header_complete_witness:
  "verify_update_header sample_externals (as_untrusted_state (sample_block 3)) (as_trusted_state (sample_block 1))
     sample_options (sample_time 100) = (Ok Success :: (lc_error, verdict) result)"
  by (rule verify_update_header_complete)
    (use sample_commit_facts sample_chain_order [of 1 3] in
      \<open>auto simp: sample_states sample_time_inv sample_well_formed simp del: append.simps\<close>)

text \<open>
  The verdict \<open>NotEnoughTrust\<close>, which makes the client bisect, is given only for a block at
  least two heights above the trusted one.
\<close>

theorem not_enough_trust_only_ahead:
  assumes "verify_update_header X u T opts now = (Ok (NotEnoughTrust t) :: ('e, verdict) result)"
  shows "unat (tbs_height T) + 2 \<le> unat (ubs_height u)"
  using verify_update_header_NotEnoughTrust(1) [OF assms] by simp

theorem not_enough_trust_only_ahead_witness:
  "\<exists>y. verify_update_header sample_externals (as_untrusted_state (sample_block 3)) (as_trusted_state (sample_moved 1))
      sample_options (sample_time 100) = (Ok (NotEnoughTrust y) :: (lc_error, verdict) result)
    \<and> unat (tbs_height (as_trusted_state (sample_moved 1))) + 2 \<le> unat (ubs_height (as_untrusted_state (sample_block 3)))"
proof -
  obtain y where "verify_update_header sample_externals (as_untrusted_state (sample_block 3)) (as_trusted_state (sample_moved 1))
      sample_options (sample_time 100) = (Ok (NotEnoughTrust y) :: (lc_error, verdict) result)"
    using sample_not_enough_trust [of 1 3, where 'a = lc_error] by auto
  with not_enough_trust_only_ahead [OF this] show ?thesis by blast
qed

text \<open>
  \<open>verify_update_header\<close> neither fails nor panics as long as the trusted height is not the
  largest one and the commit has at most \<open>2 ^ 31\<close> entries; it always answers with a verdict.
\<close>

theorem verify_update_header_answers:
  assumes "unat (tbs_height T) + 1 < 2 ^ 63" "length (cmt_signatures (sh_commit (ubs_signed_header u))) \<le> 2 ^ 31"
  shows "\<exists>v. verify_update_header X u T opts now = (Ok v :: ('e, verdict) result)"
  using verify_update_header_neq_Panic [OF assms, of X opts now, where 'e = 'e]
    verify_update_header_neq_Err [of X u T opts now, where 'a = 'e]
  by (cases "verify_update_header X u T opts now :: ('e, verdict) result") auto

theorem verify_update_header_answers_witness:
  "\<exists>v. verify_update_header sample_externals (as_untrusted_state (sample_block 7)) (as_trusted_state (sample_block 9))
     sample_options 0 = (Ok v :: (lc_error, verdict) result)"
  by (rule verify_update_header_answers) (simp_all add: sample_simps)

section \<open>Tallies\<close>

text \<open>
  C19. For a set in which an address belongs to one key, and a threshold with a denominator of at most 16,
  a tally never exceeds the power of the validators of the set that signed the block, which is at most
  the power of the set, so that the sum does not wrap. The code stops counting once the threshold is
  met: the tally is the signed power, or less when it passes its check. It passes its check exactly
  when the signed power exceeds the threshold's share of the set's total power.
\<close>

theorem voting_power_in_correct:
  assumes "set_inv s" "small_threshold t" "keys_by_address (vs_validators s)" "voting_power_in X sh s t = Ok y"
  shows "tly_total y = vs_total_voting_power s \<and> unat (tly_tallied y) \<le> signed_power X sh s
    \<and> signed_power X sh s \<le> unat (vs_total_voting_power s)
    \<and> (tally_check y = Ok () \<or> unat (tly_tallied y) = signed_power X sh s)
    \<and> (tally_check y = Ok () \<longleftrightarrow>
        unat (vs_total_voting_power s) * unat (numerator t) < signed_power X sh s * unat (denominator t))"
  using voting_power_in_Ok [OF assms] signed_power_le [of X sh s] set_invD(1) [OF assms(1)] by simp

theorem voting_power_in_correct_witness:
  "\<exists>y. voting_power_in sample_externals (sample_signed_header 3) sample_set two_thirds = Ok y
    \<and> unat (tly_tallied y) \<le> 20 \<and> tally_check y = Ok ()"
proof -
  obtain y where y: "voting_power_in sample_externals (sample_signed_header 3) sample_set two_thirds = Ok y"
    using voting_power_in_complete [OF sample_commit_facts(1) sample_keys(2), of 3 sample_externals two_thirds]
      sample_commit_facts(2) by blast
  with voting_power_in_correct [OF sample_set_inv small_threshold_two_thirds sample_keys(2) y] show ?thesis by auto
qed

text \<open>
  C20. Tallying one commit for two validator sets with shared signature checks gives exactly what two
  separate tallies give, error for error, when an address belongs to one key in both sets.
\<close>

theorem voting_power_in_sets_separate:
  assumes "set_inv s1" "keys_by_address (vs_validators s1 @ vs_validators s2)"
  shows "voting_power_in_sets X sh (s1, t1) (s2, t2) =
    and_then (voting_power_in X sh s1 t1) (\<lambda>a. and_then (voting_power_in X sh s2 t2) (\<lambda>b. Ok (a, b)))"
  by (rule voting_power_in_sets_eq [OF assms])

theorem voting_power_in_sets_separate_witness:
  "voting_power_in_sets sample_externals (sample_signed_header 3) (sample_set, one_third) (sample_set, two_thirds) =
    and_then (voting_power_in sample_externals (sample_signed_header 3) sample_set one_third)
      (\<lambda>a. and_then (voting_power_in sample_externals (sample_signed_header 3) sample_set two_thirds) (\<lambda>b. Ok (a, b)))"
  by (rule voting_power_in_sets_separate) (simp_all only: sample_keys sample_set_inv)

section \<open>A forged commit\<close>

text \<open>
  C21. One signature can stand for a whole validator set. Take any validator set of a header, give all
  its validators the address of one commit entry, which leaves the set's hash unchanged, and let the
  first validator sign that entry: the block is accepted at the next height, with every other entry
  of the commit absent.
\<close>

theorem one_signature_accepted:
  assumes "time_crate X" "time_inv (tbs_header_time T)" "time_inv now"
    and "set_inv s" "vs_validators s = v # vs" "0 < vs_total_voting_power s" "length vs < 2 ^ 31"
    and "ubs_validators u = readdress a s" "ubs_signed_header u = sh"
      "hdr_validators_hash (sh_header sh) = set_hash X s"
      "\<forall>nv. ubs_next_validators u = Some nv \<longrightarrow> hdr_next_validators_hash (sh_header sh) = set_hash X nv"
      "bid_hash (cmt_block_id (sh_commit sh)) = header_hash X (sh_header sh)"
      "cmt_signatures (sh_commit sh) = BlockIdFlagCommit a ts (Some sg) # replicate (length vs) BlockIdFlagAbsent"
    and "signature_verify X (info_pub_key v) (precommit_bytes X sh ts) sg = Ok ()"
    and "follows T u opts now" "adjacent T u" "in_range T opts now"
      "hdr_time (sh_header sh) < now + int (opt_clock_drift opts)"
  shows "set_hash X (ubs_validators u) = set_hash X s \<and> verify_update_header X u T opts now = Ok Success"
  using forged_block_accepted [OF assms(1-16)] assms(8,17,18) by (simp add: in_range_def readdress_hash)

theorem one_signature_accepted_witness:
  "verify_update_header sample_externals sample_forged (as_trusted_state (sample_block 1)) sample_options (sample_time 100)
     = (Ok Success :: (lc_error, verdict) result)
   \<and> 4 * signed_power sample_externals sample_minority sample_weak_set = unat (vs_total_voting_power sample_weak_set)"
proof -
  have "follows (as_trusted_state (sample_block 1)) sample_forged sample_options (sample_time 100)"
    using sample_chain_order(1) [of 1 2]
    by (simp add: follows_def sample_forged_def sample_minority_def sample_simps Let_def)
  then have "set_hash sample_externals (ubs_validators sample_forged) = set_hash sample_externals sample_weak_set
      \<and> verify_update_header sample_externals sample_forged (as_trusted_state (sample_block 1)) sample_options (sample_time 100)
        = (Ok Success :: (lc_error, verdict) result)"
    using sample_chain_order(2,3) [of 1 2] sample_time_inv [of 1] sample_time_inv [of 100] sample_weak_set_inv
    by (intro one_signature_accepted [where vs = "[sample_info 2 5, sample_info 3 5, sample_info 4 5]" and v = "sample_info 1 5"
          and a = "replicate 20 1" and ts = "sample_time 2" and sg = "replicate 64 1" and sh = sample_minority])
      (simp_all add: sample_states, simp_all add: sample_forged_def sample_minority_def sample_weak_set_def sample_simps
        sample_signature adjacent_def ubs_height_def)
  then show ?thesis using sample_minority_power by (simp add: sample_weak_set_def)
qed

end
