(* ===== verification/Trace_Lemmas.thy ===== *)
theory Trace_Lemmas
  imports Light_Client_Lemmas
begin

text \<open>
  The verification trace of \<open>state.rs\<close>: what is recorded under a height always contains that height
  and nothing above it, whatever the client does, so that a trace read from the state is ordered by
  height and ends at the height it was asked for.
\<close>

definition trace_inv :: "'s lc_state \<Rightarrow> bool" where
  "trace_inv st \<longleftrightarrow>
     (\<forall>t hs. st_verification_trace st t = Some hs \<longrightarrow> distinct hs \<and> t \<in> set hs \<and> (\<forall>h \<in> set hs. h \<le> t))"

lemma trace_inv_state_new [simp]: "trace_inv (state_new s)"
  by (simp add: trace_inv_def state_new_def)

lemma trace_inv_store [simp]: "trace_inv (st\<lparr>st_light_store := s\<rparr>) \<longleftrightarrow> trace_inv st"
  "trace_inv (st\<lparr>st_ticks := n\<rparr>) \<longleftrightarrow> trace_inv st" "trace_inv (st\<lparr>st_fetches := n\<rparr>) \<longleftrightarrow> trace_inv st"
  by (simp_all add: trace_inv_def)

lemma trace_inv_trace_block: "trace_inv st \<Longrightarrow> trace_block t h st = Ok st' \<Longrightarrow> trace_inv st'"
  by (auto simp: trace_inv_def trace_block_def requires_def Let_def hs_insert_def split: if_splits option.splits)

lemma preserves_trace_basic [intro]:
  "preserves trace_inv (clock_now C)" "preserves trace_inv (fetch_light_block C a)"
  "preserves trace_inv (modify (trace_block t h))" "preserves trace_inv (store_insert S b k)"
  "preserves trace_inv (store_update S b k)"
  by (auto simp: preserves_def clock_now_def fetch_light_block_def store_insert_def store_update_def modify_def
      intro: trace_inv_trace_block split: result.splits)

lemma preserves_trace_get_or_fetch [intro]: "preserves trace_inv (get_or_fetch_block S C h)"
  unfolding get_or_fetch_block_def by (auto intro!: preserves_sbind split: option.splits)

lemma preserves_trace_record_verdict [intro]: "preserves trace_inv (record_verdict S h t b k v)"
  unfolding record_verdict_def by (auto intro!: preserves_sbind split: verdict.splits)

lemma preserves_trace_forward_step: "preserves trace_inv (forward_step X S C target current)"
  unfolding forward_step_def by (auto intro!: preserves_sbind)

lemma verify_forward_trace:
  "verify_forward X S C target st = Some (st', r) \<Longrightarrow> trace_inv st \<Longrightarrow> trace_inv st'"
  unfolding verify_forward_def using forward_loop_invariant [OF _ _ preserves_trace_forward_step] by blast

lemma preserves_trace_backward [intro]: "preserves trace_inv (verify_backward S target)"
  unfolding verify_backward_def lowest_root_def by (auto intro!: preserves_sbind)

lemma verify_to_target_trace:
  assumes "verify_to_target X S C target st = Some (st', r)" "trace_inv st"
  shows "trace_inv st'"
  using assms verify_forward_trace [of X S C target st st'] preservesD [OF preserves_trace_backward, of S target st st']
  by (auto simp: verify_to_target_def verify_to_target_with_def split: option.splits if_splits)

section \<open>Reading a trace\<close>

lemma set_get_trace:
  "set (get_trace S st target) =
     {b. \<exists>hs. st_verification_trace st target = Some hs \<and> (\<exists>h \<in> set hs. get_trusted_or_verified S (st_light_store st) h = Some b)}"
  by (auto simp: get_trace_def Let_def List.map_filter_def split: option.splits) force+

lemma sorted_get_trace: "sorted (map lb_height (get_trace S st target))"
  by (simp add: get_trace_def Let_def)

lemma get_trace_last:
  assumes st: "trace_inv st" "memory_inv (st_light_store st)" "get_trace memory_ops st target \<noteq> []"
    and target: "tv_of (memory_view (st_light_store st)) target \<noteq> None"
  shows "lb_height (last (get_trace memory_ops st target)) = target"
    and "b \<in> set (get_trace memory_ops st target) \<Longrightarrow> lb_height b \<le> target"
proof -
  let ?tr = "get_trace memory_ops st target"
  have "set ?tr \<noteq> {}" using st(3) by simp
  then obtain hs where hs: "st_verification_trace st target = Some hs" by (auto simp: set_get_trace)
  then have in_hs: "target \<in> set hs" "\<And>h. h \<in> set hs \<Longrightarrow> h \<le> target" using st(1) by (auto simp: trace_inv_def)
  note eq = mem.get_trusted_or_verified_eq [OF st(2)]
  show le: "lb_height b \<le> target" if "b \<in> set ?tr" for b
    using that hs in_hs(2) mem.tv_height [OF st(2)] by (fastforce simp: set_get_trace eq)
  from target obtain c where c: "tv_of (memory_view (st_light_store st)) target = Some c" by blast
  then have "c \<in> set ?tr" using hs in_hs(1) by (auto simp: set_get_trace eq)
  then obtain xs ys where tr: "?tr = xs @ c # ys" by (meson split_list)
  have "lb_height c = target" using mem.tv_height [OF st(2) c] .
  moreover have "lb_height c \<le> lb_height (last ?tr)"
    using sorted_get_trace [of memory_ops st target] tr by (auto simp: sorted_append last_map)
  moreover have "lb_height (last ?tr) \<le> target" using le st(3) by simp
  ultimately show "lb_height (last ?tr) = target" by simp
qed

end
