(* ===== verification/Client_Properties.thy ===== *)
theory Client_Properties
  imports Sample Trace_Lemmas
begin

text \<open>
  The properties of the \<open>light-client\<close> crate, for the production client: the verifier
  \<open>verify_update_header\<close>, the bisecting scheduler and the in-memory store. The peer and the clock are
  arbitrary unless a property says otherwise.
\<close>

section \<open>A client on the sample chain\<close>

definition sample_client :: "memory_store light_client" where
  "sample_client =
     \<lparr>lc_peer = replicate 20 9, lc_options = sample_options, lc_clock = (\<lambda>_. sample_time 100),
      lc_scheduler = basic_bisecting_schedule, lc_verifier = verify_update_header sample_externals,
      lc_io = (\<lambda>_ h. case h of At k \<Rightarrow> Ok (sample_block k) | Highest \<Rightarrow> Ok (sample_block 5))\<rparr>"

definition sample_state :: "memory_store lc_state" where
  "sample_state = state_new (memory_insert memory_new (sample_block 1) Trusted)"

lemma sample_client_simps [simp]:
  "lc_peer sample_client = replicate 20 9" "lc_options sample_client = sample_options"
  "lc_clock sample_client n = sample_time 100" "lc_scheduler sample_client = basic_bisecting_schedule"
  "lc_verifier sample_client = verify_update_header sample_externals"
  "lc_io sample_client n (At k) = Ok (sample_block k)"
  by (simp_all add: sample_client_def)

lemma sample_state_store: "st_light_store sample_state = [(1, \<lparr>se_light_block = sample_block 1, se_status = Trusted\<rparr>)]"
  by (simp add: sample_state_def state_new_def memory_insert_def memory_new_def)

lemma sample_state_inv [simp]: "memory_inv (st_light_store sample_state)"
  by (simp add: sample_state_store memory_inv_def bt_inv_def)

lemma sample_state_view: "memory_view (st_light_store sample_state) h k = (if h = 1 \<and> k = Trusted then Some (sample_block 1) else None)"
  by (simp add: sample_state_store memory_view_def)

text \<open>The search with a peer that answers as asked.\<close>

lemma honest_target:
  assumes "lc_verifier C = verify_update_header X" "lc_scheduler C = basic_bisecting_schedule"
    and "memory_inv (st_light_store st)" "holds_chain B (memory_view (st_light_store st))"
    and "highest_trusted_or_verified_before memory_ops (st_light_store st) target = Some t"
    and "honest_peer C B" "never_invalid X C B (lb_height t) target" "fits_i64 target"
  shows "\<exists>st'. verify_to_target X memory_ops C target st = Some (st', Ok (B target))"
proof (cases "get_trusted_or_verified memory_ops (st_light_store st) target")
  case None
  have le: "lb_height t \<le> target" by (rule prod.highest_before_Some(1) [OF assms(3,5)])
  obtain st' where fwd: "verify_forward X memory_ops C target st = Some (st', Ok (B target))"
      "tv_of (memory_view (st_light_store st')) target \<noteq> None"
    using prod.verify_forward_honest [OF assms(6,7,1,2,8,3,4,5) order_refl] by blast
  have "memory_inv (st_light_store st')" by (rule prod.verify_forward_inv [OF assms(1,3) fwd(1)])
  then show ?thesis using None le assms(5) fwd
    by (auto simp: verify_to_target_def verify_to_target_with_def ensures_def
        trusted_store_contains_block_at_target_height_def mem.get_law)
next
  case (Some b)
  then have tv: "tv_of (memory_view (st_light_store st)) target = Some b"
    by (simp add: mem.get_trusted_or_verified_eq [OF assms(3)])
  then have "b = B target" using assms(4) by (cases rule: tv_of_cases) (auto simp: holds_chain_def)
  with Some tv show ?thesis
    by (cases rule: tv_of_cases [OF tv])
      (auto simp: verify_to_target_def verify_to_target_with_def ensures_def
        trusted_store_contains_block_at_target_height_def mem.get_law [OF assms(3)])
qed

lemma within_trust_period_iff:
  assumes "time_crate X" "time_inv now"
  shows "lc_is_within_trust_period X b p now \<longleftrightarrow>
    year_1 \<le> now - int p \<and> now - int p < hdr_time (sh_header (lb_signed_header b))"
proof (cases "time_sub X now p")
  case (Ok start)
  then show ?thesis using time_sub_Ok_iff [OF assms, of p start] by (auto simp: lc_is_within_trust_period_def)
qed (use time_sub_Ok_iff [OF assms, of p "now - int p"] in \<open>auto simp: lc_is_within_trust_period_def\<close>)

lemma sample_client_honest: "honest_peer sample_client sample_block"
  by (simp add: honest_peer_def) (simp add: sample_block_def)

lemma sample_within_period:
  assumes "t \<le> 5"
  shows "lc_is_within_trust_period sample_externals (sample_block t) (opt_trusting_period sample_options) (sample_time 100)"
proof -
  have "unat t \<le> 5" using assms by (simp add: word_le_nat_alt)
  then show ?thesis
    using sample_time_inv [of 100]
    by (simp add: within_trust_period_iff) (simp add: sample_simps sample_options_def sample_time_def year_1_def
        order_less_le_trans [of _ 0])
qed

lemma sample_never_invalid: "never_invalid sample_externals sample_client sample_block 1 5"
  unfolding never_invalid_def
proof (intro allI impI conjI)
  fix n :: nat and t h :: height
  assume th: "1 \<le> t" "t \<le> h" "h \<le> 5"
  then show "lc_is_within_trust_period sample_externals (sample_block t) (opt_trusting_period (lc_options sample_client))
      (lc_clock sample_client n)"
    by (simp add: sample_within_period)
  show "\<exists>v. lc_verifier sample_client (as_untrusted_state (sample_block h)) (as_trusted_state (sample_block t))
      (lc_options sample_client) (lc_clock sample_client n) = Ok v \<and> (\<forall>e. v \<noteq> Invalid e)" if "t < h"
  proof -
    have "h \<le> 100" using th(3) by (rule order_trans) simp
    then show ?thesis by (simp add: sample_verified [OF that])
  qed
qed

lemma sample_state_chain: "holds_chain sample_block (memory_view (st_light_store sample_state))"
  by (simp add: holds_chain_def sample_state_view)

lemma sample_state_highest:
  "highest_trusted_or_verified_before memory_ops (st_light_store sample_state) 5 = Some (sample_block 1)"
  by (simp add: highest_trusted_or_verified_before_def memory_ops_def memory_highest_before_def sample_state_store)

lemma sample_run:
  "\<exists>st'. verify_to_target sample_externals memory_ops sample_client 5 sample_state = Some (st', Ok (sample_block 5))"
  by (rule honest_target [OF _ _ sample_state_inv sample_state_chain sample_state_highest sample_client_honest])
    (simp_all add: sample_never_invalid fits_i64_def i64_max_def)

section \<open>Safety and termination\<close>

text \<open>
  C2. Whatever the peer and the clock answer, \<open>verify_to_target\<close> adds a block to the trusted or verified
  blocks of the store only if it hangs on the blocks trusted before by a chain of successful
  verifications at readings of the clock; and a block it returns is such a block, of the requested
  height, and the store holds a trusted or verified block of that height.
\<close>

theorem verify_to_target_chain_of_trust:
  assumes "lc_verifier C = verify_update_header X" "memory_inv (st_light_store st)"
    and "vouched (trust_chain (lc_verifier C) (lc_options C) (lc_clock C) roots) (memory_view (st_light_store st))"
    and "verify_to_target X memory_ops C target st = Some (st', r)"
  shows "memory_inv (st_light_store st')
    \<and> vouched (trust_chain (lc_verifier C) (lc_options C) (lc_clock C) roots) (memory_view (st_light_store st'))
    \<and> (\<forall>b. r = Ok b \<longrightarrow> trust_chain (lc_verifier C) (lc_options C) (lc_clock C) roots b \<and> lb_height b = target
         \<and> get_trusted_or_verified memory_ops (st_light_store st') target \<noteq> None)"
  using verify_to_target_vouched [OF assms] by (simp add: mem.get_trusted_or_verified_eq del: tv_of_eq_None)

theorem verify_to_target_chain_of_trust_witness:
  "\<exists>st'. verify_to_target sample_externals memory_ops sample_client 5 sample_state = Some (st', Ok (sample_block 5))
     \<and> trust_chain (verify_update_header sample_externals) sample_options (lc_clock sample_client) {sample_block 1} (sample_block 5)
     \<and> get_trusted_or_verified memory_ops (st_light_store st') 5 \<noteq> None"
proof -
  obtain st' where run: "verify_to_target sample_externals memory_ops sample_client 5 sample_state = Some (st', Ok (sample_block 5))"
    using sample_run by blast
  have roots: "vouched (trust_chain (lc_verifier sample_client) (lc_options sample_client) (lc_clock sample_client) {sample_block 1})
      (memory_view (st_light_store sample_state))"
    by (auto simp: vouched_def sample_state_view intro: trust_chain.root)
  show ?thesis
    using verify_to_target_chain_of_trust [OF sample_client_simps(5) sample_state_inv roots run] run by auto
qed

text \<open>
  C4. \<open>verify_to_target\<close> always returns: the bisection ends whatever blocks, of whatever heights, the
  peer answers with, and whatever the clock reads.
\<close>

theorem verify_to_target_terminates:
  assumes "lc_verifier C = verify_update_header X" "lc_scheduler C = basic_bisecting_schedule"
    and "memory_inv (st_light_store st)"
  shows "\<exists>st' r. verify_to_target X memory_ops C target st = Some (st', r)"
  using prod.verify_to_target_returns [OF assms(3,1,2), of "verify_backward memory_ops" X target]
  by (auto simp: verify_to_target_def)

theorem verify_to_target_terminates_witness:
  "\<exists>st' r. verify_to_target sample_externals memory_ops sample_client 5 sample_state = Some (st', r)"
  by (rule verify_to_target_terminates) simp_all

text \<open>
  C7. With a peer that answers every request with the block of the requested height of one chain, whose
  blocks are within the trusting period and never invalid against each other from the trusted
  height to the target, \<open>verify_to_target\<close> returns the block of the target height. In particular no
  assertion of the client or the scheduler fails.
\<close>

theorem verify_to_target_honest_peer:
  assumes "lc_verifier C = verify_update_header X" "lc_scheduler C = basic_bisecting_schedule"
    and "memory_inv (st_light_store st)" "holds_chain B (memory_view (st_light_store st))"
    and "highest_trusted_or_verified_before memory_ops (st_light_store st) target = Some t"
    and "honest_peer C B" "never_invalid X C B (lb_height t) target" "fits_i64 target"
  shows "\<exists>st'. verify_to_target X memory_ops C target st = Some (st', Ok (B target))"
  by (rule honest_target [OF assms])

theorem verify_to_target_honest_peer_witness:
  "\<exists>st'. verify_to_target sample_externals memory_ops sample_client 5 sample_state = Some (st', Ok (sample_block 5))"
  by (rule verify_to_target_honest_peer [OF _ _ sample_state_inv sample_state_chain sample_state_highest sample_client_honest])
    (simp_all add: sample_never_invalid fits_i64_def i64_max_def)

section \<open>Traces\<close>

text \<open>
  C33. Whatever the peer and the clock answer, the verification trace of the state stays well formed, and
  the trace read for the target is ordered by height, consists of blocks that hang on the roots by
  successful verifications, and, unless it is empty, ends at the target.
\<close>

theorem verify_to_target_trace_ordered:
  assumes "lc_verifier C = verify_update_header X" "memory_inv (st_light_store st)" "trace_inv st"
    and "vouched (trust_chain (lc_verifier C) (lc_options C) (lc_clock C) roots) (memory_view (st_light_store st))"
    and "verify_to_target X memory_ops C target st = Some (st', Ok b)"
  shows "trace_inv st' \<and> sorted (map lb_height (get_trace memory_ops st' target))
    \<and> list_all (trust_chain (lc_verifier C) (lc_options C) (lc_clock C) roots) (get_trace memory_ops st' target)
    \<and> (get_trace memory_ops st' target = [] \<or> lb_height (last (get_trace memory_ops st' target)) = target)"
proof -
  note end_state = verify_to_target_vouched [OF assms(1,2,4,5)]
  have tr: "trace_inv st'" by (rule verify_to_target_trace [OF assms(5,3)])
  have "lb_height (last (get_trace memory_ops st' target)) = target" if "get_trace memory_ops st' target \<noteq> []"
    using get_trace_last(1) [OF tr end_state(1) that] end_state(3) by blast
  moreover have "list_all (trust_chain (lc_verifier C) (lc_options C) (lc_clock C) roots) (get_trace memory_ops st' target)"
    using end_state(2) unfolding list_all_iff vouched_def set_get_trace mem.get_trusted_or_verified_eq [OF end_state(1)]
    by (blast elim: tv_of_cases)
  ultimately show ?thesis using tr sorted_get_trace by blast
qed

theorem verify_to_target_trace_ordered_witness:
  "\<exists>st'. verify_to_target sample_externals memory_ops sample_client 5 sample_state = Some (st', Ok (sample_block 5))
     \<and> sorted (map lb_height (get_trace memory_ops st' 5))"
proof -
  obtain st' where run: "verify_to_target sample_externals memory_ops sample_client 5 sample_state = Some (st', Ok (sample_block 5))"
    using sample_run by blast
  have "trace_inv sample_state" by (simp add: sample_state_def)
  moreover have "vouched (trust_chain (lc_verifier sample_client) (lc_options sample_client) (lc_clock sample_client) {sample_block 1})
      (memory_view (st_light_store sample_state))"
    by (auto simp: vouched_def sample_state_view intro: trust_chain.root)
  ultimately show ?thesis
    using verify_to_target_trace_ordered [OF sample_client_simps(5) sample_state_inv _ _ run] run by blast
qed

subsection \<open>A run with a change of validators\<close>

lemma sample_moved_adjacent:
  "verify_update_header sample_externals (as_untrusted_state (sample_block 2)) (as_trusted_state (sample_moved 1))
     sample_options (sample_time 100) = Ok Success"
proof -
  let ?T = "as_trusted_state (sample_moved 1)" and ?u = "as_untrusted_state (sample_block 2)"
  have T: "tbs_next_validators ?T = sample_other_set" "tbs_height ?T = 1" "tbs_header_time ?T = sample_time 1"
    by (simp_all add: sample_moved_def sample_simps)
  have keys: "keys_by_address (vs_validators sample_other_set @ vs_validators sample_set)"
    by (auto simp: keys_by_address_def sample_other_set_def)
  have adj: "adjacent ?T ?u" by (simp add: adjacent_def T(2) ubs_height_def) (simp add: sample_simps)
  have commit: "verify_commit_against_trusted sample_externals ?u ?T sample_options = Ok Success"
    using adj sample_commit_facts(1,3) keys sample_other_set_inv
    by (intro verify_commit_against_trusted_complete)
      (auto simp: T sample_states sample_addresses sample_other_set_def sample_signs sample_signature simp del: append.simps)
  have "follows ?T ?u sample_options (sample_time 100)" "in_range ?T sample_options (sample_time 100)"
    using sample_chain_order [of 1 2] by (simp_all add: follows_def in_range_def as_trusted_state_def sample_moved_def)
  then show ?thesis
    using sample_chain_order(3) [of 1 2] sample_time_inv [of 1] sample_time_inv [of 100] commit sample_well_formed [of 2]
    by (subst verify_update_header_Success_cases) (simp_all add: sample_states T)
qed

definition sample_moved_store :: "(height \<times> light_block \<times> status) list \<Rightarrow> memory_store" where
  "sample_moved_store bs = (1, \<lparr>se_light_block = sample_moved 1, se_status = Trusted\<rparr>) #
     map (\<lambda>(h, b, k). (h, \<lparr>se_light_block = b, se_status = k\<rparr>)) bs"

lemma sample_moved_facts [simp]: "lb_height (sample_moved h) = h" "lb_provider (sample_block h) = replicate 20 9"
  by (simp_all add: sample_moved_def sample_simps)

lemma memory_ops_simps:
  "so_get memory_ops = memory_get" "so_update memory_ops = memory_update" "so_insert memory_ops = memory_insert"
  by (simp_all add: memory_ops_def)

text \<open>The stores of the run and what the client reads from them.\<close>

lemmas store_run = highest_trusted_or_verified_before_def highest_trusted_or_verified_def memory_ops_def
   memory_highest_before_def memory_highest_def cmp_max_by_key_def sample_moved_store_def memory_get_def memory_insert_def memory_update_def
   get_non_failed_def get_trusted_or_verified_def


lemmas call_run = forward_step_def sbind_def clock_now_def modify_def trace_block_def requires_def get_or_fetch_block_def
  fetch_light_block_def store_insert_def store_update_def record_verdict_def hs_insert_def

abbreviation "moved_store_0 \<equiv> sample_moved_store []"
abbreviation "moved_store_1 \<equiv> sample_moved_store [(3, sample_block 3, Unverified)]"
abbreviation "moved_store_2 \<equiv> sample_moved_store [(2, sample_block 2, Verified), (3, sample_block 3, Unverified)]"
abbreviation "moved_store_3 \<equiv> sample_moved_store [(2, sample_block 2, Verified), (3, sample_block 3, Verified)]"

lemma moved_highest:
  "highest_trusted_or_verified_before memory_ops moved_store_0 3 = Some (sample_moved 1)"
  "highest_trusted_or_verified_before memory_ops moved_store_1 3 = Some (sample_moved 1)"
  "highest_trusted_or_verified_before memory_ops moved_store_2 3 = Some (sample_block 2)"
  "highest_trusted_or_verified_before memory_ops moved_store_3 3 = Some (sample_block 3)"
  "highest_trusted_or_verified memory_ops moved_store_1 = Some (sample_moved 1)"
  "highest_trusted_or_verified memory_ops moved_store_2 = Some (sample_block 2)"
  "highest_trusted_or_verified memory_ops moved_store_3 = Some (sample_block 3)"
  by (simp_all add: store_run)

lemma moved_get:
  "get_non_failed memory_ops moved_store_0 3 = None" "get_non_failed memory_ops moved_store_1 2 = None"
  "get_non_failed memory_ops moved_store_2 3 = Some (sample_block 3, Unverified)"
  "get_trusted_or_verified memory_ops moved_store_0 3 = None"
  "get_trusted_or_verified memory_ops moved_store_3 3 = Some (sample_block 3)"
  "get_trusted_or_verified memory_ops moved_store_3 2 = Some (sample_block 2)"
  "trusted_store_contains_block_at_target_height memory_ops moved_store_3 3"
  by (simp_all add: store_run trusted_store_contains_block_at_target_height_def)

lemma moved_update:
  "so_insert memory_ops moved_store_0 (sample_block 3) Unverified = moved_store_1"
  "so_update memory_ops moved_store_1 (sample_block 3) Unverified = moved_store_1"
  "so_update memory_ops (so_insert memory_ops moved_store_1 (sample_block 2) Unverified) (sample_block 2) (most_trusted Verified Unverified) = moved_store_2"
  "so_update memory_ops moved_store_2 (sample_block 3) (most_trusted Verified Unverified) = moved_store_3"
  by (simp_all add: store_run most_trusted_def max_def less_eq_status_def)

lemma moved_schedule:
  "schedule basic_bisecting_schedule memory_ops moved_store_1 3 3 = Ok 2"
  "schedule basic_bisecting_schedule memory_ops moved_store_2 2 3 = Ok 3"
  "schedule basic_bisecting_schedule memory_ops moved_store_3 3 3 = Ok 3"
  by (simp_all add: schedule_def basic_bisecting_schedule_def moved_highest valid_schedule_def requires_def ensures_def midpoint_def height_try_from_u64_def fits_i64_def i64_max_def)

lemma moved_within: "lc_is_within_trust_period sample_externals (sample_moved 1) (opt_trusting_period sample_options) (sample_time 100)"
  using sample_within_period [of 1] by (simp add: within_trust_period_iff sample_time_inv sample_moved_def)

definition moved_state :: "memory_store \<Rightarrow> (height \<rightharpoonup> height list) \<Rightarrow> nat \<Rightarrow> nat \<Rightarrow> memory_store lc_state" where
  "moved_state s tr n m = \<lparr>st_light_store = s, st_verification_trace = tr, st_ticks = n, st_fetches = m\<rparr>"

lemma moved_steps:
  "forward_step sample_externals memory_ops sample_client 3 3 (moved_state moved_store_0 Map.empty 0 0)
     = (moved_state moved_store_1 [3 \<mapsto> [3]] 1 1, Ok (Continue 2))"
  "forward_step sample_externals memory_ops sample_client 3 2 (moved_state moved_store_1 [3 \<mapsto> [3]] 1 1)
     = (moved_state moved_store_2 [3 \<mapsto> [3, 2], 2 \<mapsto> [2, 1]] 2 2, Ok (Continue 3))"
  "forward_step sample_externals memory_ops sample_client 3 3 (moved_state moved_store_2 [3 \<mapsto> [3, 2], 2 \<mapsto> [2, 1]] 2 2)
     = (moved_state moved_store_3 [3 \<mapsto> [3, 2], 2 \<mapsto> [2, 1]] 3 2, Ok (Continue 3))"
  "forward_step sample_externals memory_ops sample_client 3 3 (moved_state moved_store_3 [3 \<mapsto> [3, 2], 2 \<mapsto> [2, 1]] 3 2)
     = (moved_state moved_store_3 [3 \<mapsto> [3, 2], 2 \<mapsto> [2, 1]] 4 2, Ok (Finished (sample_block 3)))"
proof -
  obtain y where y: "verify_update_header sample_externals (as_untrusted_state (sample_block 3)) (as_trusted_state (sample_moved 1))
      sample_options (sample_time 100) = (Ok (NotEnoughTrust y) :: (lc_error, verdict) result)"
    using sample_not_enough_trust [of 1 3] by auto
  show "forward_step sample_externals memory_ops sample_client 3 3 (moved_state moved_store_0 Map.empty 0 0)
     = (moved_state moved_store_1 [3 \<mapsto> [3]] 1 1, Ok (Continue 2))"
    by (simp add: call_run moved_state_def moved_highest moved_within moved_get moved_update y moved_schedule)
qed (simp_all add: call_run moved_state_def moved_highest moved_within moved_get moved_update moved_schedule
   sample_moved_adjacent sample_verified sample_within_period fun_upd_twist)


text \<open>
  The trace of a target reached by bisection misses the trusted block: here the client starts from
  a trusted block of height 1, bisects at height 2 and returns the block of height 3, whose trace
  is the blocks of heights 2 and 3. The detector takes the first block of a trace for the trusted one.
\<close>

theorem trace_misses_root:
  "\<exists>st'. verify_to_target sample_externals memory_ops sample_client 3
       (state_new (memory_insert memory_new (sample_moved 1) Trusted)) = Some (st', Ok (sample_block 3))
     \<and> get_trace memory_ops st' 3 = [sample_block 2, sample_block 3]"
proof -
  have init: "state_new (memory_insert memory_new (sample_moved 1) Trusted) = moved_state moved_store_0 Map.empty 0 0"
    by (simp add: state_new_def moved_state_def sample_moved_store_def memory_insert_def memory_new_def)
  have sel: "st_light_store (moved_state s tr n m) = s" "st_verification_trace (moved_state s tr n m) = tr" for s tr n m
    by (simp_all add: moved_state_def)
  have "verify_forward sample_externals memory_ops sample_client 3 (moved_state moved_store_0 Map.empty 0 0)
      = Some (moved_state moved_store_3 [3 \<mapsto> [3, 2], 2 \<mapsto> [2, 1]] 4 2, Ok (sample_block 3))"
    unfolding verify_forward_def by (simp add: moved_steps [unfolded One_nat_def] forward_loop.simps)
  then have "verify_to_target sample_externals memory_ops sample_client 3 (moved_state moved_store_0 Map.empty 0 0)
      = Some (moved_state moved_store_3 [3 \<mapsto> [3, 2], 2 \<mapsto> [2, 1]] 4 2, Ok (sample_block 3))"
    by (simp add: verify_to_target_def verify_to_target_with_def sel moved_get moved_highest ensures_def)
  moreover have "get_trace memory_ops (moved_state moved_store_3 [3 \<mapsto> [3, 2], 2 \<mapsto> [2, 1]] 4 2) 3 = [sample_block 2, sample_block 3]"
    by (simp add: get_trace_def List.map_filter_def sel moved_get)
  ultimately show ?thesis unfolding init by blast
qed

end
