(* ===== verification/Store_Properties.thy ===== *)
theory Store_Properties
  imports Client_Properties
begin

text \<open>
  The properties of the components around the client: the in-memory store against its abstract
  contents, what a fetched block does to the store, the scheduler, the trusting-period check of the
  contracts, and backward verification.
\<close>

section \<open>The store\<close>

text \<open>The abstract operations on the contents of a store, by height and status.\<close>

definition view_write :: "store_view \<Rightarrow> light_block \<Rightarrow> status \<Rightarrow> store_view" where
  "view_write W b k = (\<lambda>h k'. if h = lb_height b then if k' = k then Some b else None else W h k')"

definition view_remove :: "store_view \<Rightarrow> height \<Rightarrow> status \<Rightarrow> store_view" where
  "view_remove W h k = (\<lambda>h' k'. if h' = h \<and> k' = k then None else W h' k')"

text \<open>
  C22. The in-memory store implements its abstract contents: a height has at most one block, with one
  status; reads return the contents, writes replace whatever the height of the block had, a removal
  drops the block only under the status asked for, and the queries for the highest and lowest
  blocks return the extreme blocks of a status. On two points the documentation of the trait differs:
  it says that \<open>insert\<close> overrides a block of the same height and status, where the code overrides the
  block of that height whatever its status, and that \<open>highest_before\<close> returns a block before the height,
  where the code includes the height itself.
\<close>

theorem memory_store_refines:
  assumes "memory_inv m"
  shows "memory_inv (memory_insert m b k) \<and> memory_inv (memory_update m b k) \<and> memory_inv (memory_remove m h k)
    \<and> memory_get m h k = memory_view m h k
    \<and> memory_view (memory_insert m b k) = view_write (memory_view m) b k
    \<and> memory_view (memory_update m b k) = view_write (memory_view m) b k
    \<and> memory_view (memory_remove m h k) = view_remove (memory_view m) h k
    \<and> is_highest (\<lambda>h. memory_view m h k) (memory_highest m k)
    \<and> is_highest (\<lambda>h'. if h' \<le> h then memory_view m h' k else None) (memory_highest_before m h k)
    \<and> is_lowest (\<lambda>h. memory_view m h k) (memory_lowest m k)
    \<and> set (memory_all m k) = {b. \<exists>h. memory_view m h k = Some b}"
proof (intro conjI)
  show "memory_view (memory_remove m h k) = view_remove (memory_view m) h k"
    by (intro ext) (simp add: view_remove_def memory_view_remove)
  show "memory_get m h k = memory_view m h k"
    using mem.get_law [OF assms] by (simp add: memory_ops_def)
  show "is_highest (\<lambda>h. memory_view m h k) (memory_highest m k)" "is_lowest (\<lambda>h. memory_view m h k) (memory_lowest m k)"
    "is_highest (\<lambda>h'. if h' \<le> h then memory_view m h' k else None) (memory_highest_before m h k)"
    "set (memory_all m k) = {b. \<exists>h. memory_view m h k = Some b}"
    using mem.highest_law [OF assms] mem.lowest_law [OF assms] mem.highest_before_law [OF assms] mem.all_law [OF assms]
    by (simp_all add: memory_ops_def)
qed (use assms in \<open>simp_all add: memory_update_def memory_inv_insert memory_inv_remove view_write_def fun_eq_iff memory_view_insert\<close>)

theorem memory_store_refines_witness:
  "memory_inv (st_light_store sample_state)
   \<and> memory_view (memory_insert (st_light_store sample_state) (sample_block 2) Verified)
     = view_write (memory_view (st_light_store sample_state)) (sample_block 2) Verified"
  using memory_store_refines [OF sample_state_inv] by simp

text \<open>
  A peer can make the client forget its trusted block. The client never compares the height of a
  fetched block with the height it asked for, and storing the block replaces what the store had
  at the height of the block.
\<close>

theorem fetched_block_replaces_trusted:
  assumes "memory_inv (st_light_store st)" "get_non_failed memory_ops (st_light_store st) h = None"
    and "lc_io C (st_fetches st) (At h) = Ok b" "lb_provider b = lc_peer C"
    and "memory_view (st_light_store st) (lb_height b) Trusted = Some t"
  shows "\<exists>st'. get_or_fetch_block memory_ops C h st = (st', Ok (b, Unverified))
    \<and> memory_view (st_light_store st') (lb_height b) Trusted = None \<and> lb_height b \<noteq> h"
proof -
  have "lb_height b \<noteq> h" using assms(2,5) mem.get_law [OF assms(1), of h Trusted] by (auto simp: get_non_failed_def)
  then show ?thesis using assms
    by (simp add: get_or_fetch_block_def sbind_def fetch_light_block_def store_insert_def requires_def memory_ops_simps
        memory_view_insert)
qed

theorem fetched_block_replaces_trusted_witness:
  "\<exists>st'. get_or_fetch_block memory_ops (sample_client\<lparr>lc_io := \<lambda>_ _. Ok (sample_block 1)\<rparr>) 4 sample_state
       = (st', Ok (sample_block 1, Unverified))
     \<and> memory_view (st_light_store st') 1 Trusted = None"
proof -
  have "get_non_failed memory_ops (st_light_store sample_state) 4 = None"
    by (simp add: mem.get_non_failed_None sample_state_view)
  moreover have "memory_view (st_light_store sample_state) (lb_height (sample_block 1)) Trusted = Some (sample_block 1)"
    by (simp add: sample_state_view)
  ultimately show ?thesis
    using fetched_block_replaces_trusted [of sample_state 4 "sample_client\<lparr>lc_io := \<lambda>_ _. Ok (sample_block 1)\<rparr>" "sample_block 1"]
    by auto
qed

section \<open>The scheduler\<close>

text \<open>
  C34. After a block that was not verified, at least two heights above the trusted one, the scheduler
  takes the midpoint rounded up, strictly between the two; no assertion of its contract fails and the sum
  of heights does not wrap. Directly above the trusted one it panics: the midpoint rounded up is the
  current height, which its postcondition excludes.
\<close>

theorem schedule_bisects:
  assumes "memory_inv s" "highest_trusted_or_verified_before memory_ops s target = Some t"
    and "lb_height t < current" "current \<le> target" "fits_i64 target"
  shows "if current = lb_height t + 1 then schedule basic_bisecting_schedule memory_ops s current target = (Panic :: ('e, height) result)
    else \<exists>h. schedule basic_bisecting_schedule memory_ops s current target = (Ok h :: ('e, height) result)
      \<and> unat h = (unat (lb_height t) + unat current + 1) div 2 \<and> lb_height t < h \<and> h < current"
proof -
  have fit: "fits_i64 current" using assms(4,5) by (simp add: fits_i64_unat word_le_nat_alt)
  have tgt: "lb_height t < target" using assms(3,4) by (rule order_less_le_trans)
  have le: "lb_height t \<le> current" using assms(3) by simp
  have "\<exists>h. schedule basic_bisecting_schedule memory_ops s current target = (Ok h :: ('e, height) result)
      \<and> unat h = (unat (lb_height t) + unat current + 1) div 2 \<and> lb_height t < h \<and> h < current"
    if far: "current \<noteq> lb_height t + 1"
  proof -
    have "mem.tv s (lb_height t) \<noteq> None" by (rule prod.highest_before_Some(2) [OF assms(1,2)])
    then have ex: "highest_trusted_or_verified memory_ops s \<noteq> None" using mem.highest_tv_eq_None [OF assms(1)] by metis
    obtain h where h: "schedule basic_bisecting_schedule memory_ops s current target = (Ok h :: ('e, height) result)"
      using schedule_complete [OF ex assms(2) le assms(4,5) far] by blast
    then have "midpoint (lb_height t) current = (Ok h :: ('e, height) result)"
      using assms(2,3) by (auto simp: schedule_def basic_bisecting_schedule_def result_simps split: if_splits)
    then have "unat h = (unat (lb_height t) + unat current + 1) div 2"
      using unat_midpoint [OF fit le] by (auto simp: midpoint_Ok [OF fit le])
    with h schedule_Ok [OF h assms(2) tgt le] assms(3) show ?thesis by blast
  qed
  moreover have "schedule basic_bisecting_schedule memory_ops s current target = (Panic :: ('e, height) result)"
    if "current = lb_height t + 1" by (rule schedule_adjacent_Panic [OF assms(2,3) that tgt fit])
  ultimately show ?thesis by presburger
qed

theorem schedule_bisects_witness:
  "\<exists>h. schedule basic_bisecting_schedule memory_ops (st_light_store sample_state) 5 5 = (Ok h :: (lc_error, height) result)
     \<and> unat h = 3
   \<and> schedule basic_bisecting_schedule memory_ops (st_light_store sample_state) 2 5 = (Panic :: (lc_error, height) result)"
  using schedule_bisects [where 'e = lc_error, OF sample_state_inv sample_state_highest, of 5]
    schedule_bisects [where 'e = lc_error, OF sample_state_inv sample_state_highest, of 2]
  by (auto simp: fits_i64_def i64_max_def)

section \<open>The trusting period\<close>

text \<open>
  The client's contract and the verifier decide the end of the trusting period alike as long as
  the date it starts and the date it ends can be represented.
\<close>

theorem trusting_period_checks_agree:
  assumes "time_crate X" "time_inv now" "time_inv (hdr_time (sh_header (lb_signed_header b)))"
    and "year_1 \<le> now - int p" "hdr_time (sh_header (lb_signed_header b)) + int p < year_10000"
  shows "lc_is_within_trust_period X b p now \<longleftrightarrow>
    is_within_trust_period X (hdr_time (sh_header (lb_signed_header b))) p now = Ok ()"
  unfolding within_trust_period_iff [OF assms(1,2)] trust_period_Ok [OF assms(1,3)] using assms(4,5) by linarith

theorem trusting_period_checks_agree_witness:
  "lc_is_within_trust_period sample_externals (sample_block 1) (opt_trusting_period sample_options) (sample_time 100) \<longleftrightarrow>
     is_within_trust_period sample_externals (hdr_time (sh_header (lb_signed_header (sample_block 1))))
       (opt_trusting_period sample_options) (sample_time 100) = Ok ()"
  by (rule trusting_period_checks_agree)
    (simp_all add: sample_simps sample_options_def sample_time_inv, simp_all add: sample_time_def year_1_def year_10000_def)

section \<open>Backward verification\<close>

text \<open>The blocks that hang on the roots by successful verifications or by the hash of the previous block.\<close>

inductive anchored :: "externals \<Rightarrow> 's light_client \<Rightarrow> light_block set \<Rightarrow> light_block \<Rightarrow> bool" for X C roots where
  anchored_root: "b \<in> roots \<Longrightarrow> anchored X C roots b"
| anchored_verified: "anchored X C roots a \<Longrightarrow>
    lc_verifier C (as_untrusted_state b) (as_trusted_state a) (lc_options C) (lc_clock C n) = Ok Success \<Longrightarrow> anchored X C roots b"
| anchored_hash: "anchored X C roots a \<Longrightarrow> hash_linked X a b \<Longrightarrow> anchored X C roots b"

text \<open>
  C23. With the feature \<open>unstable\<close>, which verifies heights below the trusted ones by hashes, every trusted
  or verified block still hangs on the initial ones, by successful verifications upwards and by the
  recorded hash of the previous block downwards, whatever the peer and the clock answer; a block
  returned is such a block, of the requested height.
\<close>

theorem verify_to_target_unstable_anchored:
  assumes "lc_verifier C = verify_update_header X" "memory_inv (st_light_store st)"
    and "vouched (anchored X C roots) (memory_view (st_light_store st))"
    and "verify_to_target_unstable X memory_ops C target st = Some (st', r)"
  shows "memory_inv (st_light_store st') \<and> vouched (anchored X C roots) (memory_view (st_light_store st'))
    \<and> (\<forall>b. r = Ok b \<longrightarrow> anchored X C roots b \<and> lb_height b = target)"
proof -
  let ?P = "anchored X C roots"
  have link: "\<forall>a b n. ?P a \<longrightarrow> verify_update_header X (as_untrusted_state b) (as_trusted_state a) (lc_options C) (lc_clock C n)
      = (Ok Success :: (lc_error, verdict) result) \<longrightarrow> ?P b"
    using anchored_verified [of X C roots] assms(1) by metis
  have hash: "\<forall>a b. ?P a \<longrightarrow> hash_linked X a b \<longrightarrow> ?P b" by (blast intro: anchored_hash)
  note good = prod.verify_to_target_good [where P = ?P, OF assms(1) link assms(4) [unfolded verify_to_target_unstable_def]]
  note bwd = prod.verify_backward_unstable_good [OF hash]
  have st: "memory_inv (st_light_store st) \<and> vouched ?P (memory_view (st_light_store st))" using assms(2,3) by blast
  show ?thesis using good [OF st bwd(1)] bwd(2) by blast
qed

theorem verify_to_target_unstable_anchored_witness:
  "\<exists>st'. verify_to_target_unstable sample_externals memory_ops sample_client 5 sample_state = Some (st', Ok (sample_block 5))
     \<and> anchored sample_externals sample_client {sample_block 1} (sample_block 5)"
proof -
  obtain st' where "verify_to_target sample_externals memory_ops sample_client 5 sample_state = Some (st', Ok (sample_block 5))"
    using sample_run by blast
  then have run: "verify_to_target_unstable sample_externals memory_ops sample_client 5 sample_state = Some (st', Ok (sample_block 5))"
    by (auto simp: verify_to_target_unstable_def verify_to_target_def verify_to_target_with_def sample_state_highest
        split: option.splits)
  have "vouched (anchored sample_externals sample_client {sample_block 1}) (memory_view (st_light_store sample_state))"
    by (auto simp: vouched_def sample_state_view intro: anchored_root)
  from verify_to_target_unstable_anchored [OF sample_client_simps(5) sample_state_inv this run] run show ?thesis by auto
qed

end
