(* ===== verification/Codec.thy ===== *)
theory Codec
  imports Tm_Vote
begin

text \<open>
  The contract of \<open>tendermint_proto::Protobuf\<close>, which every domain type with a message type
  implements: a conversion from the message that may fail, and one back that may not. What comes off
  the wire satisfies the type's invariant, and a value that satisfies it survives the trip through
  its message. Each pair of conversions of the model is an instance.
\<close>

section \<open>The contract\<close>

text \<open>
  \<open>law\<close> is what the conversions need of third-party code (\<open>True\<close> if nothing). A conversion may also
  lose information that is not part of the message; then \<open>inv\<close> says that it is absent.
\<close>

locale codec =
  fixes law :: bool
    and dec :: "'r \<Rightarrow> ('e, 'a) result"
    and enc :: "'a \<Rightarrow> 'r"
    and inv :: "'a \<Rightarrow> bool"
  assumes roundtrip: "law \<Longrightarrow> inv a \<Longrightarrow> dec (enc a) = Ok a"
    and dec_inv: "law \<Longrightarrow> dec r = Ok a \<Longrightarrow> inv a"
begin

lemma reencode: "law \<Longrightarrow> dec r = Ok a \<Longrightarrow> dec (enc a) = Ok a"
  by (simp add: dec_inv roundtrip)

lemma enc_inj: "law \<Longrightarrow> inv a \<Longrightarrow> inv b \<Longrightarrow> enc a = enc b \<Longrightarrow> a = b"
  by (metis roundtrip result.inject(1))

lemma inv_iff: "law \<Longrightarrow> inv a \<longleftrightarrow> (\<exists>r. dec r = Ok a)"
  using dec_inv roundtrip by blast

lemma list_roundtrip: "law \<Longrightarrow> list_all inv as \<Longrightarrow> try_map dec (map enc as) = Ok as"
  by (simp add: try_map_roundtrip roundtrip list_all_iff)

lemma list_dec_inv: "law \<Longrightarrow> try_map dec rs = Ok as \<Longrightarrow> list_all inv as"
  unfolding list_all_iff by (metis try_map_Ok_set dec_inv)

lemma option_roundtrip: "law \<Longrightarrow> pred_option inv v \<Longrightarrow> try_option dec (map_option enc v) = Ok v"
  by (cases v) (simp_all add: roundtrip)

lemma option_dec_inv: "law \<Longrightarrow> try_option dec r = Ok v \<Longrightarrow> pred_option inv v"
  by (cases r) (auto simp: result_simps dec_inv)

end

section \<open>The instances\<close>

text \<open>A validator off the wire has no name, and a set of such validators none either.\<close>

definition wire_info_inv :: "externals \<Rightarrow> info \<Rightarrow> bool" where
  "wire_info_inv X i \<longleftrightarrow> info_inv X i \<and> info_name i = None"

definition wire_set_inv :: "externals \<Rightarrow> val_set \<Rightarrow> bool" where
  "wire_set_inv X s \<longleftrightarrow> set_inv s \<and> list_all (wire_info_inv X) (vs_validators s) \<and> pred_option (wire_info_inv X) (vs_proposer s)"

interpretation info_codec: codec "sec1_canonical X" "info_try_from X" info_into_raw "wire_info_inv X" for X
  unfolding wire_info_inv_def
  by unfold_locales (erule conjE, erule (1) info_roundtrip, erule (1) info_try_from_inv)

interpretation set_codec: codec "sec1_canonical X" "val_set_try_from X" val_set_into_raw "wire_set_inv X" for X
proof unfold_locales
  fix s assume "wire_set_inv X s"
  then show "val_set_try_from X (val_set_into_raw s) = Ok s"
    by (intro val_set_roundtrip) (auto simp: wire_set_inv_def wire_info_inv_def list_all_iff option.pred_set)
next
  fix r s assume X: "sec1_canonical X" and "val_set_try_from X r = Ok s"
  then obtain vs p where vs: "try_map (info_try_from X) (rvs_validators r) = Ok vs"
      "try_option (info_try_from X) (rvs_proposer r) = Ok p" "try_from_parts vs p (rvs_total_voting_power r) = Ok s"
    by (auto simp: val_set_try_from_def result_simps)
  have "set (vs_validators s) = set vs" by (rule mset_eq_setD [OF try_from_parts_inv(2) [OF vs(3)]])
  then have "list_all (wire_info_inv X) (vs_validators s)"
    using info_codec.list_dec_inv [OF X vs(1)] by (simp add: list_all_iff)
  moreover have "pred_option (wire_info_inv X) (vs_proposer s)"
    unfolding try_from_parts_inv(3) [OF vs(3)] by (rule info_codec.option_dec_inv [OF X vs(2)])
  ultimately show "wire_set_inv X s" by (simp add: wire_set_inv_def try_from_parts_inv(1) [OF vs(3)])
qed

interpretation key_codec: codec "sec1_canonical X" "public_key_try_from X" public_key_into_raw "public_key_inv X" for X
  by unfold_locales (erule public_key_roundtrip, erule (1) public_key_try_from_inv)

interpretation time_codec: codec "time_crate X" "time_try_from X" time_into_timestamp time_inv for X
  by unfold_locales (erule (1) time_timestamp_roundtrip, erule (1) time_try_from_inv(1))

interpretation part_set_codec: codec True part_set_header_try_from part_set_header_into_raw part_set_header_inv
  by unfold_locales (simp_all add: part_set_header_roundtrip part_set_header_try_from_Ok)

interpretation block_id_codec: codec True block_id_try_from block_id_into_raw block_id_inv
  by unfold_locales (erule block_id_roundtrip, erule block_id_try_from_inv)

interpretation commit_sig_codec: codec "time_crate X" "commit_sig_try_from X" commit_sig_into_raw commit_sig_inv for X
  by unfold_locales (erule (1) commit_sig_roundtrip, erule (1) commit_sig_try_from_inv)

interpretation commit_codec: codec "time_crate X" "commit_try_from X" commit_into_raw commit_inv for X
  by unfold_locales (erule (1) commit_roundtrip, erule (1) commit_try_from_inv)

interpretation header_codec: codec "time_crate X" "header_try_from X" header_into_raw header_inv for X
  by unfold_locales (erule (1) header_roundtrip, erule (1) header_try_from_inv)

interpretation signed_header_codec: codec "time_crate X" "signed_header_try_from X" signed_header_into_raw signed_header_inv for X
  by unfold_locales (erule (1) signed_header_roundtrip, erule (1) signed_header_try_from_inv)

interpretation vote_codec: codec "time_crate X" "vote_try_from X" vote_into_raw vote_inv for X
  by unfold_locales (erule (1) vote_roundtrip, erule (1) vote_try_from_inv)

lemma canonical_vote_try_from_inv:
  assumes "time_crate X" "canonical_vote_try_from X r = Ok v"
  shows "canonical_vote_inv v"
proof -
  have "block_id_inv b \<and> bid_hash b \<noteq> HashNone"
    if "block_id_try_from i = Ok b" "rbi_hash i \<noteq> []" for i b
    using that block_id_try_from_inv [OF that(1)]
    by (auto simp: block_id_try_from_def result_simps hash_try_from_vec_Ok split: option.splits)
  then show ?thesis using assms
    by (auto simp: canonical_vote_try_from_def canonical_vote_inv_def Let_def result_simps
        height_try_from_i64_def round_try_from_i32_def time_try_from_inv(1) split: if_splits option.splits)
qed

interpretation canonical_vote_codec: codec "time_crate X" "canonical_vote_try_from X" canonical_vote_into_raw canonical_vote_inv for X
  by unfold_locales (erule (1) canonical_vote_roundtrip, erule (1) canonical_vote_try_from_inv)

definition simple_validator_inv :: "externals \<Rightarrow> simple_validator \<Rightarrow> bool" where
  "simple_validator_inv X v \<longleftrightarrow> public_key_inv X (sv_pub_key v) \<and> fits_i64 (sv_voting_power v)"

interpretation simple_validator_codec:
  codec "sec1_canonical X" "simple_validator_try_from X" simple_validator_into_raw "simple_validator_inv X" for X
  by unfold_locales
    (auto simp: simple_validator_inv_def simple_validator_try_from_def simple_validator_into_raw_def public_key_roundtrip
      power_try_from_i64_def power_into_i64_def result_simps dest: public_key_try_from_inv split: if_splits)

definition val_update_inv :: "externals \<Rightarrow> val_update \<Rightarrow> bool" where
  "val_update_inv X v \<longleftrightarrow> public_key_inv X (vu_pub_key v) \<and> fits_i64 (vu_power v)"

interpretation val_update_codec:
  codec "sec1_canonical X" "val_update_try_from X" val_update_into_raw "val_update_inv X" for X
  by unfold_locales
    (auto simp: val_update_inv_def val_update_try_from_def val_update_into_raw_def public_key_roundtrip
      power_try_from_i64_def power_into_i64_def result_simps dest: public_key_try_from_inv split: if_splits)

end
