(* ===== verification/Tm_Evidence.thy ===== *)
theory Tm_Evidence
  imports Codec
begin

text \<open>
  \<open>tendermint/src/evidence.rs\<close>: evidence of misbehaviour, its parameters, and their messages. All
  conversions keep the contract of messages except the one of duplicate vote evidence, which loses
  the power of the validator.
\<close>

section \<open>Evidence\<close>

record duplicate_vote_evidence =
  dve_vote_a :: vote
  dve_vote_b :: vote
  dve_total_voting_power :: power
  dve_validator_power :: power
  dve_timestamp :: time

definition duplicate_vote_evidence_new :: "vote \<Rightarrow> vote \<Rightarrow> duplicate_vote_evidence tm_result" where
  "duplicate_vote_evidence_new vote_a vote_b =
     (if vote_height vote_a \<noteq> vote_height vote_b then Err E_InvalidEvidence
      else Ok \<lparr>dve_vote_a = vote_a, dve_vote_b = vote_b, dve_total_voting_power = 0, dve_validator_power = 0,
               dve_timestamp = unix_epoch\<rparr>)"

definition dve_votes :: "duplicate_vote_evidence \<Rightarrow> vote \<times> vote" where
  "dve_votes ev = (dve_vote_a ev, dve_vote_b ev)"

record conflicting_block =
  cb_signed_header :: signed_header
  cb_validator_set :: val_set

record light_client_attack_evidence =
  lae_conflicting_block :: conflicting_block
  lae_common_height :: height
  lae_byzantine_validators :: "info list"
  lae_total_voting_power :: power
  lae_timestamp :: time

datatype evidence =
    DuplicateVote duplicate_vote_evidence
  | LightClientAttack light_client_attack_evidence

definition duplicate_vote_evidence_try_from ::
  "externals \<Rightarrow> raw_duplicate_vote_evidence \<Rightarrow> duplicate_vote_evidence tm_result" where
  "duplicate_vote_evidence_try_from X value =
     and_then (ok_or E_MissingEvidence (rdv_vote_a value))
       (\<lambda>ra. and_then (vote_try_from X ra)
       (\<lambda>vote_a. and_then (ok_or E_MissingEvidence (rdv_vote_b value))
       (\<lambda>rb. and_then (vote_try_from X rb)
       (\<lambda>vote_b. and_then (power_try_from_i64 (rdv_total_voting_power value))
       (\<lambda>total_voting_power. and_then (power_try_from_i64 (rdv_validator_power value))
       (\<lambda>validator_power. and_then (ok_or E_MissingTimestamp (rdv_timestamp value))
       (\<lambda>rt. and_then (time_try_from X rt)
       (\<lambda>timestamp.
          Ok \<lparr>dve_vote_a = vote_a, dve_vote_b = vote_b, dve_total_voting_power = total_voting_power,
              dve_validator_power = validator_power, dve_timestamp = timestamp\<rparr>))))))))"

definition duplicate_vote_evidence_into_raw :: "duplicate_vote_evidence \<Rightarrow> raw_duplicate_vote_evidence" where
  "duplicate_vote_evidence_into_raw ev =
     \<lparr>rdv_vote_a = Some (vote_into_raw (dve_vote_a ev)), rdv_vote_b = Some (vote_into_raw (dve_vote_b ev)),
      rdv_total_voting_power = power_into_i64 (dve_total_voting_power ev),
      rdv_validator_power = power_into_i64 (dve_total_voting_power ev),
      rdv_timestamp = Some (time_into_timestamp (dve_timestamp ev))\<rparr>"

definition conflicting_block_try_from :: "externals \<Rightarrow> raw_light_block \<Rightarrow> conflicting_block tm_result" where
  "conflicting_block_try_from X value =
     and_then (ok_or E_MissingEvidence (rlb_signed_header value))
       (\<lambda>rh. and_then (signed_header_try_from X rh)
       (\<lambda>signed_header. and_then (ok_or E_MissingEvidence (rlb_validator_set value))
       (\<lambda>rv. and_then (val_set_try_from X rv)
       (\<lambda>validator_set. Ok \<lparr>cb_signed_header = signed_header, cb_validator_set = validator_set\<rparr>))))"

definition conflicting_block_into_raw :: "conflicting_block \<Rightarrow> raw_light_block" where
  "conflicting_block_into_raw b =
     \<lparr>rlb_signed_header = Some (signed_header_into_raw (cb_signed_header b)),
      rlb_validator_set = Some (val_set_into_raw (cb_validator_set b))\<rparr>"

definition light_client_attack_evidence_try_from ::
  "externals \<Rightarrow> raw_light_client_attack_evidence \<Rightarrow> light_client_attack_evidence tm_result" where
  "light_client_attack_evidence_try_from X ev =
     and_then (ok_or E_MissingEvidence (rla_conflicting_block ev))
       (\<lambda>rb. and_then (conflicting_block_try_from X rb)
       (\<lambda>conflicting_block. and_then (height_try_from_i64 (rla_common_height ev))
       (\<lambda>common_height. and_then (try_map (info_try_from X) (rla_byzantine_validators ev))
       (\<lambda>byzantine_validators. and_then (power_try_from_i64 (rla_total_voting_power ev))
       (\<lambda>total_voting_power. and_then (ok_or E_MissingTimestamp (rla_timestamp ev))
       (\<lambda>rt. and_then (time_try_from X rt)
       (\<lambda>timestamp.
          Ok \<lparr>lae_conflicting_block = conflicting_block, lae_common_height = common_height,
              lae_byzantine_validators = byzantine_validators, lae_total_voting_power = total_voting_power,
              lae_timestamp = timestamp\<rparr>)))))))"

definition light_client_attack_evidence_into_raw ::
  "light_client_attack_evidence \<Rightarrow> raw_light_client_attack_evidence" where
  "light_client_attack_evidence_into_raw ev =
     \<lparr>rla_conflicting_block = Some (conflicting_block_into_raw (lae_conflicting_block ev)),
      rla_common_height = height_into_i64 (lae_common_height ev),
      rla_byzantine_validators = map info_into_raw (lae_byzantine_validators ev),
      rla_total_voting_power = power_into_i64 (lae_total_voting_power ev),
      rla_timestamp = Some (time_into_timestamp (lae_timestamp ev))\<rparr>"

definition evidence_try_from :: "externals \<Rightarrow> raw_evidence \<Rightarrow> evidence tm_result" where
  "evidence_try_from X value =
     and_then (ok_or E_InvalidEvidence (rev_sum value))
       (\<lambda>s. case s of
          Sum_DuplicateVoteEvidence ev \<Rightarrow>
            and_then (duplicate_vote_evidence_try_from X ev) (\<lambda>ev. Ok (DuplicateVote ev))
        | Sum_LightClientAttackEvidence ev \<Rightarrow>
            and_then (light_client_attack_evidence_try_from X ev) (\<lambda>ev. Ok (LightClientAttack ev)))"

fun evidence_into_raw :: "evidence \<Rightarrow> raw_evidence" where
  "evidence_into_raw (DuplicateVote ev) =
     \<lparr>rev_sum = Some (Sum_DuplicateVoteEvidence (duplicate_vote_evidence_into_raw ev))\<rparr>"
| "evidence_into_raw (LightClientAttack ev) =
     \<lparr>rev_sum = Some (Sum_LightClientAttackEvidence (light_client_attack_evidence_into_raw ev))\<rparr>"

definition evidence_list_try_from :: "externals \<Rightarrow> raw_evidence list \<Rightarrow> evidence list tm_result" where
  "evidence_list_try_from X value = try_map (evidence_try_from X) value"

definition evidence_list_into_raw :: "evidence list \<Rightarrow> raw_evidence list" where
  "evidence_list_into_raw value = map evidence_into_raw value"

section \<open>Parameters\<close>

text \<open>
  \<open>core::time::Duration\<close> counts nanoseconds; \<open>new\<close> carries nanoseconds over into the seconds. A cast
  of the seconds to \<open>i64\<close> keeps the low 64 bits.
\<close>

definition duration_try_from :: "raw_duration \<Rightarrow> duration tm_result" where
  "duration_try_from value =
     (if \<not> fits_i64 (rd_seconds value) then Err E_IntegerOverflow
      else if \<not> fits_i32 (rd_nanos value) then Err E_IntegerOverflow
      else Ok (unat (rd_seconds value) * 1000000000 + unat (rd_nanos value)))"

definition duration_into_raw :: "duration \<Rightarrow> raw_duration" where
  "duration_into_raw d = \<lparr>rd_seconds = of_nat (d div 1000000000), rd_nanos = of_nat (d mod 1000000000)\<rparr>"

record evidence_params =
  evp_max_age_num_blocks :: u64
  evp_max_age_duration :: duration
  evp_max_bytes :: i64

definition evidence_params_try_from :: "raw_evidence_params \<Rightarrow> evidence_params tm_result" where
  "evidence_params_try_from value =
     (if \<not> fits_i64 (rep_max_age_num_blocks value) then Err E_NegativeMaxAgeNum
      else and_then (ok_or E_MissingMaxAgeDuration (rep_max_age_duration value))
        (\<lambda>rd. and_then (duration_try_from rd)
        (\<lambda>max_age_duration.
           Ok \<lparr>evp_max_age_num_blocks = rep_max_age_num_blocks value, evp_max_age_duration = max_age_duration,
               evp_max_bytes = rep_max_bytes value\<rparr>)))"

definition evidence_params_into_raw :: "evidence_params \<Rightarrow> ('e, raw_evidence_params) result" where
  "evidence_params_into_raw value =
     (if fits_i64 (evp_max_age_num_blocks value)
      then Ok \<lparr>rep_max_age_num_blocks = evp_max_age_num_blocks value,
               rep_max_age_duration = Some (duration_into_raw (evp_max_age_duration value)),
               rep_max_bytes = evp_max_bytes value\<rparr>
      else Panic)"

section \<open>Invariants and lemmas\<close>

definition duplicate_vote_evidence_inv :: "duplicate_vote_evidence \<Rightarrow> bool" where
  "duplicate_vote_evidence_inv ev \<longleftrightarrow>
     vote_inv (dve_vote_a ev) \<and> vote_inv (dve_vote_b ev) \<and> fits_i64 (dve_total_voting_power ev)
     \<and> fits_i64 (dve_validator_power ev) \<and> time_inv (dve_timestamp ev)"

definition conflicting_block_inv :: "externals \<Rightarrow> conflicting_block \<Rightarrow> bool" where
  "conflicting_block_inv X b \<longleftrightarrow> signed_header_inv (cb_signed_header b) \<and> wire_set_inv X (cb_validator_set b)"

definition light_client_attack_evidence_inv :: "externals \<Rightarrow> light_client_attack_evidence \<Rightarrow> bool" where
  "light_client_attack_evidence_inv X ev \<longleftrightarrow>
     conflicting_block_inv X (lae_conflicting_block ev) \<and> fits_i64 (lae_common_height ev)
     \<and> list_all (wire_info_inv X) (lae_byzantine_validators ev) \<and> fits_i64 (lae_total_voting_power ev)
     \<and> time_inv (lae_timestamp ev)"

text \<open>What the wire needs of third-party code.\<close>

definition wire_law :: "externals \<Rightarrow> bool" where
  "wire_law X \<longleftrightarrow> time_crate X \<and> sec1_canonical X"

lemma power_try_from_i64_Ok: "power_try_from_i64 v = Ok p \<longleftrightarrow> p = v \<and> fits_i64 v"
  by (auto simp: power_try_from_i64_def)

lemma height_try_from_i64_Ok: "height_try_from_i64 v = Ok p \<longleftrightarrow> p = v \<and> fits_i64 v"
  by (auto simp: height_try_from_i64_def)

text \<open>Off the wire and back on it, duplicate vote evidence carries the total power twice.\<close>

lemma duplicate_vote_evidence_trip:
  assumes "time_crate X" "duplicate_vote_evidence_inv ev"
  shows "duplicate_vote_evidence_try_from X (duplicate_vote_evidence_into_raw ev)
    = Ok (ev\<lparr>dve_validator_power := dve_total_voting_power ev\<rparr>)"
  using assms
  by (simp add: duplicate_vote_evidence_inv_def duplicate_vote_evidence_try_from_def duplicate_vote_evidence_into_raw_def
      vote_roundtrip time_timestamp_roundtrip scalar_into_defs power_try_from_i64_def)

lemma duplicate_vote_evidence_try_from_inv:
  assumes "time_crate X" "duplicate_vote_evidence_try_from X r = Ok ev"
  shows "duplicate_vote_evidence_inv ev"
proof -
  from assms(2) obtain ra rb rt where "vote_try_from X ra = Ok (dve_vote_a ev)" "vote_try_from X rb = Ok (dve_vote_b ev)"
      "time_try_from X rt = Ok (dve_timestamp ev)" "fits_i64 (dve_total_voting_power ev)" "fits_i64 (dve_validator_power ev)"
    by (auto simp: duplicate_vote_evidence_try_from_def result_simps power_try_from_i64_Ok)
  then show ?thesis
    using vote_codec.dec_inv [OF assms(1)] time_codec.dec_inv [OF assms(1)] by (auto simp: duplicate_vote_evidence_inv_def)
qed

interpretation conflicting_block_codec:
  codec "wire_law X" "conflicting_block_try_from X" conflicting_block_into_raw "conflicting_block_inv X" for X
proof unfold_locales
  fix b assume "wire_law X" "conflicting_block_inv X b"
  then show "conflicting_block_try_from X (conflicting_block_into_raw b) = Ok b"
    by (simp add: wire_law_def conflicting_block_inv_def conflicting_block_try_from_def conflicting_block_into_raw_def
        signed_header_codec.roundtrip set_codec.roundtrip)
next
  fix r b assume X: "wire_law X" and "conflicting_block_try_from X r = Ok b"
  then obtain rh rv where "signed_header_try_from X rh = Ok (cb_signed_header b)" "val_set_try_from X rv = Ok (cb_validator_set b)"
    by (auto simp: conflicting_block_try_from_def result_simps)
  with X show "conflicting_block_inv X b"
    using signed_header_codec.dec_inv [of X] set_codec.dec_inv [of X] by (auto simp: wire_law_def conflicting_block_inv_def)
qed

interpretation attack_codec:
  codec "wire_law X" "light_client_attack_evidence_try_from X" light_client_attack_evidence_into_raw
    "light_client_attack_evidence_inv X" for X
proof unfold_locales
  fix ev assume "wire_law X" "light_client_attack_evidence_inv X ev"
  then show "light_client_attack_evidence_try_from X (light_client_attack_evidence_into_raw ev) = Ok ev"
    by (simp add: light_client_attack_evidence_inv_def light_client_attack_evidence_try_from_def
        light_client_attack_evidence_into_raw_def conflicting_block_codec.roundtrip wire_law_def scalar_into_defs
        height_try_from_i64_def power_try_from_i64_def info_codec.list_roundtrip time_timestamp_roundtrip)
next
  fix r ev assume X: "wire_law X" and "light_client_attack_evidence_try_from X r = Ok ev"
  then obtain rb rt where "conflicting_block_try_from X rb = Ok (lae_conflicting_block ev)" "fits_i64 (lae_common_height ev)"
      "try_map (info_try_from X) (rla_byzantine_validators r) = Ok (lae_byzantine_validators ev)"
      "fits_i64 (lae_total_voting_power ev)" "time_try_from X rt = Ok (lae_timestamp ev)"
    by (auto simp: light_client_attack_evidence_try_from_def result_simps power_try_from_i64_Ok height_try_from_i64_Ok)
  then show "light_client_attack_evidence_inv X ev"
    using X conflicting_block_codec.dec_inv [OF X] info_codec.list_dec_inv [of X] time_codec.dec_inv [of X]
    by (simp add: light_client_attack_evidence_inv_def wire_law_def)
qed

text \<open>
  Durations: the seconds and the nanoseconds of a message are read without a bound on the
  nanoseconds, and written back in normal form.
\<close>

lemma duration_roundtrip: "d < 2 ^ 63 * 1000000000 \<Longrightarrow> duration_try_from (duration_into_raw d) = Ok d"
proof -
  assume "d < 2 ^ 63 * 1000000000"
  then have s: "d div 1000000000 < 2 ^ 63" by (simp add: div_less_iff_less_mult)
  moreover have n: "d mod 1000000000 < 2 ^ 31" by (rule order_less_trans [of _ 1000000000]) simp_all
  ultimately have "unat (of_nat (d div 1000000000) :: u64) = d div 1000000000" "unat (of_nat (d mod 1000000000) :: u32) = d mod 1000000000"
    by (simp_all add: unat_of_nat take_bit_nat_eq_self)
  then show ?thesis using s n
    by (simp add: duration_try_from_def duration_into_raw_def fits_i64_unat fits_i32_def word_le_nat_alt i32_max_def)
qed

lemma duration_normal:
  assumes "duration_try_from r = Ok d" "unat (rd_nanos r) < 1000000000"
  shows "duration_into_raw d = r" "d < 2 ^ 63 * 1000000000"
  using assms by (auto simp: duration_try_from_def duration_into_raw_def fits_i64_unat split: if_splits)

text \<open>
  A message with the largest seconds and more than a second of nanoseconds is accepted, but what it
  stands for cannot be written back: the seconds come out negative.
\<close>

lemma duration_not_reencodable:
  "\<exists>r d. duration_try_from r = Ok d \<and> duration_try_from (duration_into_raw d) = Err E_IntegerOverflow"
  by (rule exI [of _ "\<lparr>rd_seconds = i64_max, rd_nanos = i32_max\<rparr>"], rule exI [of _ "unat i64_max * 1000000000 + unat i32_max"])
    (simp add: duration_try_from_def duration_into_raw_def fits_i64_def fits_i32_def i64_max_def i32_max_def)

lemma evidence_params_roundtrip:
  assumes "fits_i64 (evp_max_age_num_blocks p)" "evp_max_age_duration p < 2 ^ 63 * 1000000000"
  shows "and_then (evidence_params_into_raw p) evidence_params_try_from = Ok p"
  using assms by (simp add: evidence_params_into_raw_def evidence_params_try_from_def duration_roundtrip)

lemma evidence_params_into_raw_Panic:
  "evidence_params_into_raw p = Panic \<longleftrightarrow> \<not> fits_i64 (evp_max_age_num_blocks p)"
  by (simp add: evidence_params_into_raw_def)

end
