(* ===== verification/Detector.thy ===== *)
theory Detector
  imports Light_Client_Lemmas Tm_Evidence
begin

text \<open>
  \<open>light-client-detector/src\<close>: comparing what a primary and a witness say about a height, finding the
  point where their chains part, and the evidence made from it.

  A provider is a light client instance over the in-memory store. The code runs some of its calls on
  a fresh state; the counters of the calls to the peer and the clock go on across them, so that a
  peer may still answer every call differently.
\<close>

section \<open>Errors\<close>

record gathered_evidence =
  ge_witness_trace :: "light_block list"
  ge_against_primary :: light_client_attack_evidence
  ge_against_witness :: "light_client_attack_evidence option"

datatype dt_error =
    DE_Io io_error
  | DE_LightClient lc_error
  | DE_NoDivergence
  | DE_Divergence gathered_evidence light_block
  | DE_NoWitnesses
  | DE_BadWitness
  | DE_TargetBlockLowerThanTrusted height height
  | DE_TrustedHashDifferentFromSourceFirstBlock tm_hash tm_hash
  | DE_TraceTooShort "light_block list"
  | DE_TraceBlockAfterTargetBlock time time
  | DE_FailedHeaderCrossReferencing

section \<open>Traces\<close>

text \<open>The order of blocks of one height, which an unstable sort leaves open, is kept.\<close>

definition trace_new :: "light_block list \<Rightarrow> (dt_error, light_block list) result" where
  "trace_new trace =
     (if length trace < 2 then Err (DE_TraceTooShort trace) else Ok (sort_key lb_height trace))"

fun trace_first :: "light_block list \<Rightarrow> ('e, light_block) result" where
  "trace_first [] = Panic"
| "trace_first (b # bs) = Ok b"

definition trace_last :: "light_block list \<Rightarrow> ('e, light_block) result" where
  "trace_last trace = (if trace = [] then Panic else Ok (last trace))"

section \<open>Providers\<close>

record provider =
  pr_chain_id :: string
  pr_instance :: "memory_store lc_instance"

definition provider_new :: "string \<Rightarrow> memory_store lc_instance \<Rightarrow> provider" where
  "provider_new chain_id i = \<lparr>pr_chain_id = chain_id, pr_instance = i\<rparr>"

definition provider_peer_id :: "provider \<Rightarrow> peer_id" where
  "provider_peer_id p = instance_peer_id (pr_instance p)"

abbreviation pr_client :: "provider \<Rightarrow> memory_store light_client" where
  "pr_client p \<equiv> in_light_client (pr_instance p)"

abbreviation pr_state :: "provider \<Rightarrow> memory_store lc_state" where
  "pr_state p \<equiv> in_state (pr_instance p)"

definition set_pr_state :: "memory_store lc_state \<Rightarrow> provider \<Rightarrow> provider" where
  "set_pr_state st p = p\<lparr>pr_instance := (pr_instance p)\<lparr>in_state := st\<rparr>\<rparr>"

definition fresh_state :: "memory_store \<Rightarrow> provider \<Rightarrow> memory_store lc_state" where
  "fresh_state s p = (state_new s)\<lparr>st_ticks := st_ticks (pr_state p), st_fetches := st_fetches (pr_state p)\<rparr>"

definition keep_counters :: "memory_store lc_state \<Rightarrow> provider \<Rightarrow> provider" where
  "keep_counters st p = set_pr_state ((pr_state p)\<lparr>st_ticks := st_ticks st, st_fetches := st_fetches st\<rparr>) p"

definition provider_fetch_light_block :: "height \<Rightarrow> (provider, lc_error, light_block) call" where
  "provider_fetch_light_block h p =
     (case get_or_fetch_block memory_ops (pr_client p) h (fresh_state memory_new p) of
        (st, r) \<Rightarrow> (keep_counters st p, and_then r (\<lambda>(lb, _). Ok lb)))"

definition provider_verify_to_highest :: "externals \<Rightarrow> (provider, lc_error, light_block) ocall" where
  "provider_verify_to_highest X p =
     map_option (\<lambda>(st, r). (set_pr_state st p, r)) (verify_to_highest X memory_ops (pr_client p) (pr_state p))"

definition provider_verify_to_height :: "externals \<Rightarrow> height \<Rightarrow> (provider, lc_error, light_block) ocall" where
  "provider_verify_to_height X h p =
     map_option (\<lambda>(st, r). (set_pr_state st p, r)) (verify_to_target X memory_ops (pr_client p) h (pr_state p))"

definition provider_verify_to_height_with_state ::
  "externals \<Rightarrow> provider \<Rightarrow> height \<Rightarrow> (memory_store lc_state, lc_error, light_block) ocall" where
  "provider_verify_to_height_with_state X p h = verify_to_target X memory_ops (pr_client p) h"

definition provider_get_target_block_or_latest :: "height \<Rightarrow> (provider, lc_error, target_or_latest) call" where
  "provider_get_target_block_or_latest h p =
     (case get_target_block_or_latest memory_ops (pr_client p) h (pr_state p) of (st, r) \<Rightarrow> (set_pr_state st p, r))"

definition provider_get_trace :: "provider \<Rightarrow> height \<Rightarrow> light_block list" where
  "provider_get_trace p h = get_trace memory_ops (pr_state p) h"

definition provider_latest_trusted :: "provider \<Rightarrow> light_block option" where
  "provider_latest_trusted p = latest_trusted memory_ops (pr_instance p)"

section \<open>Making evidence\<close>

definition conflicting_header_is_invalid :: "header \<Rightarrow> header \<Rightarrow> bool" where
  "conflicting_header_is_invalid conflicted trusted \<longleftrightarrow>
     hdr_validators_hash trusted \<noteq> hdr_validators_hash conflicted
     \<or> hdr_next_validators_hash trusted \<noteq> hdr_next_validators_hash conflicted
     \<or> hdr_consensus_hash trusted \<noteq> hdr_consensus_hash conflicted
     \<or> hdr_app_hash trusted \<noteq> hdr_app_hash conflicted
     \<or> hdr_last_results_hash trusted \<noteq> hdr_last_results_hash conflicted"

text \<open>The sort key of \<open>cmp_voting_power_then_address\<close>.\<close>

definition voting_power_then_address :: "info \<Rightarrow> power \<times> account_id" where
  "voting_power_then_address v = (info_power v, info_address v)"

text \<open>The validator a signature names.\<close>

definition signer :: "val_set \<Rightarrow> commit_sig \<Rightarrow> info option" where
  "signer vs s = Option.bind (cs_validator_address s) (set_validator vs)"

definition find_lunatic_validators :: "conflicting_block \<Rightarrow> val_set \<Rightarrow> info list" where
  "find_lunatic_validators conflicted common_validators =
     sort_key voting_power_then_address
       (List.map_filter (signer common_validators)
         (filter cs_is_commit (cmt_signatures (sh_commit (cb_signed_header conflicted)))))"

text \<open>The loop over the signatures of the conflicting commit; \<open>sigs_b\<close> is what the indexing can still reach.\<close>

fun equivocating_loop :: "val_set \<Rightarrow> commit_sig list \<Rightarrow> commit_sig list \<Rightarrow> ('e, info list) result" where
  "equivocating_loop vs [] sigs_b = Ok []"
| "equivocating_loop vs (sig_a # sigs_a) sigs_b =
     (if cs_is_absent sig_a then equivocating_loop vs sigs_a (drop 1 sigs_b)
      else
        case sigs_b of
          [] \<Rightarrow> Panic
        | sig_b # rest \<Rightarrow>
            and_then (equivocating_loop vs sigs_a rest)
              (\<lambda>found. Ok (if cs_is_nil sig_b then found
                 else case signer vs sig_a of Some v \<Rightarrow> v # found | None \<Rightarrow> found)))"

definition find_equivocating_validators :: "conflicting_block \<Rightarrow> signed_header \<Rightarrow> ('e, info list) result" where
  "find_equivocating_validators conflicted trusted =
     and_then (equivocating_loop (cb_validator_set conflicted)
         (cmt_signatures (sh_commit (cb_signed_header conflicted))) (cmt_signatures (sh_commit trusted)))
       (\<lambda>validators. Ok (sort_key voting_power_then_address validators))"

definition get_byzantine_validators ::
  "conflicting_block \<Rightarrow> val_set \<Rightarrow> signed_header \<Rightarrow> ('e, info list) result" where
  "get_byzantine_validators conflicted common_validators trusted =
     (if conflicting_header_is_invalid (sh_header (cb_signed_header conflicted)) (sh_header trusted)
      then Ok (find_lunatic_validators conflicted common_validators)
      else if cmt_round (sh_commit trusted) = cmt_round (sh_commit (cb_signed_header conflicted))
      then find_equivocating_validators conflicted trusted
      else Ok [])"

definition make_evidence ::
  "light_block \<Rightarrow> light_block \<Rightarrow> light_block \<Rightarrow> ('e, light_client_attack_evidence) result" where
  "make_evidence conflicted trusted common =
     (let invalid = conflicting_header_is_invalid (sh_header (lb_signed_header conflicted))
            (sh_header (lb_signed_header trusted));
          conflicting_block = \<lparr>cb_signed_header = lb_signed_header conflicted, cb_validator_set = lb_validators conflicted\<rparr>
      in and_then (get_byzantine_validators conflicting_block (lb_validators common) (lb_signed_header trusted))
        (\<lambda>byzantine_validators.
           let witness = (if invalid then common else trusted) in
           Ok \<lparr>lae_conflicting_block = conflicting_block, lae_common_height = lb_height witness,
               lae_byzantine_validators = byzantine_validators,
               lae_total_voting_power = vs_total_voting_power (lb_validators witness),
               lae_timestamp = lb_time witness\<rparr>))"

section \<open>Finding the point of divergence\<close>

definition lb_hash :: "externals \<Rightarrow> light_block \<Rightarrow> tm_hash" where
  "lb_hash X b = header_hash X (sh_header (lb_signed_header b))"

datatype examination_result = ER_Continue light_block | ER_Divergence "light_block list" light_block

definition verify_skipping ::
  "externals \<Rightarrow> light_block \<Rightarrow> light_block \<Rightarrow> (provider, dt_error, light_block list) ocall" where
  "verify_skipping X trusted target source =
     (let target_height = lb_height target;
          store = memory_insert (memory_insert memory_new trusted Trusted) target Unverified
      in map_option
        (\<lambda>(st, r). (keep_counters st source,
           and_then (map_err DE_LightClient r)
             (\<lambda>_. trace_new (get_trace memory_ops st target_height))))
        (provider_verify_to_height_with_state X source target_height (fresh_state store source)))"

definition source_block_for ::
  "light_block \<Rightarrow> light_block \<Rightarrow> (provider, dt_error, light_block) call" where
  "source_block_for traced_block target_block =
     (if lb_height traced_block = lb_height target_block then lift (Ok target_block)
      else (\<lambda>source. case provider_fetch_light_block (lb_height traced_block) source of
              (source', r) \<Rightarrow> (source', map_err DE_LightClient r)))"

definition check_time_order :: "light_block \<Rightarrow> light_block \<Rightarrow> (provider, dt_error, unit) call" where
  "check_time_order traced_block target_block =
     fail_if (lb_time traced_block > lb_time target_block)
       (DE_TraceBlockAfterTargetBlock (lb_time traced_block) (lb_time target_block))"

definition check_trusted_block ::
  "externals \<Rightarrow> light_block \<Rightarrow> light_block \<Rightarrow> (provider, dt_error, light_block) call" where
  "check_trusted_block X trusted_block target_block =
     sbind (if lb_height trusted_block > lb_height target_block then check_time_order trusted_block target_block
            else lift (Ok ())) (\<lambda>_.
     sbind (source_block_for trusted_block target_block) (\<lambda>source_block.
     lift (if lb_hash X source_block \<noteq> lb_hash X trusted_block
           then Err (DE_TrustedHashDifferentFromSourceFirstBlock (lb_hash X source_block) (lb_hash X trusted_block))
           else Ok source_block)))"

definition examine_trace_block_rest ::
  "externals \<Rightarrow> light_block \<Rightarrow> light_block \<Rightarrow> light_block \<Rightarrow> (provider, dt_error, examination_result) ocall" where
  "examine_trace_block_rest X traced_block target_block prev_verified_block =
     obind (olift (source_block_for traced_block target_block)) (\<lambda>source_block.
     obind (verify_skipping X prev_verified_block source_block) (\<lambda>source_trace.
     oresult (Ok (if lb_hash X source_block \<noteq> lb_hash X traced_block
       then ER_Divergence source_trace traced_block else ER_Continue source_block))))"

definition examine_conflicting_header_against_trace_block ::
  "externals \<Rightarrow> light_block \<Rightarrow> light_block \<Rightarrow> light_block \<Rightarrow> (provider, dt_error, examination_result) ocall" where
  "examine_conflicting_header_against_trace_block X traced_block target_block prev_verified_block =
     (if lb_height traced_block > lb_height target_block
      then obind (olift (check_time_order traced_block target_block)) (\<lambda>_.
        if lb_height prev_verified_block \<noteq> lb_height target_block
        then obind (verify_skipping X prev_verified_block target_block) (\<lambda>source_trace.
          oresult (Ok (ER_Divergence source_trace traced_block)))
        else examine_trace_block_rest X traced_block target_block prev_verified_block)
      else examine_trace_block_rest X traced_block target_block prev_verified_block)"

fun examine_loop ::
  "externals \<Rightarrow> light_block \<Rightarrow> light_block \<Rightarrow> light_block list \<Rightarrow>
   (provider, dt_error, light_block list \<times> light_block) ocall" where
  "examine_loop X target_block prev [] = oresult (Err DE_NoDivergence)"
| "examine_loop X target_block prev (traced_block # rest) =
     obind (examine_conflicting_header_against_trace_block X traced_block target_block prev) (\<lambda>r.
     case r of
       ER_Continue prev' \<Rightarrow> examine_loop X target_block prev' rest
     | ER_Divergence source_trace traced_block \<Rightarrow> oresult (Ok (source_trace, traced_block)))"

definition examine_conflicting_header_against_trace ::
  "externals \<Rightarrow> light_block list \<Rightarrow> light_block \<Rightarrow> (provider, dt_error, light_block list \<times> light_block) ocall" where
  "examine_conflicting_header_against_trace X trace target_block =
     obind (oresult (trace_first trace)) (\<lambda>trusted_block.
     if lb_height target_block < lb_height trusted_block
     then oresult (Err (DE_TargetBlockLowerThanTrusted (lb_height target_block) (lb_height trusted_block)))
     else obind (olift (check_trusted_block X trusted_block target_block)) (\<lambda>prev.
       examine_loop X target_block prev (drop 1 trace)))"

section \<open>Gathering evidence and detection\<close>

text \<open>
  The two providers are a pair; the primary may be missing. A step of one of them leaves the other
  as it is.
\<close>

type_synonym providers = "provider option \<times> provider"

definition on_witness :: "(provider, 'e, 'a) ocall \<Rightarrow> (providers, 'e, 'a) ocall" where
  "on_witness m ps = (case ps of (primary, witness) \<Rightarrow>
     map_option (\<lambda>(witness', r). ((primary, witness'), r)) (m witness))"

definition on_primary :: "provider \<Rightarrow> (provider, 'e, 'a) ocall \<Rightarrow> (providers, 'e, 'a) ocall" where
  "on_primary p m ps = map_option (\<lambda>(p', r). ((Some p', snd ps), r)) (m p)"

definition evidence_from_trace ::
  "light_block list \<Rightarrow> light_block \<Rightarrow> ('e, light_client_attack_evidence) result" where
  "evidence_from_trace trace conflicted =
     and_then (trace_first trace) (\<lambda>common_block.
     and_then (trace_last trace) (\<lambda>trusted_block.
     make_evidence conflicted trusted_block common_block))"

text \<open>With a primary at hand the roles are reversed to gather evidence against the witness.\<close>

definition gather_against_witness ::
  "externals \<Rightarrow> light_block list \<Rightarrow> light_block \<Rightarrow> light_client_attack_evidence \<Rightarrow>
   (providers, dt_error, gathered_evidence) ocall" where
  "gather_against_witness X witness_trace primary_block evidence_against_primary ps =
     (case fst ps of
        None \<Rightarrow> Some (ps, Ok \<lparr>ge_witness_trace = witness_trace, ge_against_primary = evidence_against_primary,
                            ge_against_witness = None\<rparr>)
      | Some primary \<Rightarrow>
          obind (on_primary primary (examine_conflicting_header_against_trace X witness_trace primary_block))
            (\<lambda>(primary_trace, witness_block).
          obind (oresult (evidence_from_trace primary_trace witness_block)) (\<lambda>evidence_against_witness.
          oresult (Ok \<lparr>ge_witness_trace = witness_trace, ge_against_primary = evidence_against_primary,
                       ge_against_witness = Some evidence_against_witness\<rparr>))) ps)"

definition gather_evidence_from_conflicting_headers ::
  "externals \<Rightarrow> light_block list \<Rightarrow> light_block \<Rightarrow> (providers, dt_error, gathered_evidence) ocall" where
  "gather_evidence_from_conflicting_headers X primary_trace challenging_block =
     obind (on_witness (examine_conflicting_header_against_trace X primary_trace challenging_block))
       (\<lambda>(witness_trace, primary_block).
     obind (oresult (evidence_from_trace witness_trace primary_block)) (\<lambda>evidence_against_primary.
     gather_against_witness X witness_trace primary_block evidence_against_primary))"

datatype compare_error = ConflictingHeaders light_block | BadWitness | Other lc_error

text \<open>\<open>core::time::Duration\<close> ends below \<open>2 ^ 64\<close> seconds; its arithmetic panics beyond.\<close>

definition wait_time :: "duration \<Rightarrow> duration \<Rightarrow> ('e, duration) result" where
  "wait_time max_clock_drift max_block_lag =
     (let d = 2 * max_clock_drift + max_block_lag in if d < 2 ^ 64 * 1000000000 then Ok d else Panic)"

definition ask_latest :: "signed_header \<Rightarrow> (provider, compare_error, target_or_latest) call" where
  "ask_latest sh witness =
     (case provider_get_target_block_or_latest (hdr_height (sh_header sh)) witness of
        (witness', r) \<Rightarrow> (witness', map_err (\<lambda>_. BadWitness) r))"

definition check_lagging_witness ::
  "signed_header \<Rightarrow> duration \<Rightarrow> duration \<Rightarrow> (provider, compare_error, light_block) call" where
  "check_lagging_witness sh max_clock_drift max_block_lag =
     sbind (ask_latest sh) (\<lambda>answer. case answer of
       Target light_block \<Rightarrow> lift (Ok light_block)
     | Latest light_block \<Rightarrow>
         if \<not> time_before (lb_time light_block) (hdr_time (sh_header sh))
         then lift (Err (ConflictingHeaders light_block))
         else
           sbind (lift (wait_time max_clock_drift max_block_lag)) (\<lambda>_.
           sbind (ask_latest sh) (\<lambda>answer. case answer of
             Target light_block \<Rightarrow> lift (Ok light_block)
           | Latest light_block \<Rightarrow>
               if \<not> time_before (lb_time light_block) (hdr_time (sh_header sh))
               then lift (Err (ConflictingHeaders light_block))
               else lift (Err BadWitness))))"

definition check_against_witness ::
  "signed_header \<Rightarrow> duration \<Rightarrow> duration \<Rightarrow> (provider, compare_error, light_block) call" where
  "check_against_witness sh max_clock_drift max_block_lag witness =
     (case provider_fetch_light_block (hdr_height (sh_header sh)) witness of
        (witness', Ok lb) \<Rightarrow> (witness', Ok lb)
      | (witness', Panic) \<Rightarrow> (witness', Panic)
      | (witness', Err e) \<Rightarrow>
          if le_is_io e then (witness', Err BadWitness)
          else if le_is_height_too_high e
          then check_lagging_witness sh max_clock_drift max_block_lag witness'
          else (witness', Err (Other e)))"

definition compare_new_header_with_witness ::
  "externals \<Rightarrow> signed_header \<Rightarrow> duration \<Rightarrow> duration \<Rightarrow> (provider, compare_error, unit) call" where
  "compare_new_header_with_witness X new_header max_clock_drift max_block_lag =
     sbind (check_against_witness new_header max_clock_drift max_block_lag) (\<lambda>light_block.
     fail_if (lb_hash X light_block \<noteq> header_hash X (sh_header new_header)) (ConflictingHeaders light_block))"

record divergence =
  dv_evidence :: gathered_evidence
  dv_challenging_block :: light_block

definition detect_divergence ::
  "externals \<Rightarrow> light_block list \<Rightarrow> duration \<Rightarrow> duration \<Rightarrow> (providers, dt_error, divergence option) ocall" where
  "detect_divergence X primary_trace max_clock_drift max_block_lag ps =
     obind (oresult (trace_new primary_trace)) (\<lambda>primary_trace.
     obind (oresult (trace_last primary_trace)) (\<lambda>last_verified_block.
     \<lambda>(primary, witness).
       case compare_new_header_with_witness X (lb_signed_header last_verified_block) max_clock_drift max_block_lag witness of
         (witness', Ok _) \<Rightarrow> Some ((primary, witness'), Ok None)
       | (witness', Err (ConflictingHeaders challenging_block)) \<Rightarrow>
           obind (gather_evidence_from_conflicting_headers X primary_trace challenging_block) (\<lambda>evidence.
             oresult (Ok (Some \<lparr>dv_evidence = evidence, dv_challenging_block = challenging_block\<rparr>))) (primary, witness')
       | (witness', Err BadWitness) \<Rightarrow> Some ((primary, witness'), Err DE_BadWitness)
       | (witness', Err (Other e)) \<Rightarrow> Some ((primary, witness'), Err (DE_LightClient e))
       | (witness', Panic) \<Rightarrow> Some ((primary, witness'), Panic))) ps"

end
