(* ===== verification/Detector_Lemmas.thy ===== *)
theory Detector_Lemmas
  imports Detector Trace_Lemmas
begin

text \<open>
  The detector whatever its providers answer: its calls return, the traces it builds hang on blocks
  both sides agree on by successful verifications, and the evidence it makes names validators of the
  conflicting commit only.
\<close>

section \<open>Providers\<close>

lemma keep_counters_client [simp]: "pr_client (keep_counters st p) = pr_client p"
  "pr_client (set_pr_state st p) = pr_client p"
  by (simp_all add: keep_counters_def set_pr_state_def)

lemma fresh_state_simps [simp]: "st_light_store (fresh_state s p) = s" "trace_inv (fresh_state s p)"
  by (simp_all add: fresh_state_def state_new_def trace_inv_def)

text \<open>A fresh state has no block, so that a fetch always asks the peer, and fails with an I/O error only.\<close>

lemma provider_fetch_light_block_eq:
  "provider_fetch_light_block h p =
     (let n = st_fetches (pr_state p); r = lc_io (pr_client p) n (At h) in
      (set_pr_state ((pr_state p)\<lparr>st_fetches := n + 1\<rparr>) p,
       and_then (map_err LE_Io r) (\<lambda>b. requires (lb_provider b = lc_peer (pr_client p)) (Ok b))))"
  by (cases "lc_io (pr_client p) (st_fetches (pr_state p)) (At h)")
    (simp_all add: provider_fetch_light_block_def get_or_fetch_block_def get_non_failed_def memory_ops_def
      memory_get_def memory_new_def sbind_def fetch_light_block_def store_insert_def fresh_state_def state_new_def
      keep_counters_def requires_def Let_def)

lemma provider_fetch_client: "provider_fetch_light_block h p = (p', r) \<Longrightarrow> pr_client p' = pr_client p"
  by (auto simp: provider_fetch_light_block_eq Let_def)

lemma provider_fetch_Err: "provider_fetch_light_block h p = (p', Err e) \<Longrightarrow> le_is_io e"
  by (auto simp: provider_fetch_light_block_eq Let_def result_simps requires_def split: if_splits)

section \<open>Verification between two blocks\<close>

text \<open>The client of a provider is the production client.\<close>

definition production :: "externals \<Rightarrow> memory_store light_client \<Rightarrow> bool" where
  "production X C \<longleftrightarrow> lc_verifier C = verify_update_header X \<and> lc_scheduler C = basic_bisecting_schedule"

abbreviation hangs_on :: "memory_store light_client \<Rightarrow> light_block \<Rightarrow> light_block \<Rightarrow> bool" where
  "hangs_on C root \<equiv> trust_chain (lc_verifier C) (lc_options C) (lc_clock C) {root}"

lemma memory_new_facts [simp]: "memory_inv memory_new" "memory_view memory_new h k = None"
  by (simp_all add: memory_new_def memory_inv_def memory_view_def bt_inv_def)

lemma verify_skipping_returns:
  assumes "production X (pr_client p)"
  shows "\<exists>p' r. verify_skipping X trusted target p = Some (p', r) \<and> pr_client p' = pr_client p"
proof -
  let ?st = "fresh_state (memory_insert (memory_insert memory_new trusted Trusted) target Unverified) p"
  have "\<exists>r. verify_to_target X memory_ops (pr_client p) (lb_height target) ?st = Some r"
    unfolding verify_to_target_def using assms
    by (intro prod.verify_to_target_returns) (simp_all add: production_def memory_inv_insert)
  then show ?thesis
    by (auto simp: verify_skipping_def provider_verify_to_height_with_state_def Let_def)
qed

text \<open>
  What a successful verification from a block to another leaves: an ordered trace that ends at the
  height of the target and whose blocks all hang on the first block.
\<close>

lemma verify_skipping_trace:
  assumes "lc_verifier (pr_client p) = verify_update_header X" "verify_skipping X trusted target p = Some (p', Ok tr)"
  shows "pr_client p' = pr_client p" "\<forall>b \<in> set tr. hangs_on (pr_client p) trusted b"
    and "sorted (map lb_height tr)" "lb_height (last tr) = lb_height target" "2 \<le> length tr"
proof -
  let ?C = "pr_client p"
  let ?s = "memory_insert (memory_insert memory_new trusted Trusted) target Unverified"
  from assms(2) obtain st b where run: "verify_to_target X memory_ops ?C (lb_height target) (fresh_state ?s p) = Some (st, Ok b)"
    and p': "p' = keep_counters st p" and tr: "trace_new (get_trace memory_ops st (lb_height target)) = Ok tr"
    by (auto simp: verify_skipping_def provider_verify_to_height_with_state_def Let_def result_simps)
  show "pr_client p' = ?C" by (simp add: p')
  have len: "2 \<le> length tr" "tr = get_trace memory_ops st (lb_height target)"
    using tr by (auto simp: trace_new_def sorted_sort_id sort_key_of_sorted sorted_get_trace split: if_splits)
  have roots: "vouched (hangs_on ?C trusted) (memory_view ?s)"
    by (auto simp: vouched_def memory_view_insert intro!: trust_chain.root split: if_splits)
  note end_state = verify_to_target_vouched [OF assms(1) _ _ run, where roots = "{trusted}"]
  have inv: "memory_inv (st_light_store st)" "vouched (hangs_on ?C trusted) (memory_view (st_light_store st))"
      "tv_of (memory_view (st_light_store st)) (lb_height target) \<noteq> None"
    using end_state roots by (simp_all add: memory_inv_insert)
  have "trace_inv st" by (rule verify_to_target_trace [OF run]) simp
  with get_trace_last(1) [OF _ inv(1) _ inv(3)] len show "lb_height (last tr) = lb_height target" by fastforce
  show "\<forall>b \<in> set tr. hangs_on ?C trusted b"
    using inv(2) unfolding len(2) vouched_def set_get_trace mem.get_trusted_or_verified_eq [OF inv(1)]
    by (blast elim: tv_of_cases)
  show "sorted (map lb_height tr)" "2 \<le> length tr" using len sorted_get_trace by auto
qed

section \<open>Examination of a trace\<close>

lemma source_block_for_client: "source_block_for a b p = (p', r) \<Longrightarrow> pr_client p' = pr_client p"
  by (auto simp: source_block_for_def dest: provider_fetch_client split: if_splits prod.splits)

text \<open>
  What the source has at the height of a traced block: the target, when it has that height, and else an
  answer of the source's peer to a request for that height.
\<close>

definition source_answer :: "memory_store light_client \<Rightarrow> light_block \<Rightarrow> light_block \<Rightarrow> light_block \<Rightarrow> bool" where
  "source_answer C target traced b \<longleftrightarrow>
     (if lb_height traced = lb_height target then b = target else \<exists>n. lc_io C n (At (lb_height traced)) = Ok b)"

lemma provider_fetch_Ok:
  "provider_fetch_light_block h p = (p', Ok b) \<Longrightarrow> lc_io (pr_client p) (st_fetches (pr_state p)) (At h) = Ok b"
  by (auto simp: provider_fetch_light_block_eq Let_def result_simps requires_def split: if_splits)

lemma source_block_for_Ok: "source_block_for traced target p = (p', Ok b) \<Longrightarrow> source_answer (pr_client p) target traced b"
  by (auto simp: source_block_for_def source_answer_def result_simps dest: provider_fetch_Ok split: if_splits prod.splits)

lemma check_trusted_block_Ok:
  assumes "check_trusted_block X trusted target p = (p', Ok b)"
  shows "lb_hash X b = lb_hash X trusted" "pr_client p' = pr_client p" "source_answer (pr_client p) target trusted b"
  using assms
  by (auto simp: check_trusted_block_def check_time_order_def sbind_Ok dest: source_block_for_client source_block_for_Ok
      split: if_splits)

text \<open>
  Where the examination of a trace ended: the block \<open>traced\<close> the source disagrees with, the block
  \<open>prev\<close> of the source it went on from, and what the source verified from there. Either the trace
  goes on above the target, or what the source has at the height of \<open>traced\<close> has another header.
\<close>

definition divergence_point ::
  "externals \<Rightarrow> memory_store light_client \<Rightarrow> light_block \<Rightarrow> light_block \<Rightarrow> light_block list \<Rightarrow> light_block \<Rightarrow> bool" where
  "divergence_point X C target prev source_trace traced \<longleftrightarrow>
     (\<forall>b \<in> set source_trace. hangs_on C prev b) \<and> sorted (map lb_height source_trace) \<and> 2 \<le> length source_trace
     \<and> (lb_height target < lb_height traced \<and> lb_height (last source_trace) = lb_height target
        \<or> (\<exists>b. source_answer C target traced b \<and> lb_hash X b \<noteq> lb_hash X traced
             \<and> lb_height (last source_trace) = lb_height b))"

lemma examine_rest_Ok:
  assumes "lc_verifier (pr_client p) = verify_update_header X"
    and "examine_trace_block_rest X traced target prev p = Some (p', Ok r)"
  shows "pr_client p' = pr_client p"
    and "r = ER_Continue b \<Longrightarrow> lb_hash X b = lb_hash X traced \<and> source_answer (pr_client p) target traced b"
    and "r = ER_Divergence tr c \<Longrightarrow> c = traced \<and> divergence_point X (pr_client p) target prev tr c"
proof -
  from assms(2) obtain p1 sb tr' where sb: "source_block_for traced target p = (p1, Ok sb)"
    and tr': "verify_skipping X prev sb p1 = Some (p', Ok tr')"
    and r: "r = (if lb_hash X sb \<noteq> lb_hash X traced then ER_Divergence tr' traced else ER_Continue sb)"
    by (auto simp: examine_trace_block_rest_def obind_Ok)
  have C: "pr_client p1 = pr_client p" by (rule source_block_for_client [OF sb])
  note skip = verify_skipping_trace [OF _ tr', unfolded C, OF assms(1)]
  show "pr_client p' = pr_client p" by (rule skip(1))
  note ans = source_block_for_Ok [OF sb]
  show "r = ER_Continue b \<Longrightarrow> lb_hash X b = lb_hash X traced \<and> source_answer (pr_client p) target traced b"
    using r ans by (auto split: if_splits)
  show "r = ER_Divergence tr c \<Longrightarrow> c = traced \<and> divergence_point X (pr_client p) target prev tr c"
    using r skip ans by (auto simp: divergence_point_def split: if_splits)
qed

lemma examine_trace_block_Ok:
  assumes "lc_verifier (pr_client p) = verify_update_header X"
    and "examine_conflicting_header_against_trace_block X traced target prev p = Some (p', Ok r)"
  shows "pr_client p' = pr_client p"
    and "r = ER_Continue b \<Longrightarrow> lb_hash X b = lb_hash X traced \<and> source_answer (pr_client p) target traced b"
    and "r = ER_Divergence tr c \<Longrightarrow> c = traced \<and> divergence_point X (pr_client p) target prev tr c"
proof -
  consider (rest) "examine_trace_block_rest X traced target prev p = Some (p', Ok r)"
    | (skip) tr' where "lb_height target < lb_height traced" "verify_skipping X prev target p = Some (p', Ok tr')"
        "r = ER_Divergence tr' traced"
    using assms(2)
    by (auto simp: examine_conflicting_header_against_trace_block_def obind_Ok check_time_order_def split: if_splits)
  note cases = this
  show "pr_client p' = pr_client p"
    by (rule cases) (auto intro: examine_rest_Ok(1) [OF assms(1)] verify_skipping_trace(1) [OF assms(1)])
  show "r = ER_Continue b \<Longrightarrow> lb_hash X b = lb_hash X traced \<and> source_answer (pr_client p) target traced b"
    by (rule cases) (use examine_rest_Ok(2) [OF assms(1)] in auto)
  show "c = traced \<and> divergence_point X (pr_client p) target prev tr c" if "r = ER_Divergence tr c"
  proof (rule cases)
    assume "examine_trace_block_rest X traced target prev p = Some (p', Ok r)"
    from examine_rest_Ok(3) [OF assms(1) this that] show ?thesis .
  next
    fix tr' assume "lb_height target < lb_height traced" "verify_skipping X prev target p = Some (p', Ok tr')"
      "r = ER_Divergence tr' traced"
    with that verify_skipping_trace [OF assms(1) this(2)] show ?thesis by (auto simp: divergence_point_def)
  qed
qed

lemma examine_loop_Ok:
  assumes "lc_verifier (pr_client p) = verify_update_header X"
    and "lb_hash X prev = lb_hash X first \<and> source_answer (pr_client p) target first prev"
    and "examine_loop X target prev trace p = Some (p', Ok (tr, traced))"
  shows "pr_client p' = pr_client p \<and> (\<exists>before agreed after b. first # trace = before @ agreed # traced # after
    \<and> lb_hash X b = lb_hash X agreed \<and> source_answer (pr_client p) target agreed b
    \<and> divergence_point X (pr_client p) target b tr traced)"
  using assms
proof (induction trace arbitrary: first prev p)
  case (Cons c trace)
  from Cons.prems(3) obtain p1 r where step: "examine_conflicting_header_against_trace_block X c target prev p = Some (p1, Ok r)"
    and rest: "(case r of ER_Continue prev' \<Rightarrow> examine_loop X target prev' trace
      | ER_Divergence source_trace traced_block \<Rightarrow> oresult (Ok (source_trace, traced_block))) p1 = Some (p', Ok (tr, traced))"
    by (auto simp: obind_Ok)
  note facts = examine_trace_block_Ok [OF Cons.prems(1) step]
  show ?case
  proof (cases r)
    case (ER_Continue b)
    have C: "lc_verifier (pr_client p1) = verify_update_header X" using facts(1) Cons.prems(1) by simp
    have "examine_loop X target b trace p1 = Some (p', Ok (tr, traced))" using rest ER_Continue by simp
    from Cons.IH [OF C _ this, of c] facts(1) facts(2) [OF ER_Continue] obtain before agreed after b'
      where "pr_client p' = pr_client p1" "c # trace = before @ agreed # traced # after" "lb_hash X b' = lb_hash X agreed"
        "source_answer (pr_client p) target agreed b'" "divergence_point X (pr_client p) target b' tr traced" by auto
    then show ?thesis using facts(1) by (metis append_Cons)
  next
    case (ER_Divergence tr' c')
    then have "p' = p1" "tr' = tr" "c' = traced" using rest by auto
    with facts(1) facts(3) [OF ER_Divergence] Cons.prems(2) show ?thesis by (metis append_Nil)
  qed
qed simp

lemma examine_Ok:
  assumes "lc_verifier (pr_client p) = verify_update_header X"
    and "examine_conflicting_header_against_trace X trace target p = Some (p', Ok (tr, traced))"
  shows "pr_client p' = pr_client p \<and> (\<exists>before agreed after b. trace = before @ agreed # traced # after
    \<and> lb_hash X b = lb_hash X agreed \<and> source_answer (pr_client p) target agreed b
    \<and> divergence_point X (pr_client p) target b tr traced)"
proof -
  from assms(2) obtain first rest p1 prev where trace: "trace = first # rest"
    and first: "check_trusted_block X first target p = (p1, Ok prev)"
    and loop: "examine_loop X target prev rest p1 = Some (p', Ok (tr, traced))"
    by (cases trace) (auto simp: examine_conflicting_header_against_trace_def obind_Ok split: if_splits)
  have C: "pr_client p1 = pr_client p" by (rule check_trusted_block_Ok(2) [OF first])
  from examine_loop_Ok [OF _ _ loop, unfolded C, OF assms(1), of first] check_trusted_block_Ok(1,3) [OF first]
  show ?thesis unfolding trace by blast
qed

section \<open>Comparison with a witness\<close>

text \<open>The branch for a witness that lags behind is never taken: a fetch fails with I/O errors only.\<close>

lemma check_against_witness_eq:
  "check_against_witness sh drift lag w =
     (case provider_fetch_light_block (hdr_height (sh_header sh)) w of
        (w', Ok b) \<Rightarrow> (w', Ok b) | (w', Err e) \<Rightarrow> (w', Err BadWitness) | (w', Panic) \<Rightarrow> (w', Panic))"
proof (cases "provider_fetch_light_block (hdr_height (sh_header sh)) w")
  case (Pair w' r)
  then show ?thesis by (cases r) (auto simp: check_against_witness_def dest: provider_fetch_Err)
qed

lemma compare_eq:
  "compare_new_header_with_witness X sh drift lag w =
     (case provider_fetch_light_block (hdr_height (sh_header sh)) w of
        (w', Ok b) \<Rightarrow> (w', if lb_hash X b = header_hash X (sh_header sh) then Ok () else Err (ConflictingHeaders b))
      | (w', Err e) \<Rightarrow> (w', Err BadWitness) | (w', Panic) \<Rightarrow> (w', Panic))"
  by (auto simp: compare_new_header_with_witness_def sbind_def check_against_witness_eq split: prod.splits result.splits)

section \<open>Returning\<close>

lemma returns_verify_skipping: "returns (\<lambda>p. production X (pr_client p)) (verify_skipping X a b)"
  unfolding returns_def using verify_skipping_returns by metis

lemma preserves_source_block [intro]: "preserves (\<lambda>p. production X (pr_client p)) (source_block_for a b)"
  unfolding preserves_def by (metis source_block_for_client surjective_pairing)

lemma preserves_check_trusted [intro]: "preserves (\<lambda>p. production X (pr_client p)) (check_trusted_block Y a b)"
  unfolding check_trusted_block_def check_time_order_def by (auto intro!: preserves_sbind)

lemma returns_examine_rest: "returns (\<lambda>p. production X (pr_client p)) (examine_trace_block_rest X a b c)"
  unfolding examine_trace_block_rest_def by (intro returns_obind returns_olift returns_verify_skipping) auto

lemma returns_examine_block:
  "returns (\<lambda>p. production X (pr_client p)) (examine_conflicting_header_against_trace_block X a b c)"
  unfolding examine_conflicting_header_against_trace_block_def check_time_order_def
  by (auto intro!: returns_obind returns_olift returns_verify_skipping returns_examine_rest)

lemma returns_examine_loop: "returns (\<lambda>p. production X (pr_client p)) (examine_loop X target prev trace)"
  by (induction trace arbitrary: prev)
    (auto intro!: returns_obind returns_examine_block split: examination_result.splits)

lemma returns_examine:
  "returns (\<lambda>p. production X (pr_client p)) (examine_conflicting_header_against_trace X trace target)"
  unfolding examine_conflicting_header_against_trace_def
  by (auto intro!: returns_obind returns_olift returns_examine_loop)

definition both_production :: "externals \<Rightarrow> providers \<Rightarrow> bool" where
  "both_production X ps \<longleftrightarrow> production X (pr_client (snd ps)) \<and> (\<forall>p. fst ps = Some p \<longrightarrow> production X (pr_client p))"

lemma returns_on_witness:
  "returns (\<lambda>p. production X (pr_client p)) m \<Longrightarrow> returns (both_production X) (on_witness m)"
  by (fastforce simp: returns_def both_production_def on_witness_def)

lemma returns_on_primary:
  "returns (\<lambda>p. production X (pr_client p)) m \<Longrightarrow> production X (pr_client p) \<Longrightarrow> returns (both_production X) (on_primary p m)"
  by (fastforce simp: returns_def both_production_def on_primary_def)

lemma returns_gather_against_witness: "returns (both_production X) (gather_against_witness X tr b e)"
  unfolding returns_def
proof (intro allI impI)
  fix ps assume ps: "both_production X ps"
  show "\<exists>ps' r. gather_against_witness X tr b e ps = Some (ps', r) \<and> both_production X ps'"
  proof (cases "fst ps")
    case None
    with ps show ?thesis by (simp add: gather_against_witness_def)
  next
    case (Some p)
    with ps have "production X (pr_client p)" by (simp add: both_production_def)
    then have "returns (both_production X) (obind (on_primary p (examine_conflicting_header_against_trace X tr b))
        (\<lambda>(tr', c). obind (oresult (evidence_from_trace tr' c)) (\<lambda>f.
          oresult (Ok \<lparr>ge_witness_trace = tr, ge_against_primary = e, ge_against_witness = Some f\<rparr>))))"
      by (auto intro!: returns_obind returns_on_primary returns_examine)
    from this [unfolded returns_def, rule_format, OF ps] Some show ?thesis
      by (simp add: gather_against_witness_def)
  qed
qed

lemma returns_gather: "returns (both_production X) (gather_evidence_from_conflicting_headers X trace b)"
  unfolding gather_evidence_from_conflicting_headers_def
  by (auto intro!: returns_obind returns_on_witness returns_examine returns_gather_against_witness)

section \<open>Evidence\<close>

lemma signer_Some: "signer vs s = Some v \<longleftrightarrow> (\<exists>a. cs_validator_address s = Some a \<and> set_validator vs a = Some v)"
  by (auto simp: signer_def bind_eq_Some_conv)

lemma signer_SomeD:
  "signer vs s = Some v \<Longrightarrow> v \<in> set (vs_validators vs) \<and> cs_validator_address s = Some (info_address v) \<and> \<not> cs_is_absent s"
  by (cases s) (auto simp: signer_Some cs_is_absent_def dest: set_validator_SomeD)

lemma set_find_lunatic:
  "set (find_lunatic_validators c common) =
     {v. \<exists>s \<in> set (cmt_signatures (sh_commit (cb_signed_header c))). cs_is_commit s \<and> signer common s = Some v}"
  by (auto simp: find_lunatic_validators_def List.map_filter_def) force

lemma ex_less_Suc: "(\<exists>i < Suc n. P i) \<longleftrightarrow> P 0 \<or> (\<exists>i < n. P (Suc i))"
  using Ex_less_Suc2 [of n P] by blast

lemma equivocating_loop_Ok:
  "equivocating_loop vs sigs_a sigs_b = (Ok found :: ('e, info list) result) \<Longrightarrow>
     set found = {v. \<exists>i < length sigs_a. i < length sigs_b \<and> \<not> cs_is_nil (sigs_b ! i) \<and> signer vs (sigs_a ! i) = Some v}"
proof (induction vs sigs_a sigs_b arbitrary: found rule: equivocating_loop.induct)
  case (2 vs a as bs)
  show ?case
  proof (cases "cs_is_absent a")
    case True
    then have a: "signer vs a = None" using signer_SomeD [of vs a] by (cases "signer vs a") auto
    with True 2 show ?thesis by (cases bs) (auto simp: ex_less_Suc)
  next
    case False
    obtain b bs' where b: "bs = b # bs'" using 2(3) False by (cases bs) auto
    obtain rest where rest: "equivocating_loop vs as bs' = (Ok rest :: ('e, info list) result)"
      and found: "found = (if cs_is_nil b then rest else case signer vs a of Some v \<Rightarrow> v # rest | None \<Rightarrow> rest)"
      using 2(3) False unfolding b by (auto simp: result_simps simp del: if_split)
    from 2(2) [OF False b rest] have "set rest =
        {v. \<exists>i < length as. i < length bs' \<and> \<not> cs_is_nil (bs' ! i) \<and> signer vs (as ! i) = Some v}" .
    then show ?thesis by (auto simp: found b ex_less_Suc split: option.splits)
  qed
qed simp

lemma equivocating_loop_Panic:
  "equivocating_loop vs sigs_a sigs_b = Panic \<longleftrightarrow>
     (\<exists>i < length sigs_a. length sigs_b \<le> i \<and> \<not> cs_is_absent (sigs_a ! i))"
proof (induction vs sigs_a sigs_b rule: equivocating_loop.induct)
  case (2 vs a as bs)
  show ?case
  proof (cases "cs_is_absent a")
    case True
    with 2(1) show ?thesis by (cases bs) (auto simp: ex_less_Suc)
  next
    case False
    with 2(2) show ?thesis by (cases bs) (auto simp: ex_less_Suc result_simps)
  qed
qed simp

lemma equivocating_loop_neq_Err [simp]: "equivocating_loop vs sigs_a sigs_b \<noteq> Err e"
  by (induction vs sigs_a sigs_b rule: equivocating_loop.induct) (auto simp: result_simps split: list.splits)

text \<open>Whom evidence accuses.\<close>

definition accused :: "conflicting_block \<Rightarrow> val_set \<Rightarrow> signed_header \<Rightarrow> info set" where
  "accused conflicted common trusted =
     (let sigs = cmt_signatures (sh_commit (cb_signed_header conflicted)); sigs' = cmt_signatures (sh_commit trusted) in
      if conflicting_header_is_invalid (sh_header (cb_signed_header conflicted)) (sh_header trusted)
      then {v. \<exists>s \<in> set sigs. cs_is_commit s \<and> signer common s = Some v}
      else if cmt_round (sh_commit trusted) = cmt_round (sh_commit (cb_signed_header conflicted))
      then {v. \<exists>i < length sigs. i < length sigs' \<and> \<not> cs_is_nil (sigs' ! i)
            \<and> signer (cb_validator_set conflicted) (sigs ! i) = Some v}
      else {})"

lemma find_equivocating_Ok:
  assumes "find_equivocating_validators c t = (Ok found :: ('e, info list) result)"
  shows "sorted (map voting_power_then_address found)"
    and "set found = {v. \<exists>i < length (cmt_signatures (sh_commit (cb_signed_header c))).
      i < length (cmt_signatures (sh_commit t)) \<and> \<not> cs_is_nil (cmt_signatures (sh_commit t) ! i)
      \<and> signer (cb_validator_set c) (cmt_signatures (sh_commit (cb_signed_header c)) ! i) = Some v}"
proof -
  from assms obtain vs where vs: "equivocating_loop (cb_validator_set c) (cmt_signatures (sh_commit (cb_signed_header c)))
      (cmt_signatures (sh_commit t)) = (Ok vs :: ('e, info list) result)" "found = sort_key voting_power_then_address vs"
    by (auto simp: find_equivocating_validators_def result_simps)
  then show "sorted (map voting_power_then_address found)" by simp
  from vs(2) have "set found = set vs" by simp
  then show "set found = {v. \<exists>i < length (cmt_signatures (sh_commit (cb_signed_header c))).
      i < length (cmt_signatures (sh_commit t)) \<and> \<not> cs_is_nil (cmt_signatures (sh_commit t) ! i)
      \<and> signer (cb_validator_set c) (cmt_signatures (sh_commit (cb_signed_header c)) ! i) = Some v}"
    unfolding equivocating_loop_Ok [OF vs(1)] .
qed

lemma get_byzantine_Ok:
  assumes "get_byzantine_validators c common t = (Ok found :: ('e, info list) result)"
  shows "sorted (map voting_power_then_address found)" "set found = accused c common t"
proof -
  consider (lunatic) "conflicting_header_is_invalid (sh_header (cb_signed_header c)) (sh_header t)" "found = find_lunatic_validators c common"
    | (equivocation) "\<not> conflicting_header_is_invalid (sh_header (cb_signed_header c)) (sh_header t)"
        "cmt_round (sh_commit t) = cmt_round (sh_commit (cb_signed_header c))"
        "find_equivocating_validators c t = (Ok found :: ('e, info list) result)"
    | (amnesia) "\<not> conflicting_header_is_invalid (sh_header (cb_signed_header c)) (sh_header t)"
        "cmt_round (sh_commit t) \<noteq> cmt_round (sh_commit (cb_signed_header c))" "found = []"
    using assms unfolding get_byzantine_validators_def by (auto split: if_splits)
  then have "sorted (map voting_power_then_address found) \<and> set found = accused c common t"
  proof cases
    case lunatic
    then show ?thesis using set_find_lunatic [of c common] by (simp add: find_lunatic_validators_def accused_def Let_def)
  next
    case equivocation
    then show ?thesis using find_equivocating_Ok [OF equivocation(3)] by (simp add: accused_def Let_def)
  next
    case amnesia
    then show ?thesis by (simp add: accused_def Let_def)
  qed
  then show "sorted (map voting_power_then_address found)" "set found = accused c common t" by simp_all
qed

lemma sort_key_eq_Nil [simp]: "sort_key f xs = [] \<longleftrightarrow> xs = []"
  by (metis set_empty set_sort)

lemma make_evidence_Panic:
  "make_evidence conflicted trusted common = Panic \<longleftrightarrow>
     \<not> conflicting_header_is_invalid (sh_header (lb_signed_header conflicted)) (sh_header (lb_signed_header trusted))
     \<and> cmt_round (sh_commit (lb_signed_header trusted)) = cmt_round (sh_commit (lb_signed_header conflicted))
     \<and> (\<exists>i < length (cmt_signatures (sh_commit (lb_signed_header conflicted))).
          length (cmt_signatures (sh_commit (lb_signed_header trusted))) \<le> i
          \<and> \<not> cs_is_absent (cmt_signatures (sh_commit (lb_signed_header conflicted)) ! i))"
  by (simp add: make_evidence_def get_byzantine_validators_def find_equivocating_validators_def Let_def
      and_then_eq_Panic equivocating_loop_Panic)

end
