(* ===== verification/Detector_Properties.thy ===== *)
theory Detector_Properties
  imports Client_Properties Detector_Lemmas
begin

text \<open>
  The properties of the \<open>light-client-detector\<close> crate: when it reports agreement, what it proves when
  it reports a divergence, that it returns, and whom its evidence accuses.
\<close>

section \<open>A forged block and a run of the detector\<close>

text \<open>A block of height 5 with another application hash, and a provider of the sample chain.\<close>

definition sample_fork :: light_block where
  "sample_fork = (sample_block 5)\<lparr>lb_signed_header := (sample_signed_header 5)\<lparr>sh_header := (sample_header 5)\<lparr>hdr_app_hash := [8]\<rparr>\<rparr>\<rparr>"

definition sample_provider :: provider where
  "sample_provider = provider_new ''test'' \<lparr>in_light_client = sample_client, in_state = sample_state\<rparr>"

definition sample_pair :: "status \<Rightarrow> memory_store" where
  "sample_pair k = [(1, \<lparr>se_light_block = sample_block 1, se_status = Trusted\<rparr>), (5, \<lparr>se_light_block = sample_block 5, se_status = k\<rparr>)]"

lemma sample_pair_highest:
  "highest_trusted_or_verified_before memory_ops (sample_pair Unverified) 5 = Some (sample_block 1)"
  "highest_trusted_or_verified_before memory_ops (sample_pair Verified) 5 = Some (sample_block 5)"
  "highest_trusted_or_verified memory_ops (sample_pair Verified) = Some (sample_block 5)"
  by (simp_all add: highest_trusted_or_verified_before_def highest_trusted_or_verified_def memory_ops_def
      memory_highest_before_def memory_highest_def cmp_max_by_key_def sample_pair_def)

lemma sample_pair_get:
  "get_non_failed memory_ops (sample_pair Unverified) 5 = Some (sample_block 5, Unverified)"
  "get_trusted_or_verified memory_ops (sample_pair Unverified) 5 = None"
  "get_trusted_or_verified memory_ops (sample_pair Verified) 5 = Some (sample_block 5)"
  "get_trusted_or_verified memory_ops (sample_pair Verified) 1 = Some (sample_block 1)"
  by (simp_all add: get_non_failed_def get_trusted_or_verified_def memory_ops_simps memory_get_def sample_pair_def)

lemma sample_pair_update: "memory_update (sample_pair Unverified) (sample_block 5) (most_trusted Verified Unverified) = sample_pair Verified"
  by (simp add: sample_pair_def memory_update_def memory_insert_def most_trusted_def max_def less_eq_status_def)

lemma sample_pair_schedule: "schedule basic_bisecting_schedule memory_ops (sample_pair Verified) 5 5 = Ok 5"
  by (simp add: schedule_def basic_bisecting_schedule_def sample_pair_highest valid_schedule_def requires_def ensures_def)

lemma sample_step:
  assumes "st_light_store st = sample_pair Unverified" "st_verification_trace st = Map.empty"
  shows "forward_step sample_externals memory_ops sample_client 5 5 st =
    (st\<lparr>st_light_store := sample_pair Verified, st_verification_trace := [5 \<mapsto> [5, 1]], st_ticks := st_ticks st + 1\<rparr>, Ok (Continue 5))"
  using assms
  by (simp add: forward_step_def sbind_def clock_now_def sample_pair_highest sample_within_period modify_def trace_block_def
      requires_def get_or_fetch_block_def sample_pair_get sample_verified record_verdict_def store_update_def hs_insert_def
      memory_ops_simps sample_pair_update sample_pair_schedule)

lemma sample_last_step:
  assumes "st_light_store st = sample_pair Verified" "st_verification_trace st = [5 \<mapsto> [5, 1]]"
  shows "forward_step sample_externals memory_ops sample_client 5 5 st = (st\<lparr>st_ticks := st_ticks st + 1\<rparr>, Ok (Finished (sample_block 5)))"
  using assms
  by (simp add: forward_step_def sbind_def clock_now_def sample_pair_highest sample_within_period modify_def trace_block_def
      requires_def hs_insert_def)

lemma sample_pair_contains: "trusted_store_contains_block_at_target_height memory_ops (sample_pair Verified) 5"
  by (simp add: trusted_store_contains_block_at_target_height_def memory_ops_simps memory_get_def sample_pair_def)

lemma sample_skipping:
  assumes "pr_client p = sample_client"
  shows "verify_skipping sample_externals (sample_block 1) (sample_block 5) p =
    Some (set_pr_state ((pr_state p)\<lparr>st_ticks := st_ticks (pr_state p) + 2\<rparr>) p, Ok [sample_block 1, sample_block 5])"
proof -
  define st where "st = fresh_state (sample_pair Unverified) p"
  define st' where "st' = st\<lparr>st_light_store := sample_pair Verified, st_verification_trace := [5 \<mapsto> [5, 1]],
    st_ticks := st_ticks st + 2\<rparr>"
  have ins: "memory_insert (memory_insert memory_new (sample_block 1) Trusted) (sample_block 5) Unverified = sample_pair Unverified"
    by (simp add: sample_pair_def memory_insert_def memory_new_def)
  have st: "st_light_store st = sample_pair Unverified" "st_verification_trace st = Map.empty"
    by (simp_all add: st_def fresh_state_def state_new_def)
  have "forward_loop sample_externals memory_ops sample_client 5 5 st = Some (st', Ok (sample_block 5))"
    by (subst forward_loop.simps, subst forward_loop.simps) (simp add: sample_step [OF st] sample_last_step st'_def)
  then have run: "verify_to_target sample_externals memory_ops sample_client 5 st = Some (st', Ok (sample_block 5))"
    using sample_pair_contains
    by (simp add: verify_to_target_def verify_to_target_with_def st sample_pair_get sample_pair_highest verify_forward_def
        ensures_def st'_def)
  have "get_trace memory_ops st' 5 = [sample_block 1, sample_block 5]"
    by (simp add: get_trace_def List.map_filter_def st'_def sample_pair_get) (simp add: word_le_nat_alt)
  moreover have "keep_counters st' p = set_pr_state ((pr_state p)\<lparr>st_ticks := st_ticks (pr_state p) + 2\<rparr>) p"
    by (simp add: keep_counters_def st'_def st_def fresh_state_def state_new_def)
  ultimately show ?thesis
    using run by (simp add: verify_skipping_def provider_verify_to_height_with_state_def assms Let_def ins st_def trace_new_def)
qed

text \<open>The detector on a trace that ends in the forged block.\<close>

lemma sample_fetch:
  assumes "pr_client p = sample_client"
  shows "provider_fetch_light_block h p = (set_pr_state ((pr_state p)\<lparr>st_fetches := st_fetches (pr_state p) + 1\<rparr>) p, Ok (sample_block h))"
  by (simp add: provider_fetch_light_block_eq assms Let_def requires_def)

lemma sample_fork_simps [simp]:
  "lb_height sample_fork = 5" "lb_hash sample_externals sample_fork = Sha256 (replicate 32 8)"
  "lb_hash sample_externals (sample_block h) = Sha256 (replicate 32 7)"
  "hdr_height (sh_header (lb_signed_header sample_fork)) = 5"
  "header_hash sample_externals (sh_header (lb_signed_header sample_fork)) = Sha256 (replicate 32 8)"
  by (simp_all add: sample_fork_def lb_hash_def sample_simps)

lemma sample_divergence:
  "\<exists>ps' d. detect_divergence sample_externals [sample_block 1, sample_fork] 0 0 (None, sample_provider) = Some (ps', Ok (Some d))"
proof -
  have C: "pr_client sample_provider = sample_client" by (simp add: sample_provider_def provider_new_def)
  have ev: "\<exists>ev. evidence_from_trace [sample_block 1, sample_block 5] sample_fork = (Ok ev :: (dt_error, _) result)"
    by (simp add: evidence_from_trace_def trace_last_def make_evidence_def get_byzantine_validators_def Let_def
        conflicting_header_is_invalid_def sample_fork_def sample_simps)
  then obtain ev where ev: "evidence_from_trace [sample_block 1, sample_block 5] sample_fork = (Ok ev :: (dt_error, _) result)" by blast
  show ?thesis
    by (simp add: detect_divergence_def obind_def trace_new_def trace_last_def compare_eq sample_fetch C
        gather_evidence_from_conflicting_headers_def on_witness_def examine_conflicting_header_against_trace_def
        check_trusted_block_def source_block_for_def sbind_def examine_conflicting_header_against_trace_block_def
        examine_trace_block_rest_def sample_skipping ev gather_against_witness_def del: sample_header_hash)
qed

section \<open>Detection\<close>

text \<open>
  C5. When the detector reports a divergence, the challenging block is the witness's answer to the first
  request, for the height of the last block of the primary's trace, and has another header than that
  block. The evidence against the primary is a block of that trace at which the witness disagrees. The
  block before it in the trace has the header of what the witness has at that height: the challenging
  block, if it has that height, and else a block the witness answered with when it was asked for that
  height. From this block the witness's client verified every block of the witness trace, in the order of
  heights, up to the height of the challenging block where the trace goes beyond it, or up to what the
  witness has at the height of the accused block, which has another header.
\<close>

theorem detect_divergence_evidence:
  assumes "lc_verifier (pr_client witness) = verify_update_header X"
    and "detect_divergence X trace drift lag (primary, witness) = Some (ps, Ok (Some d))"
  shows "lc_io (pr_client witness) (st_fetches (pr_state witness)) (At (lb_height (last (sort_key lb_height trace))))
      = Ok (dv_challenging_block d)
    \<and> lb_hash X (dv_challenging_block d) \<noteq> lb_hash X (last (sort_key lb_height trace))
    \<and> (\<exists>before agreed traced after b. sort_key lb_height trace = before @ agreed # traced # after
      \<and> lb_hash X b = lb_hash X agreed \<and> source_answer (pr_client witness) (dv_challenging_block d) agreed b
      \<and> divergence_point X (pr_client witness) (dv_challenging_block d) b (ge_witness_trace (dv_evidence d)) traced
      \<and> lae_conflicting_block (ge_against_primary (dv_evidence d))
        = \<lparr>cb_signed_header = lb_signed_header traced, cb_validator_set = lb_validators traced\<rparr>)"
proof -
  let ?tr = "sort_key lb_height trace"
  obtain w b0 ev where fetch: "provider_fetch_light_block (lb_height (last ?tr)) witness = (w, Ok b0)"
    and conflict: "lb_hash X b0 \<noteq> lb_hash X (last ?tr)"
    and gather: "gather_evidence_from_conflicting_headers X ?tr b0 (primary, w) = Some (ps, Ok ev)"
    and d: "d = \<lparr>dv_evidence = ev, dv_challenging_block = b0\<rparr>"
    using assms(2)
    by (auto simp: detect_divergence_def obind_Ok trace_new_def trace_last_def compare_eq lb_hash_def lb_height_def
        split: if_splits prod.splits result.splits compare_error.splits)
  have C: "pr_client w = pr_client witness" by (rule provider_fetch_client [OF fetch])
  from gather obtain w' tr traced ev' where ex: "examine_conflicting_header_against_trace X ?tr b0 w = Some (w', Ok (tr, traced))"
    and ev': "evidence_from_trace tr traced = (Ok ev' :: (dt_error, _) result)"
    and rest: "gather_against_witness X tr traced ev' (primary, w') = Some (ps, Ok ev)"
    by (auto simp: gather_evidence_from_conflicting_headers_def obind_Ok on_witness_def)
  from rest have ev: "ge_witness_trace ev = tr" "ge_against_primary ev = ev'"
    by (auto simp: gather_against_witness_def obind_Ok split: option.splits)
  have "lae_conflicting_block ev' = \<lparr>cb_signed_header = lb_signed_header traced, cb_validator_set = lb_validators traced\<rparr>"
    using ev' by (auto simp: evidence_from_trace_def make_evidence_def result_simps Let_def)
  then show ?thesis
    using provider_fetch_Ok [OF fetch] conflict d ev examine_Ok [OF _ ex, unfolded C, OF assms(1)] by fastforce
qed

theorem detect_divergence_evidence_witness:
  "\<exists>ps d. detect_divergence sample_externals [sample_block 1, sample_fork] 0 0 (None, sample_provider) = Some (ps, Ok (Some d))
     \<and> dv_challenging_block d = sample_block 5 \<and> lb_hash sample_externals (dv_challenging_block d) \<noteq> lb_hash sample_externals sample_fork"
proof -
  obtain ps d where run: "detect_divergence sample_externals [sample_block 1, sample_fork] 0 0 (None, sample_provider) = Some (ps, Ok (Some d))"
    using sample_divergence by blast
  have "lc_verifier (pr_client sample_provider) = verify_update_header sample_externals"
    and "lc_io (pr_client sample_provider) n (At 5) = Ok (sample_block 5)" for n
    by (simp_all add: sample_provider_def provider_new_def)
  with detect_divergence_evidence [OF _ run] run show ?thesis by (intro exI [of _ ps] exI [of _ d]) simp
qed

text \<open>
  C25. The detector reports agreement exactly if the trace has two blocks and the witness answers the
  request for the height of the last with a block from its peer that has the same header hash. It
  then changes nothing but the count of requests. A witness that fails to answer, for whatever reason,
  is reported as bad at once: the code that waits for a lagging witness, with its check for a primary
  that forges blocks in the future, is dead.
\<close>

theorem detect_divergence_agreement:
  "(detect_divergence X trace drift lag (primary, witness) = Some (ps, Ok None) \<longleftrightarrow>
      2 \<le> length trace
      \<and> (\<exists>b. provider_fetch_light_block (lb_height (last (sort_key lb_height trace))) witness = (snd ps, Ok b)
           \<and> lb_hash X b = lb_hash X (last (sort_key lb_height trace)))
      \<and> fst ps = primary)
   \<and> (2 \<le> length trace
      \<and> (\<exists>e. provider_fetch_light_block (lb_height (last (sort_key lb_height trace))) witness = (snd ps, Err e))
      \<and> fst ps = primary
      \<longrightarrow> detect_divergence X trace drift lag (primary, witness) = Some (ps, Err DE_BadWitness))"
  by (cases ps)
    (auto simp: detect_divergence_def obind_def trace_new_def trace_last_def compare_eq lb_hash_def lb_height_def
      split: if_splits prod.splits result.splits option.splits)

theorem detect_divergence_agreement_witness:
  "\<exists>w. detect_divergence sample_externals [sample_block 1, sample_fork] 0 0
     (None, provider_new ''test'' \<lparr>in_light_client = sample_client\<lparr>lc_io := \<lambda>_ _. Err (IO_Timeout 5)\<rparr>, in_state = sample_state\<rparr>) = Some ((None, w), Err DE_BadWitness)"
proof -
  let ?p = "provider_new ''test'' \<lparr>in_light_client = sample_client\<lparr>lc_io := \<lambda>_ _. Err (IO_Timeout 5)\<rparr>, in_state = sample_state\<rparr>"
  obtain w e where "provider_fetch_light_block (lb_height (last (sort_key lb_height [sample_block 1, sample_fork]))) ?p = (w, Err e)"
    by (simp add: provider_fetch_light_block_eq provider_new_def Let_def requires_def)
  then show ?thesis
    using detect_divergence_agreement [of sample_externals "[sample_block 1, sample_fork]" 0 0 None ?p "(None, w)"]
    by (intro exI [of _ w]) simp
qed

text \<open>
  C8. The detector returns whatever the two providers answer, for production clients.
\<close>

theorem detect_divergence_terminates:
  assumes "both_production X (primary, witness)"
  shows "\<exists>ps r. detect_divergence X trace drift lag (primary, witness) = Some (ps, r)"
proof (cases "length trace < 2")
  case True
  then show ?thesis by (simp add: detect_divergence_def obind_def trace_new_def)
next
  case False
  define tr where "tr = sort_key lb_height trace"
  then have tr: "trace_new trace = Ok tr" "trace_last tr = (Ok (last tr) :: (dt_error, _) result)"
    using False by (auto simp: trace_new_def trace_last_def)
  obtain w r where cmp: "compare_new_header_with_witness X (lb_signed_header (last tr)) drift lag witness = (w, r)"
    by fastforce
  have "pr_client w = pr_client witness"
    using cmp provider_fetch_client [of _ witness] by (auto simp: compare_eq split: prod.splits result.splits)
  then have "both_production X (primary, w)" using assms by (simp add: both_production_def)
  then have gather: "\<exists>ps r. gather_evidence_from_conflicting_headers X tr b (primary, w) = Some (ps, r)" for b
    using returns_gather [of X tr b] unfolding returns_def by blast
  show ?thesis
  proof (cases "\<exists>b. r = Err (ConflictingHeaders b)")
    case True
    then obtain b where b: "r = Err (ConflictingHeaders b)" by blast
    obtain ps r' where g: "gather_evidence_from_conflicting_headers X tr b (primary, w) = Some (ps, r')" using gather by blast
    then show ?thesis by (cases r') (simp_all add: detect_divergence_def obind_def tr cmp b)
  next
    case False
    then show ?thesis
      by (auto simp: detect_divergence_def obind_def tr cmp split: result.splits compare_error.splits)
  qed
qed

theorem detect_divergence_terminates_witness:
  "\<exists>ps r. detect_divergence sample_externals [sample_block 1, sample_fork] 0 0 (Some sample_provider, sample_provider) = Some (ps, r)"
  by (rule detect_divergence_terminates)
    (simp add: both_production_def production_def sample_provider_def provider_new_def)

section \<open>Evidence\<close>

text \<open>
  The conflicting commit has an entry that is not absent at a position the trusted commit does not have,
  where the code compares the two.
\<close>

definition entry_out_of_range :: "light_block \<Rightarrow> light_block \<Rightarrow> bool" where
  "entry_out_of_range conflicted trusted \<longleftrightarrow>
     \<not> conflicting_header_is_invalid (sh_header (lb_signed_header conflicted)) (sh_header (lb_signed_header trusted))
     \<and> cmt_round (sh_commit (lb_signed_header trusted)) = cmt_round (sh_commit (lb_signed_header conflicted))
     \<and> (\<exists>i < length (cmt_signatures (sh_commit (lb_signed_header conflicted))).
          length (cmt_signatures (sh_commit (lb_signed_header trusted))) \<le> i
          \<and> \<not> cs_is_absent (cmt_signatures (sh_commit (lb_signed_header conflicted)) ! i))"

text \<open>
  C24. Whom evidence accuses. If a field of the conflicting header that follows from the previous
  state differs, the common validators whose signature for the block the conflicting commit
  contains; with equal rounds, the validators of the conflicting block with an entry in its commit that
  is not absent and whose position in the trusted commit is not a vote for nil; else nobody. So
  validators that are absent from the trusted commit are accused too, although the comment in the code
  speaks of those that voted in both headers. The accused come in the
  order of power and address. Making evidence never fails otherwise, and it panics exactly if the
  headers agree on those fields, the rounds are equal, and the conflicting commit has an entry that is
  not absent beyond the end of the trusted commit.
\<close>

theorem make_evidence_accuses:
  "case make_evidence conflicted trusted common of
     Ok ev \<Rightarrow> lae_conflicting_block ev = \<lparr>cb_signed_header = lb_signed_header conflicted, cb_validator_set = lb_validators conflicted\<rparr>
       \<and> sorted (map voting_power_then_address (lae_byzantine_validators ev))
       \<and> set (lae_byzantine_validators ev) = accused (lae_conflicting_block ev) (lb_validators common) (lb_signed_header trusted)
       \<and> \<not> entry_out_of_range conflicted trusted
   | Err e \<Rightarrow> False
   | Panic \<Rightarrow> entry_out_of_range conflicted trusted"
proof (cases "make_evidence conflicted trusted common :: ('a, light_client_attack_evidence) result")
  case ok: (Ok ev)
  define c where "c = \<lparr>cb_signed_header = lb_signed_header conflicted, cb_validator_set = lb_validators conflicted\<rparr>"
  from ok obtain found where found: "get_byzantine_validators c (lb_validators common) (lb_signed_header trusted)
      = (Ok found :: ('a, info list) result)" "lae_byzantine_validators ev = found" "lae_conflicting_block ev = c"
    by (auto simp: make_evidence_def Let_def and_then_eq_Ok c_def)
  moreover have "\<not> entry_out_of_range conflicted trusted"
    using ok make_evidence_Panic [of conflicted trusted common, where 'a = 'a] by (simp add: entry_out_of_range_def)
  ultimately show ?thesis using get_byzantine_Ok [OF found(1)] by (simp add: ok c_def)
next
  case (Err e)
  then show ?thesis
    by (auto simp: make_evidence_def get_byzantine_validators_def find_equivocating_validators_def Let_def result_simps split: if_splits)
next
  case Panic
  then show ?thesis using make_evidence_Panic [of conflicted trusted common, where 'a = 'a] by (simp add: entry_out_of_range_def)
qed

theorem make_evidence_accuses_witness:
  "\<exists>ev. make_evidence sample_fork (sample_block 5) (sample_block 1) = (Ok ev :: (dt_error, _) result)
     \<and> set (lae_byzantine_validators ev) = {sample_info 1 20}"
proof -
  let ?c = "\<lparr>cb_signed_header = lb_signed_header sample_fork, cb_validator_set = lb_validators sample_fork\<rparr>"
  obtain ev where "make_evidence sample_fork (sample_block 5) (sample_block 1) = (Ok ev :: (dt_error, _) result)"
    by (simp add: make_evidence_def get_byzantine_validators_def Let_def conflicting_header_is_invalid_def sample_fork_def sample_simps)
  moreover have "accused ?c (lb_validators (sample_block 1)) (lb_signed_header (sample_block 5)) = {sample_info 1 20}"
    by (auto simp: accused_def Let_def conflicting_header_is_invalid_def sample_fork_def sample_simps signer_def set_validator_def)
  ultimately show ?thesis
    using make_evidence_accuses [of sample_fork "sample_block 1" "sample_block 5", where 'a = dt_error] by (intro exI [of _ ev]) simp
qed

definition sample_unsigned :: light_block where
  "sample_unsigned = (sample_block 5)\<lparr>lb_signed_header := (sample_signed_header 5)\<lparr>sh_commit := (sample_commit 5)\<lparr>cmt_signatures :=
     [BlockIdFlagAbsent, BlockIdFlagAbsent]\<rparr>\<rparr>\<rparr>"

text \<open>
  A validator that is absent from the trusted commit is accused of having signed both: equivocation
  is read off entries of the trusted commit that are not votes for nil, and an absent entry is not
  one. Here the trusted commit holds no vote at all.
\<close>

theorem equivocation_accuses_absent:
  "\<exists>ev. make_evidence (sample_block 5) sample_unsigned (sample_block 1) = (Ok ev :: (dt_error, _) result)
     \<and> list_all cs_is_absent (cmt_signatures (sh_commit (lb_signed_header sample_unsigned)))
     \<and> lae_byzantine_validators ev = [sample_info 1 20]"
  by (simp add: make_evidence_def get_byzantine_validators_def find_equivocating_validators_def Let_def
      conflicting_header_is_invalid_def sample_unsigned_def sample_simps signer_def set_validator_def cs_is_absent_def)

end
