(* ===== verification/Data_Properties.thy ===== *)
theory Data_Properties
  imports Sample Tm_Evidence
begin

text \<open>
  The properties of the data types of the \<open>tendermint\<close> crate: messages and their domain types,
  validator sets, Merkle roots, fractions of power, dates and heights.
\<close>

section \<open>Messages\<close>

text \<open>
  C28. Signed headers and the wire: the values that come off the wire are exactly those of the
  invariant (hashes of 32 bytes, addresses of 20, heights and rounds in range, dates within the
  years 1 to 9999, a chain id that can be one), two different ones have different messages, and
  each survives the trip through its message.
\<close>

theorem signed_header_messages:
  assumes "time_crate X"
  shows "(signed_header_inv s \<longleftrightarrow> (\<exists>r. signed_header_try_from X r = Ok s))
    \<and> (signed_header_inv s \<longrightarrow> signed_header_try_from X (signed_header_into_raw s) = Ok s)
    \<and> (signed_header_inv s \<longrightarrow> signed_header_inv s' \<longrightarrow> signed_header_into_raw s = signed_header_into_raw s' \<longrightarrow> s = s')"
  using signed_header_codec.inv_iff [OF assms] signed_header_codec.roundtrip [OF assms] signed_header_codec.enc_inj [OF assms]
  by blast

lemma sample_chain_id: "chain_id_inv ''test''"
  by (simp add: chain_id_inv_def chain_id_max_length_def chain_id_char_def)

lemma sample_signed_header_inv: "signed_header_inv (sample_signed_header 3)"
  by (simp add: signed_header_inv_def header_inv_def commit_inv_def sample_simps optional_hash_inv_def block_id_inv_def
      part_set_header_inv_def fits_i64_def i64_max_def fits_i32_def i32_max_def sample_time_inv account_id_inv_def
      account_id_length_def signature_inv_def signature_length_def sample_chain_id sha256_hash_size_def)

theorem signed_header_messages_witness:
  "signed_header_try_from sample_externals (signed_header_into_raw (sample_signed_header 3)) = Ok (sample_signed_header 3)"
  using signed_header_messages [OF sample_externals_time] sample_signed_header_inv by blast

text \<open>
  The same for votes, whose message carries the signature and, since version 0.38, a vote
  extension.
\<close>

theorem vote_messages:
  assumes "time_crate X"
  shows "(vote_inv v \<longleftrightarrow> (\<exists>r. vote_try_from X r = Ok v))
    \<and> (vote_inv v \<longrightarrow> vote_try_from X (vote_into_raw v) = Ok v)"
  using vote_codec.inv_iff [OF assms] vote_codec.roundtrip [OF assms] by blast

definition sample_vote :: vote where
  "sample_vote = \<lparr>vote_vote_type = Precommit, vote_height = 3, vote_round = 0, vote_block_id = Some (cmt_block_id (sample_commit 3)),
     vote_timestamp = Some (sample_time 3), vote_validator_address = replicate 20 1, vote_validator_index = 0,
     vote_signature = Some (replicate 64 1), vote_extension = [], vote_extension_signature = None\<rparr>"

lemma sample_vote_inv: "vote_inv sample_vote"
  by (simp add: vote_inv_def sample_vote_def sample_commit_def sample_hash_def block_id_inv_def part_set_header_inv_def
      block_id_default_def optional_signature_inv_def signature_inv_def signature_length_def account_id_inv_def
      account_id_length_def fits_i64_def i64_max_def fits_i32_def i32_max_def sample_time_inv sha256_hash_size_def)

theorem vote_messages_witness:
  "vote_try_from sample_externals (vote_into_raw sample_vote) = Ok sample_vote"
  using vote_messages [OF sample_externals_time] sample_vote_inv by blast

text \<open>
  Validator sets and the wire: what comes off the wire has the exact total power, at most an
  eighth of the largest signed word, its validators in the order of power and address, and
  survives the trip through its message.
\<close>

theorem validator_set_messages:
  assumes "sec1_canonical X"
  shows "(wire_set_inv X s \<longleftrightarrow> (\<exists>r. val_set_try_from X r = Ok s))
    \<and> (wire_set_inv X s \<longrightarrow> val_set_try_from X (val_set_into_raw s) = Ok s \<and> set_inv s)"
  using set_codec.inv_iff [OF assms] set_codec.roundtrip [OF assms] by (auto simp: wire_set_inv_def)

lemma sample_set_wire: "wire_set_inv sample_externals sample_set"
  by (simp add: wire_set_inv_def wire_info_inv_def info_inv_def account_id_inv_def account_id_length_def fits_i64_def
      i64_max_def)

theorem validator_set_messages_witness:
  "val_set_try_from sample_externals (val_set_into_raw sample_set) = Ok sample_set"
  using validator_set_messages [of sample_externals] sample_set_wire by simp

text \<open>
  C29. Evidence of a light client attack survives the trip through its message; evidence of a duplicate
  vote does not: it comes back with the total power in place of the power of the validator.
\<close>

theorem evidence_messages:
  assumes "wire_law X"
  shows "(light_client_attack_evidence_inv X ev \<longrightarrow>
      evidence_try_from X (evidence_into_raw (LightClientAttack ev)) = Ok (LightClientAttack ev))
    \<and> (duplicate_vote_evidence_inv dv \<longrightarrow>
      evidence_try_from X (evidence_into_raw (DuplicateVote dv))
        = Ok (DuplicateVote (dv\<lparr>dve_validator_power := dve_total_voting_power dv\<rparr>)))"
  using attack_codec.roundtrip [OF assms] duplicate_vote_evidence_trip [of X dv] assms
  by (simp add: evidence_try_from_def wire_law_def)

definition sample_evidence :: duplicate_vote_evidence where
  "sample_evidence = \<lparr>dve_vote_a = sample_vote, dve_vote_b = sample_vote, dve_total_voting_power = 25, dve_validator_power = 20,
     dve_timestamp = sample_time 3\<rparr>"

theorem evidence_messages_witness:
  "\<exists>e. evidence_try_from sample_externals (evidence_into_raw (DuplicateVote sample_evidence)) = Ok e
     \<and> e \<noteq> DuplicateVote sample_evidence"
proof -
  have "duplicate_vote_evidence_inv sample_evidence"
    by (simp add: duplicate_vote_evidence_inv_def sample_evidence_def sample_vote_inv sample_time_inv fits_i64_def i64_max_def)
  moreover have "wire_law sample_externals" by (simp add: wire_law_def)
  ultimately show ?thesis using evidence_messages by (auto simp: sample_evidence_def)
qed

section \<open>Validator sets\<close>

text \<open>
  Every outcome of the constructor of validator sets: too much power, a negative or a wrong total,
  or the sorted set with the exact total.
\<close>

theorem try_from_parts_outcomes:
  "try_from_parts validators proposer claimed_total =
     (if (2 ^ 63 - 1) div 8 < powers validators then Err E_TotalVotingPowerOverflow
      else if claimed_total \<noteq> 0 \<and> sint claimed_total < 0 then Err E_NegativePower
      else if claimed_total \<noteq> 0 \<and> unat claimed_total \<noteq> powers validators then Err E_TotalVotingPowerMismatch
      else Ok \<lparr>vs_validators = sort_validators validators, vs_proposer = proposer,
               vs_total_voting_power = of_nat (powers validators)\<rparr>)"
  by (rule try_from_parts_eq)

section \<open>Merkle roots\<close>

text \<open>
  C27. The incremental computation of the root, which reuses one digest state, and the non-incremental
  one both give the hash of the tree of RFC 6962: split at the largest power of two below the
  length, leaves and inner nodes hashed with different prefixes.
\<close>

theorem merkle_roots_are_rfc6962:
  "(tree_hash X vs h \<longleftrightarrow> h = simple_hash_from_byte_vectors X vs)
   \<and> fst (hash_byte_vectors (non_incremental_merkle X) vs ()) = simple_hash_from_byte_vectors X vs
   \<and> snd (hash_byte_vectors (digest_merkle X) vs []) = []"
  by (simp add: simple_hash_iff_tree_hash non_incremental_eq digest_merkle_reset)

text \<open>
  C26. The root binds the list: two lists with the same root are equal, or the computation of the two
  roots hashed two different inputs to the same digest.
\<close>

theorem merkle_root_binds:
  assumes "sha256_length X" "simple_hash_from_byte_vectors X vs = simple_hash_from_byte_vectors X ws" "vs \<noteq> ws"
  shows "\<exists>a b. a \<in> set (hashed_inputs X vs) \<union> set (hashed_inputs X ws)
    \<and> b \<in> set (hashed_inputs X vs) \<union> set (hashed_inputs X ws) \<and> a \<noteq> b \<and> x_sha256 X a = x_sha256 X b"
proof -
  have "\<not> inj_on (x_sha256 X) (set (hashed_inputs X vs) \<union> set (hashed_inputs X ws))"
    using merkle_binding_aux [OF assms(1) _ assms(2)] assms(3) by blast
  then show ?thesis unfolding inj_on_def by blast
qed

theorem merkle_root_binds_witness:
  "\<exists>a b. a \<noteq> b \<and> x_sha256 sample_externals a = x_sha256 sample_externals b"
proof -
  have "simple_hash_from_byte_vectors sample_externals [[1]] = simple_hash_from_byte_vectors sample_externals [[2]]"
    by (simp add: sample_digest_def)
  moreover have "[[1 :: u8]] \<noteq> [[2]]" by simp
  ultimately show ?thesis using merkle_root_binds [OF sample_externals_laws(1)] by metis
qed

section \<open>Fractions of power\<close>

text \<open>
  C35. For a fraction with a denominator of at most 16 the constructor accepts exactly the fractions from
  1/3 to 1, and the comparison in 64-bit words decides whether the signed power exceeds the
  fraction of the total, for all powers a validator set can have. For other fractions the products
  wrap: a fraction equal to 1 is accepted for which one of eight votes is judged enough.
\<close>

theorem threshold_decides:
  assumes "unat den \<le> 16"
  shows "(trust_threshold_new num den = Ok t \<longleftrightarrow> t = \<lparr>numerator = num, denominator = den\<rparr> \<and> threshold_inv t)
    \<and> (trust_threshold_new num den = Ok t \<longrightarrow> unat s \<le> (2 ^ 63 - 1) div 8 \<longrightarrow> unat p \<le> (2 ^ 63 - 1) div 8 \<longrightarrow>
       is_enough_power t s p = (unat p * unat num < unat s * unat den))
    \<and> (\<exists>one. trust_threshold_new (2 ^ 61) (2 ^ 61) = Ok one \<and> is_enough_power one 1 8)"
proof -
  have new: "trust_threshold_new num den = Ok t \<longleftrightarrow> t = \<lparr>numerator = num, denominator = den\<rparr> \<and> threshold_inv t"
  proof (cases "unat num < 2 ^ 62")
    case True
    then show ?thesis by (rule trust_threshold_new_Ok_iff)
  next
    case False
    then have "den < num" using assms by (simp add: word_less_nat_alt)
    then show ?thesis by (auto simp: trust_threshold_new_def threshold_inv_def word_less_nat_alt)
  qed
  moreover have "is_enough_power t s p = (unat p * unat num < unat s * unat den)"
    if "t = \<lparr>numerator = num, denominator = den\<rparr>" "threshold_inv t" "unat s \<le> (2 ^ 63 - 1) div 8" "unat p \<le> (2 ^ 63 - 1) div 8"
    using is_enough_power_iff [of t s p] that assms by (simp add: small_threshold_def)
  moreover have "\<exists>one. trust_threshold_new (2 ^ 61) (2 ^ 61) = Ok one \<and> is_enough_power one 1 8"
    by (simp add: trust_threshold_new_def is_enough_power_def)
  ultimately show ?thesis by blast
qed

theorem threshold_decides_witness:
  "is_enough_power \<lparr>numerator = 1, denominator = 3\<rparr> 5 10 = ((10::nat) * 1 < 5 * 3)"
  using threshold_decides [of 3 1 "\<lparr>numerator = 1, denominator = 3\<rparr>" 5 10]
  by (simp add: threshold_inv_def)

section \<open>Dates, heights and keys\<close>

text \<open>
  Dates: a date survives the trip through its timestamp, adding a duration succeeds exactly within
  the year 9999 and subtracting it again gives the date back.
\<close>

theorem time_arithmetic:
  assumes "time_crate X" "time_inv t"
  shows "time_try_from X (time_into_timestamp t) = Ok t
    \<and> (is_ok (time_add X t d) \<longleftrightarrow> t + int d < year_10000)
    \<and> (\<forall>u. time_add X t d = Ok u \<longrightarrow> time_inv u \<and> t \<le> u \<and> time_sub X u d = Ok t)"
proof (intro conjI allI impI)
  show "time_try_from X (time_into_timestamp t) = Ok t" by (rule time_timestamp_roundtrip [OF assms])
  show "is_ok (time_add X t d) \<longleftrightarrow> t + int d < year_10000"
    using time_add_Ok_iff [OF assms, of d] by (cases "time_add X t d") auto
  fix u assume "time_add X t d = Ok u"
  then have u: "u = t + int d" "t + int d < year_10000" by (simp_all add: time_add_Ok_iff [OF assms])
  then show "time_inv u" "t \<le> u" using assms(2) by (simp_all add: time_inv_def)
  then show "time_sub X u d = Ok t" using u assms(2) by (simp add: time_sub_Ok_iff [OF assms(1)] time_inv_def)
qed

theorem time_arithmetic_witness:
  "time_try_from sample_externals (time_into_timestamp (sample_time 3)) = Ok (sample_time 3)"
  using time_arithmetic [OF sample_externals_time sample_time_inv [of 3]] by simp

text \<open>
  Heights: the decimal form of a height parses back to it, everything that parses is in the range of
  signed words, and the next height exists except after the largest, where the code panics.
\<close>

theorem height_text_and_increment:
  "(fits_i64 h \<longrightarrow> height_from_str (height_to_string h) = Ok h)
   \<and> (height_from_str s = Ok h' \<longrightarrow> fits_i64 h')
   \<and> (fits_i64 h \<longrightarrow> height_increment h = (if h = i64_max then Panic else Ok (h + 1)))"
proof (intro conjI impI)
  assume h: "fits_i64 h"
  then show "height_from_str (height_to_string h) = Ok h" by (rule height_from_str_to_string)
  show "height_increment h = (if h = i64_max then Panic else Ok (h + 1))"
    using h height_increment_Ok_iff [of h "h + 1"] height_increment_Panic_iff [of h]
    by (auto simp: fits_i64_unat word_unat_eq_iff unat_i64_max)
qed (rule height_from_str_inv)

theorem height_text_and_increment_witness:
  "height_from_str (height_to_string 42) = Ok 42 \<and> height_increment i64_max = (Panic :: (tm_error, height) result)"
proof
  have "fits_i64 42" by (simp add: fits_i64_def i64_max_def)
  then show "height_from_str (height_to_string 42) = Ok 42"
    using height_text_and_increment by blast
  have "fits_i64 i64_max" by (simp add: fits_i64_def)
  then have "height_increment i64_max = (if i64_max = i64_max then Panic else Ok (i64_max + 1))"
    using height_text_and_increment by blast
  then show "height_increment i64_max = (Panic :: (tm_error, height) result)" by (simp only: if_True refl)
qed

text \<open>
  Durations: a duration below 2 to the 63 seconds survives the trip through its message. Messages
  with more than a second of nanoseconds are accepted, and there is one whose duration cannot be
  written back: its seconds come out negative.
\<close>

theorem duration_messages:
  "(d < 2 ^ 63 * 1000000000 \<longrightarrow> duration_try_from (duration_into_raw d) = Ok d)
   \<and> (\<exists>r d. duration_try_from r = Ok d \<and> duration_try_from (duration_into_raw d) = Err E_IntegerOverflow)"
  using duration_roundtrip duration_not_reencodable by blast

theorem duration_messages_witness:
  "duration_try_from (duration_into_raw 1500000000) = Ok 1500000000"
  using duration_messages [of 1500000000] by simp

end
