(* ===== verification/Prod_Io.thy ===== *)
theory Prod_Io
  imports Light_Client
begin

text \<open>
  \<open>light-client/src/components/io.rs\<close>: how the production client fetches a light block from a full
  node. The node is a record of its answers to one request: \<open>Err\<close> outside is a failure of the call
  itself (a timeout, the runtime), \<open>Err\<close> inside an error of the node, as the text it prints.
\<close>

section \<open>The node\<close>

type_synonym 'a rpc_answer = "(io_error, (string, 'a) result) result"

record rpc_node =
  rpc_latest_commit :: "signed_header rpc_answer"
  rpc_commit :: "height \<Rightarrow> signed_header rpc_answer"
  rpc_validators :: "height \<Rightarrow> info list rpc_answer"

section \<open>Errors of the node\<close>

fun strip_prefix :: "string \<Rightarrow> string \<Rightarrow> string option" where
  "strip_prefix [] s = Some s"
| "strip_prefix (c # cs) [] = None"
| "strip_prefix (c # cs) (d # ds) = (if c = d then strip_prefix cs ds else None)"

fun contains :: "string \<Rightarrow> string \<Rightarrow> bool" where
  "contains sub [] \<longleftrightarrow> sub = []"
| "contains sub (c # cs) \<longleftrightarrow> strip_prefix sub (c # cs) \<noteq> None \<or> contains sub cs"

definition is_digit :: "char \<Rightarrow> bool" where
  "is_digit c \<longleftrightarrow> to_digit c \<noteq> None"

text \<open>
  The regular expression \<open>height (\d+) must be less than or equal to the current blockchain height (\d+)\<close>,
  on ASCII digits: a match at the start of a text, and the leftmost match. A run of digits is taken
  whole, since what follows the first does not start with a digit.
\<close>

definition capture_here :: "string \<Rightarrow> (string \<times> string) option" where
  "capture_here s =
     (case strip_prefix ''height '' s of
        None \<Rightarrow> None
      | Some r \<Rightarrow>
          (case strip_prefix '' must be less than or equal to the current blockchain height '' (dropWhile is_digit r) of
             None \<Rightarrow> None
           | Some q \<Rightarrow>
               let a = takeWhile is_digit r; b = takeWhile is_digit q in
               if a = [] \<or> b = [] then None else Some (a, b)))"

fun captures :: "string \<Rightarrow> (string \<times> string) option" where
  "captures [] = capture_here []"
| "captures (c # cs) = (case capture_here (c # cs) of Some r \<Rightarrow> Some r | None \<Rightarrow> captures cs)"

definition height_of_capture :: "string \<Rightarrow> height option" where
  "height_of_capture s =
     (case parse_signed 64 s of
        Ok k \<Rightarrow> (case height_try_from_i64 (word_of_int k) of Ok h \<Rightarrow> Some h | _ \<Rightarrow> None)
      | _ \<Rightarrow> None)"

definition from_height_too_high :: "string \<Rightarrow> io_error option" where
  "from_height_too_high err_str =
     (if contains ''must be less than or equal to'' err_str then
        Option.bind (captures err_str) (\<lambda>(a, b).
        Option.bind (height_of_capture a) (\<lambda>height.
        Option.bind (height_of_capture b) (\<lambda>latest_height.
        Some (IO_HeightTooHigh height latest_height))))
      else None)"

definition from_rpc :: "string \<Rightarrow> io_error" where
  "from_rpc err = (case from_height_too_high err of Some e \<Rightarrow> e | None \<Rightarrow> IO_Rpc err)"

section \<open>Fetching\<close>

definition fetch_signed_header :: "rpc_node \<Rightarrow> at_height \<Rightarrow> (io_error, signed_header) result" where
  "fetch_signed_header N h =
     and_then (case h of Highest \<Rightarrow> rpc_latest_commit N | At h \<Rightarrow> rpc_commit N h)
       (map_err from_rpc)"

definition fetch_validator_set ::
  "rpc_node \<Rightarrow> at_height \<Rightarrow> account_id option \<Rightarrow> (io_error, val_set) result" where
  "fetch_validator_set N h proposer_address =
     (case h of
        Highest \<Rightarrow> Err IO_InvalidHeight
      | At h \<Rightarrow>
          and_then (rpc_validators N h) (\<lambda>res.
          and_then (map_err IO_Rpc res) (\<lambda>validators.
          case proposer_address of
            Some a \<Rightarrow> map_err IO_InvalidValidatorSet (set_with_proposer validators a)
          | None \<Rightarrow> set_without_proposer validators)))"

definition prod_fetch_light_block :: "peer_id \<Rightarrow> rpc_node \<Rightarrow> at_height \<Rightarrow> (io_error, light_block) result" where
  "prod_fetch_light_block peer N h =
     and_then (fetch_signed_header N h) (\<lambda>signed_header.
     let height = hdr_height (sh_header signed_header);
         proposer_address = hdr_proposer_address (sh_header signed_header) in
     and_then (fetch_validator_set N (at_height_from height) (Some proposer_address)) (\<lambda>validator_set.
     and_then (height_increment height) (\<lambda>next.
     and_then (fetch_validator_set N (at_height_from next) None) (\<lambda>next_validator_set.
     Ok \<lparr>lb_signed_header = signed_header, lb_validators = validator_set, lb_next_validators = next_validator_set,
         lb_provider = peer\<rparr>))))"

section \<open>Lemmas\<close>

lemma set_new_Ok: "set_new vs p = Ok s \<longleftrightarrow> try_from_parts vs p 0 = Ok s"
  by (auto simp: set_new_def split: result.splits)

lemma fetch_validator_set_Ok:
  assumes "fetch_validator_set N h p = Ok s"
  shows "\<exists>k vs. h = At k \<and> rpc_validators N k = Ok (Ok vs) \<and> set_inv s \<and> mset (vs_validators s) = mset vs
    \<and> vs_proposer s = Option.bind p (\<lambda>a. find (\<lambda>v. info_address v = a) vs) \<and> (p \<noteq> None \<longrightarrow> vs_proposer s \<noteq> None)"
proof -
  from assms obtain k vs where k: "h = At k" "rpc_validators N k = Ok (Ok vs)"
    by (auto simp: fetch_validator_set_def result_simps split: at_height.splits)
  from assms have "try_from_parts vs (Option.bind p (\<lambda>a. find (\<lambda>v. info_address v = a) vs)) 0 = Ok s \<and>
      (p \<noteq> None \<longrightarrow> Option.bind p (\<lambda>a. find (\<lambda>v. info_address v = a) vs) \<noteq> None)"
    by (auto simp: fetch_validator_set_def k set_with_proposer_def set_without_proposer_def set_new_Ok result_simps
        split: option.splits)
  with k show ?thesis using try_from_parts_inv by (metis (no_types, lifting))
qed

text \<open>A node that answers with too much voting power makes the client panic.\<close>

lemma set_new_Panic: "set_new vs p = Panic \<longleftrightarrow> (2 ^ 63 - 1) div 8 < powers vs"
  by (auto simp: set_new_def try_from_parts_eq)

lemma fetch_validator_set_Panic:
  assumes "rpc_validators N k = Ok (Ok vs)" "p = None \<or> (\<exists>v \<in> set vs. p = Some (info_address v))"
  shows "fetch_validator_set N (At k) p = Panic \<longleftrightarrow> (2 ^ 63 - 1) div 8 < powers vs"
proof (cases p)
  case None
  then show ?thesis by (simp add: fetch_validator_set_def assms set_without_proposer_def set_new_Panic)
next
  case (Some a)
  with assms(2) obtain v where "find (\<lambda>v. info_address v = a) vs = Some v"
    by (cases "find (\<lambda>v. info_address v = a) vs") (auto simp: find_None_iff)
  then show ?thesis by (simp add: fetch_validator_set_def assms(1) Some set_with_proposer_def set_new_Panic result_simps)
qed

text \<open>The text of a node that has not reached a height is recognised.\<close>

lemma strip_prefix_append [simp]: "strip_prefix p (p @ s) = Some s"
  by (induction p) auto

lemma strip_prefix_Some: "strip_prefix p s = Some r \<longleftrightarrow> s = p @ r"
  by (induction p s rule: strip_prefix.induct) auto

lemma contains_append: "contains sub (pre @ sub @ post)"
proof (induction pre)
  case Nil
  show ?case by (cases sub; cases post) (auto simp: strip_prefix_Some)
qed auto

lemma nat_to_string_digits: "list_all is_digit (nat_to_string n)"
  by (induction n rule: nat_to_string.induct) (auto simp: nat_to_string.simps [of n for n] is_digit_def)

lemma digits_run:
  assumes "post = [] \<or> \<not> is_digit (hd post)"
  shows "takeWhile is_digit (nat_to_string n @ post) = nat_to_string n" "dropWhile is_digit (nat_to_string n @ post) = post"
  using nat_to_string_digits [of n] assms
  by (auto simp: list_all_iff takeWhile_append takeWhile_eq_Nil_iff dropWhile_append dropWhile_eq_self_iff)

lemma captures_skip:
  "CHR ''h'' \<notin> set pre \<Longrightarrow> captures (pre @ s) = captures s"
  by (induction pre) (auto simp: capture_here_def)

lemma height_of_capture_string: "fits_i64 h \<Longrightarrow> height_of_capture (nat_to_string (unat h)) = Some h"
proof -
  assume h: "fits_i64 h"
  then have "unat h < 2 ^ 63" by (simp only: fits_i64_unat)
  then have "int (unat h) < int (2 ^ 63)" by (simp only: of_nat_less_iff)
  then have lt: "int (unat h) < 2 ^ (64 - 1)" by simp
  have ge: "- (2 ^ (64 - 1)) \<le> int (unat h)" by (rule order_trans [of _ 0]) simp_all
  have "parse_signed 64 (int_to_string (int (unat h))) = Ok (int (unat h))"
    by (rule parse_signed_to_string [OF ge lt])
  with h show ?thesis by (simp add: height_of_capture_def int_to_string_def height_try_from_i64_def)
qed

lemma from_height_too_high_message:
  assumes "fits_i64 h" "fits_i64 l" "CHR ''h'' \<notin> set pre" "post = [] \<or> \<not> is_digit (hd post)"
  shows "from_height_too_high (pre @ ''height '' @ nat_to_string (unat h)
    @ '' must be less than or equal to the current blockchain height '' @ nat_to_string (unat l) @ post)
    = Some (IO_HeightTooHigh h l)"
proof -
  define mid where "mid = '' must be less than or equal to the current blockchain height ''"
  let ?msg = "''height '' @ nat_to_string (unat h) @ mid @ nat_to_string (unat l) @ post"
  have run: "takeWhile is_digit (nat_to_string (unat h) @ mid @ q) = nat_to_string (unat h)"
      "dropWhile is_digit (nat_to_string (unat h) @ mid @ q) = mid @ q" for q
    by (rule digits_run, simp add: mid_def is_digit_def to_digit_def)+
  have "capture_here ?msg = Some (nat_to_string (unat h), nat_to_string (unat l))"
    unfolding capture_here_def mid_def [symmetric] by (simp only: strip_prefix_append option.case run digits_run [OF assms(4)]) simp
  then have "captures ?msg = Some (nat_to_string (unat h), nat_to_string (unat l))" by simp
  then have cap: "captures (pre @ ?msg) = Some (nat_to_string (unat h), nat_to_string (unat l))"
    by (simp only: captures_skip [OF assms(3)])
  have "contains ''must be less than or equal to'' (pre @ ?msg)"
    using contains_append [of "''must be less than or equal to''" "pre @ ''height '' @ nat_to_string (unat h) @ '' ''"
      "'' the current blockchain height '' @ nat_to_string (unat l) @ post"] by (simp add: mid_def)
  then show ?thesis
    unfolding from_height_too_high_def mid_def [symmetric] using cap
    by (simp add: height_of_capture_string [OF assms(1)] height_of_capture_string [OF assms(2)])
qed

end
