(* ===== verification/Builder.thy ===== *)
theory Builder
  imports Light_Client_Lemmas
begin

text \<open>
  \<open>light-client/src/builder/light_client.rs\<close>: setting up a client. The builder carries the parts of
  the client, the store, and the counts of the calls it made to the peer and the clock.
\<close>

datatype builder_error =
    BE_Io io_error
  | BE_HeightMismatch height height
  | BE_HashMismatch tm_hash tm_hash
  | BE_InvalidLightBlock verification_error
  | BE_NoTrustedStateInStore
  | BE_EmptyWitnessList

record 's builder =
  bd_light_client :: "'s light_client"
  bd_light_store :: 's
  bd_ticks :: nat
  bd_fetches :: nat

type_synonym ('s, 'a) builder_call = "('s builder, builder_error, 'a) call"

definition builder_custom :: "'s light_client \<Rightarrow> 's \<Rightarrow> 's builder" where
  "builder_custom C s = \<lparr>bd_light_client = C, bd_light_store = s, bd_ticks = 0, bd_fetches = 0\<rparr>"

definition bd_now :: "('s, time) builder_call" where
  "bd_now B = (B\<lparr>bd_ticks := bd_ticks B + 1\<rparr>, Ok (lc_clock (bd_light_client B) (bd_ticks B)))"

definition bd_fetch :: "at_height \<Rightarrow> ('s, light_block) builder_call" where
  "bd_fetch h B =
     (B\<lparr>bd_fetches := bd_fetches B + 1\<rparr>, map_err BE_Io (lc_io (bd_light_client B) (bd_fetches B) h))"

definition bd_validate :: "externals \<Rightarrow> light_block \<Rightarrow> ('s, unit) builder_call" where
  "bd_validate X light_block =
     sbind bd_now (\<lambda>now. gets (\<lambda>B.
       let header = sh_header (lb_signed_header light_block); opts = lc_options (bd_light_client B) in
       map_err BE_InvalidLightBlock
        (and_then (is_within_trust_period X (hdr_time header) (opt_trusting_period opts) now) (\<lambda>_.
         and_then (is_header_from_past X (hdr_time header) (opt_clock_drift opts) now) (\<lambda>_.
         and_then (validator_sets_match X (lb_validators light_block) (hdr_validators_hash header)) (\<lambda>_.
         next_validators_match X (lb_next_validators light_block) (hdr_next_validators_hash header)))))))"

definition trust_light_block :: "externals \<Rightarrow> 's store_ops \<Rightarrow> light_block \<Rightarrow> ('s, unit) builder_call" where
  "trust_light_block X S trusted_state =
     sbind (bd_validate X trusted_state) (\<lambda>_.
     modify (\<lambda>B. Ok (B\<lparr>bd_light_store := so_insert S (bd_light_store B) trusted_state Trusted\<rparr>)))"

definition trust_from_store :: "externals \<Rightarrow> 's store_ops \<Rightarrow> ('s, unit) builder_call" where
  "trust_from_store X S =
     sbind (gets (\<lambda>B. ok_or BE_NoTrustedStateInStore (highest_trusted_or_verified S (bd_light_store B))))
       (trust_light_block X S)"

definition trust_primary_at ::
  "externals \<Rightarrow> 's store_ops \<Rightarrow> height \<Rightarrow> tm_hash \<Rightarrow> ('s, unit) builder_call" where
  "trust_primary_at X S trusted_height trusted_hash =
     sbind (bd_fetch (At trusted_height)) (\<lambda>trusted_state.
     sbind (fail_if (lb_height trusted_state \<noteq> trusted_height)
       (BE_HeightMismatch trusted_height (lb_height trusted_state))) (\<lambda>_.
     let hash = header_hash X (sh_header (lb_signed_header trusted_state)) in
     sbind (fail_if (hash \<noteq> trusted_hash) (BE_HashMismatch trusted_hash hash)) (\<lambda>_.
     trust_light_block X S trusted_state)))"

definition build :: "'s builder \<Rightarrow> 's lc_instance" where
  "build B = \<lparr>in_light_client = bd_light_client B,
     in_state = \<lparr>st_light_store = bd_light_store B, st_verification_trace = Map.empty, st_ticks = bd_ticks B,
       st_fetches = bd_fetches B\<rparr>\<rparr>"

section \<open>Lemmas\<close>

text \<open>What the builder checks of a block it is told to trust.\<close>

definition acceptable_root :: "externals \<Rightarrow> options \<Rightarrow> time \<Rightarrow> light_block \<Rightarrow> bool" where
  "acceptable_root X opts now b \<longleftrightarrow>
     (let header = sh_header (lb_signed_header b) in
      is_within_trust_period X (hdr_time header) (opt_trusting_period opts) now = Ok ()
      \<and> is_header_from_past X (hdr_time header) (opt_clock_drift opts) now = Ok ()
      \<and> set_hash X (lb_validators b) = hdr_validators_hash header
      \<and> set_hash X (lb_next_validators b) = hdr_next_validators_hash header)"

lemma bd_validate_Ok:
  "bd_validate X b B = (B', Ok ()) \<longleftrightarrow>
     B' = B\<lparr>bd_ticks := bd_ticks B + 1\<rparr>
     \<and> acceptable_root X (lc_options (bd_light_client B)) (lc_clock (bd_light_client B) (bd_ticks B)) b"
  by (auto simp: bd_validate_def bd_now_def sbind_Ok acceptable_root_def Let_def result_simps predicate_Ok_iffs)

lemma trust_light_block_Ok:
  "trust_light_block X S b B = (B', Ok ()) \<longleftrightarrow>
     acceptable_root X (lc_options (bd_light_client B)) (lc_clock (bd_light_client B) (bd_ticks B)) b
     \<and> B' = B\<lparr>bd_ticks := bd_ticks B + 1, bd_light_store := so_insert S (bd_light_store B) b Trusted\<rparr>"
  by (auto simp: trust_light_block_def sbind_Ok bd_validate_Ok)

lemma trust_primary_at_Ok:
  "trust_primary_at X S h hash B = (B', Ok ()) \<longleftrightarrow>
     (\<exists>b. lc_io (bd_light_client B) (bd_fetches B) (At h) = Ok b \<and> lb_height b = h
        \<and> header_hash X (sh_header (lb_signed_header b)) = hash
        \<and> acceptable_root X (lc_options (bd_light_client B)) (lc_clock (bd_light_client B) (bd_ticks B)) b
        \<and> B' = B\<lparr>bd_ticks := bd_ticks B + 1, bd_fetches := bd_fetches B + 1,
                 bd_light_store := so_insert S (bd_light_store B) b Trusted\<rparr>)"
  by (auto simp: trust_primary_at_def sbind_Ok bd_fetch_def result_simps trust_light_block_Ok Let_def)

end
