(* ===== verification/Setup_Properties.thy ===== *)
theory Setup_Properties
  imports Client_Properties Prod_Io Builder
begin

text \<open>
  The properties of what surrounds the client: the production peer of \<open>components/io.rs\<close> and the
  builder of \<open>builder/light_client.rs\<close>.
\<close>

section \<open>The production peer\<close>

text \<open>
  C36. A light block of the production peer carries the peer's id, the validators the node gave for
  the height of the fetched header and for the height after it, in the order of a validator set and
  with their exact total power, and as proposer the validator the header names. When the voting
  power the node gives for the height of the header is above the bound of a validator set, the call
  panics instead of failing, as long as the proposer is among the validators.
\<close>

theorem prod_fetch_light_block_outcomes:
  assumes "fetch_signed_header N h = Ok sh" "rpc_validators N (hdr_height (sh_header sh)) = Ok (Ok vs)"
  shows "(\<forall>b. prod_fetch_light_block peer N h = Ok b \<longrightarrow>
      lb_signed_header b = sh \<and> lb_provider b = peer \<and> set_inv (lb_validators b) \<and> set_inv (lb_next_validators b)
      \<and> mset (vs_validators (lb_validators b)) = mset vs
      \<and> (\<exists>p. vs_proposer (lb_validators b) = Some p \<and> p \<in> set vs \<and> info_address p = hdr_proposer_address (sh_header sh))
      \<and> (\<exists>ws. rpc_validators N (hdr_height (sh_header sh) + 1) = Ok (Ok ws)
           \<and> mset (vs_validators (lb_next_validators b)) = mset ws))
    \<and> (hdr_height (sh_header sh) \<noteq> 0 \<and> hdr_proposer_address (sh_header sh) \<in> info_address ` set vs
         \<and> (2 ^ 63 - 1) div 8 < powers vs \<longrightarrow> prod_fetch_light_block peer N h = Panic)"
proof (intro conjI allI impI)
  let ?k = "hdr_height (sh_header sh)" and ?a = "hdr_proposer_address (sh_header sh)"
  fix b assume "prod_fetch_light_block peer N h = Ok b"
  then obtain s n s' where b: "fetch_validator_set N (at_height_from ?k) (Some ?a) = Ok s"
      "height_increment ?k = (Ok n :: (io_error, _) result)" "fetch_validator_set N (at_height_from n) None = Ok s'"
      "b = \<lparr>lb_signed_header = sh, lb_validators = s, lb_next_validators = s', lb_provider = peer\<rparr>"
    by (auto simp: prod_fetch_light_block_def assms(1) Let_def result_simps)
  from fetch_validator_set_Ok [OF b(1)] assms(2) have s: "set_inv s" "mset (vs_validators s) = mset vs"
      "vs_proposer s = find (\<lambda>v. info_address v = ?a) vs" "vs_proposer s \<noteq> None"
    by (auto simp: at_height_from_def split: if_splits dest: sym)
  have p: "\<exists>p. vs_proposer s = Some p \<and> p \<in> set vs \<and> info_address p = ?a"
    using s(3,4) by (cases "vs_proposer s") (auto simp: find_Some_iff dest: sym)
  have n: "n = ?k + 1" using b(2) by (simp add: height_increment_Ok_iff)
  obtain ws where ws: "rpc_validators N n = Ok (Ok ws)" "set_inv s'" "mset (vs_validators s') = mset ws"
    using fetch_validator_set_Ok [OF b(3)] by (auto simp: at_height_from_def split: if_splits)
  show "lb_signed_header b = sh" "lb_provider b = peer" "set_inv (lb_validators b)" "set_inv (lb_next_validators b)"
    "mset (vs_validators (lb_validators b)) = mset vs"
    "\<exists>p. vs_proposer (lb_validators b) = Some p \<and> p \<in> set vs \<and> info_address p = ?a"
    "\<exists>ws. rpc_validators N (?k + 1) = Ok (Ok ws) \<and> mset (vs_validators (lb_next_validators b)) = mset ws"
    using s(1,2) p ws n by (simp_all add: b(4))
next
  assume power: "hdr_height (sh_header sh) \<noteq> 0 \<and> hdr_proposer_address (sh_header sh) \<in> info_address ` set vs
    \<and> (2 ^ 63 - 1) div 8 < powers vs"
  then have nonzero: "hdr_height (sh_header sh) \<noteq> 0" by blast
  from power have "fetch_validator_set N (At (hdr_height (sh_header sh))) (Some (hdr_proposer_address (sh_header sh))) = Panic"
    by (subst fetch_validator_set_Panic [OF assms(2)]) auto
  with nonzero show "prod_fetch_light_block peer N h = Panic"
    by (simp add: prod_fetch_light_block_def assms(1) at_height_from_def Let_def)
qed

definition sample_node :: "info list \<Rightarrow> rpc_node" where
  "sample_node vs = \<lparr>rpc_latest_commit = Ok (Ok (sample_signed_header 1)), rpc_commit = (\<lambda>h. Ok (Ok (sample_signed_header h))),
     rpc_validators = (\<lambda>h. Ok (Ok vs))\<rparr>"

theorem prod_fetch_light_block_outcomes_witness:
  "prod_fetch_light_block [] (sample_node [sample_info 1 (2 ^ 62)]) Highest = Panic
   \<and> (\<exists>b. prod_fetch_light_block [] (sample_node [sample_info 1 10]) Highest = Ok b
        \<and> set_inv (lb_validators b) \<and> vs_proposer (lb_validators b) = Some (sample_info 1 10))"
proof
  have fetch: "fetch_signed_header (sample_node vs) Highest = Ok (sample_signed_header 1)"
    "rpc_validators (sample_node vs) (hdr_height (sh_header (sample_signed_header 1))) = Ok (Ok vs)" for vs
    by (simp_all add: fetch_signed_header_def sample_node_def)
  note outcomes = prod_fetch_light_block_outcomes [OF fetch, of "[]"]
  show "prod_fetch_light_block [] (sample_node [sample_info 1 (2 ^ 62)]) Highest = Panic"
    using outcomes [of "[sample_info 1 (2 ^ 62)]"] by (simp add: sample_simps powers_def)
  have vals: "rpc_validators (sample_node vs) h = Ok (Ok vs)" for vs h by (simp add: sample_node_def)
  have sets: "\<exists>s. fetch_validator_set (sample_node [sample_info 1 10]) (At k) (Some (replicate 20 1)) = Ok s"
      "\<exists>s. fetch_validator_set (sample_node [sample_info 1 10]) (At k) None = Ok s" for k
    by (simp_all add: fetch_validator_set_def vals set_with_proposer_def set_without_proposer_def set_new_def
        try_from_parts_eq powers_def)
  have inc: "height_increment 1 = (Ok 2 :: (io_error, height) result)"
    by (simp add: height_increment_Ok_iff)
  have "\<exists>b. prod_fetch_light_block [] (sample_node [sample_info 1 10]) Highest = Ok b"
    using sets(1) [of 1] sets(2) [of 2]
    by (auto simp: prod_fetch_light_block_def fetch sample_simps inc at_height_from_def)
  then obtain b where b: "prod_fetch_light_block [] (sample_node [sample_info 1 10]) Highest = Ok b" by blast
  then show "\<exists>b. prod_fetch_light_block [] (sample_node [sample_info 1 10]) Highest = Ok b
        \<and> set_inv (lb_validators b) \<and> vs_proposer (lb_validators b) = Some (sample_info 1 10)"
    using outcomes [of "[sample_info 1 10]"] by auto
qed

text \<open>
  The text by which a node says it has not reached a height is read back as the error with the two
  heights, whatever surrounds it, when the text before has no letter \<open>h\<close> and the one after does not
  start with a digit.
\<close>

theorem height_too_high_recognised:
  assumes "fits_i64 h" "fits_i64 l" "CHR ''h'' \<notin> set pre" "post = [] \<or> \<not> is_digit (hd post)"
  shows "from_rpc (pre @ ''height '' @ nat_to_string (unat h)
    @ '' must be less than or equal to the current blockchain height '' @ nat_to_string (unat l) @ post)
    = IO_HeightTooHigh h l"
  unfolding from_rpc_def using from_height_too_high_message [OF assms] by (simp del: append.simps append_assoc)

theorem height_too_high_recognised_witness:
  "from_rpc (''RPC error: '' @ ''height '' @ nat_to_string (unat (8 :: height))
    @ '' must be less than or equal to the current blockchain height '' @ nat_to_string (unat (5 :: height)) @ ''.'')
    = IO_HeightTooHigh 8 5"
  by (rule height_too_high_recognised) (simp_all add: fits_i64_def i64_max_def is_digit_def to_digit_def)

end
