(* ===== verification/Secret_Connection.thy ===== *)
theory Secret_Connection
  imports Effects Tm_Scalars
begin

text \<open>
  \<open>p2p/src/secret_connection.rs\<close> and the files below it: the encrypted connection between two
  peers. The handshake of the station-to-station kind, its messages in the three protocol versions,
  the frames of the data phase with their nonces, and the flag that ends a connection for good.

  The ciphers, the curve, the signatures, the transcript hash and the encoder of Protobuf messages are
  third-party code, collected in the record \<open>p2p_crypto\<close>. The transport below the connection is a
  record of its calls; randomness is an argument of the one operation that draws it.
\<close>

section \<open>Errors and parameters\<close>

datatype p2p_error =
    PE_Crypto
  | PE_InvalidKey
  | PE_LowOrderKey
  | PE_Protocol
  | PE_MalformedHandshake
  | PE_Io pio_error
  | PE_Decode
  | PE_MissingSecret
  | PE_MissingKey
  | PE_Signature
  | PE_UnsupportedKey
  | PE_Aead
  | PE_ShortCiphertext nat
  | PE_SmallOutputBuffer
  | PE_TransportClone string
and pio_error =
    PIO_Terminated
  | PIO_Cipher p2p_error
  | PIO_ChunkTooBig nat
  | PIO_UnexpectedEof
  | PIO_WriteZero
  | PIO_Transport string

record raw_auth_sig_message =
  ras_pub_key :: "raw_public_key option"
  ras_sig :: bytes

record amino_auth_sig_message =
  aas_pub_key :: bytes
  aas_sig :: bytes

record p2p_crypto =
  k_base_mult :: "bytes \<Rightarrow> bytes"
  k_mult :: "bytes \<Rightarrow> bytes \<Rightarrow> bytes"
  k_hkdf :: "bytes \<Rightarrow> string \<Rightarrow> bytes"
  k_transcript :: "string \<Rightarrow> (string \<times> bytes) list \<Rightarrow> string \<Rightarrow> bytes"
  k_verification_key :: "bytes \<Rightarrow> bytes"
  k_sign :: "bytes \<Rightarrow> bytes \<Rightarrow> bytes"
  k_key_ok :: "bytes \<Rightarrow> bool"
  k_sig_ok :: "bytes \<Rightarrow> bool"
  k_verify :: "bytes \<Rightarrow> bytes \<Rightarrow> bytes \<Rightarrow> bool"
  k_sha256 :: "bytes \<Rightarrow> bytes"
  k_encrypt :: "bytes \<Rightarrow> bytes \<Rightarrow> bytes \<Rightarrow> (bytes \<times> bytes) option"
  k_decrypt :: "bytes \<Rightarrow> bytes \<Rightarrow> bytes \<Rightarrow> bytes \<Rightarrow> bytes option"
  k_encode_auth_sig :: "raw_auth_sig_message \<Rightarrow> bytes"
  k_decode_auth_sig :: "bytes \<Rightarrow> raw_auth_sig_message option"
  k_encode_amino :: "amino_auth_sig_message \<Rightarrow> bytes"
  k_decode_amino :: "bytes \<Rightarrow> amino_auth_sig_message option"
  k_amino_feature :: bool

text \<open>The transport: \<open>write_all\<close>, \<open>read_exact\<close> and \<open>flush\<close> of the handler, and why it cannot be cloned, if so.\<close>

record 'h io_ops =
  io_write_all :: "bytes \<Rightarrow> ('h, pio_error, unit) call"
  io_read_exact :: "nat \<Rightarrow> ('h, pio_error, bytes) call"
  io_flush :: "('h, pio_error, unit) call"
  io_clone_error :: "'h \<Rightarrow> string option"

section \<open>Little-endian integers\<close>

fun to_le_bytes :: "nat \<Rightarrow> nat \<Rightarrow> bytes" where
  "to_le_bytes 0 n = []"
| "to_le_bytes (Suc k) n = word_of_nat (n mod 256) # to_le_bytes k (n div 256)"

fun from_le_bytes :: "bytes \<Rightarrow> nat" where
  "from_le_bytes [] = 0"
| "from_le_bytes (b # bs) = unat b + 256 * from_le_bytes bs"

section \<open>Nonces\<close>

type_synonym nonce = bytes

definition nonce_size :: nat where "nonce_size = 12"

definition nonce_default :: nonce where
  "nonce_default = replicate nonce_size 0"

definition nonce_increment :: "nonce \<Rightarrow> ('e, nonce) result" where
  "nonce_increment n =
     (let counter = word_of_nat (from_le_bytes (drop 4 n)) in
      and_then (or_panic (checked_add counter 1)) (\<lambda>c. Ok (take 4 n @ to_le_bytes 8 (unat c))))"

section \<open>Key derivation\<close>

record kdf =
  kdf_recv_secret :: bytes
  kdf_send_secret :: bytes
  kdf_challenge :: bytes

definition hkdf_info :: string where
  "hkdf_info = ''TENDERMINT_SECRET_CONNECTION_KEY_AND_CHALLENGE_GEN''"

definition derive_secrets_and_challenge :: "p2p_crypto \<Rightarrow> bytes \<Rightarrow> bool \<Rightarrow> kdf" where
  "derive_secrets_and_challenge K shared_secret loc_is_lo =
     (let key_material = k_hkdf K shared_secret hkdf_info;
          first = take 32 key_material; second = take 32 (drop 32 key_material);
          challenge = take 32 (drop 64 key_material) in
      if loc_is_lo then \<lparr>kdf_recv_secret = first, kdf_send_secret = second, kdf_challenge = challenge\<rparr>
      else \<lparr>kdf_recv_secret = second, kdf_send_secret = first, kdf_challenge = challenge\<rparr>)"

section \<open>Messages of the handshake\<close>

datatype p2p_version = V0_34 | V0_33 | Legacy

definition has_transcript :: "p2p_version \<Rightarrow> bool" where
  "has_transcript v \<longleftrightarrow> v \<noteq> Legacy"

fun is_protobuf :: "p2p_version \<Rightarrow> bool" where
  "is_protobuf V0_34 \<longleftrightarrow> True"
| "is_protobuf V0_33 \<longleftrightarrow> False"
| "is_protobuf Legacy \<longleftrightarrow> False"

definition encode_initial_handshake :: "p2p_version \<Rightarrow> bytes \<Rightarrow> bytes" where
  "encode_initial_handshake v eph_pubkey =
     (if is_protobuf v then [0x22, 0x0a, 0x20] @ eph_pubkey else [32 + 1, 32] @ eph_pubkey)"

definition low_order_points :: "bytes list" where
  "low_order_points =
    [replicate 32 0,
     1 # replicate 31 0,
     [0xe0, 0xeb, 0x7a, 0x7c, 0x3b, 0x41, 0xb8, 0xae, 0x16, 0x56, 0xe3, 0xfa, 0xf1, 0x9f, 0xc4, 0x6a,
      0xda, 0x09, 0x8d, 0xeb, 0x9c, 0x32, 0xb1, 0xfd, 0x86, 0x62, 0x05, 0x16, 0x5f, 0x49, 0xb8, 0x00],
     [0x5f, 0x9c, 0x95, 0xbc, 0xa3, 0x50, 0x8c, 0x24, 0xb1, 0xd0, 0xb1, 0x55, 0x9c, 0x83, 0xef, 0x5b,
      0x04, 0x44, 0x5c, 0xc4, 0x58, 0x1c, 0x8e, 0x86, 0xd8, 0x22, 0x4e, 0xdd, 0xd0, 0x9f, 0x11, 0x57],
     0xec # replicate 30 0xff @ [0x7f],
     0xed # replicate 30 0xff @ [0x7f],
     0xee # replicate 30 0xff @ [0x7f]]"

definition is_low_order_point :: "bytes \<Rightarrow> bool" where
  "is_low_order_point p \<longleftrightarrow> p \<in> set low_order_points"

definition decode_initial_handshake :: "p2p_version \<Rightarrow> bytes \<Rightarrow> (p2p_error, bytes) result" where
  "decode_initial_handshake v bytes =
     and_then
       (if is_protobuf v
        then if length bytes \<noteq> 34 \<or> take 2 bytes \<noteq> [0x0a, 0x20] then Err PE_MalformedHandshake else Ok (drop 2 bytes)
        else if length bytes \<noteq> 33 \<or> hd bytes \<noteq> 32 then Err PE_MalformedHandshake else Ok (drop 1 bytes))
       (\<lambda>eph_pubkey. if is_low_order_point eph_pubkey then Err PE_LowOrderKey else Ok eph_pubkey)"

definition amino_prefix :: bytes where
  "amino_prefix = [0x16, 0x24, 0xde, 0x64, 0x20]"

definition amino_auth_sig_new :: "bytes \<Rightarrow> bytes \<Rightarrow> amino_auth_sig_message" where
  "amino_auth_sig_new pub_key sig = \<lparr>aas_pub_key = amino_prefix @ pub_key, aas_sig = sig\<rparr>"

definition amino_auth_sig_try_into :: "amino_auth_sig_message \<Rightarrow> (p2p_error, raw_auth_sig_message) result" where
  "amino_auth_sig_try_into m =
     (if length (aas_pub_key m) < 5 then Err PE_Protocol
      else if take 5 (aas_pub_key m) \<noteq> amino_prefix then Err PE_Protocol
      else Ok \<lparr>ras_pub_key = Some \<lparr>rpk_sum = Some (Sum_Ed25519 (drop 5 (aas_pub_key m)))\<rparr>, ras_sig = aas_sig m\<rparr>)"

definition encode_auth_signature_amino :: "p2p_crypto \<Rightarrow> bytes \<Rightarrow> bytes \<Rightarrow> ('e, bytes) result" where
  "encode_auth_signature_amino K pub_key sig =
     (if k_amino_feature K then Ok (k_encode_amino K (amino_auth_sig_new pub_key sig)) else Panic)"

definition encode_auth_signature :: "p2p_crypto \<Rightarrow> p2p_version \<Rightarrow> bytes \<Rightarrow> bytes \<Rightarrow> ('e, bytes) result" where
  "encode_auth_signature K v pub_key sig =
     (if is_protobuf v
      then Ok (k_encode_auth_sig K \<lparr>ras_pub_key = Some \<lparr>rpk_sum = Some (Sum_Ed25519 pub_key)\<rparr>, ras_sig = sig\<rparr>)
      else encode_auth_signature_amino K pub_key sig)"

definition auth_sig_msg_response_len :: "p2p_version \<Rightarrow> nat" where
  "auth_sig_msg_response_len v = (if is_protobuf v then 103 else 106)"

definition decode_auth_signature_amino :: "p2p_crypto \<Rightarrow> bytes \<Rightarrow> (p2p_error, raw_auth_sig_message) result" where
  "decode_auth_signature_amino K bytes =
     (if k_amino_feature K then and_then (ok_or PE_Decode (k_decode_amino K bytes)) amino_auth_sig_try_into else Panic)"

definition decode_auth_signature :: "p2p_crypto \<Rightarrow> p2p_version \<Rightarrow> bytes \<Rightarrow> (p2p_error, raw_auth_sig_message) result" where
  "decode_auth_signature K v bytes =
     (if is_protobuf v then ok_or PE_Decode (k_decode_auth_sig K bytes) else decode_auth_signature_amino K bytes)"

section \<open>Public keys\<close>

datatype p2p_public_key = P2p_Ed25519 bytes

definition p2p_from_raw_ed25519 :: "p2p_crypto \<Rightarrow> bytes \<Rightarrow> p2p_public_key tm_result" where
  "p2p_from_raw_ed25519 K b = (if k_key_ok K b then Ok (P2p_Ed25519 b) else Err E_Signature)"

fun p2p_peer_id :: "p2p_crypto \<Rightarrow> p2p_public_key \<Rightarrow> bytes" where
  "p2p_peer_id K (P2p_Ed25519 pk) = take 20 (k_sha256 K pk)"

section \<open>The handshake\<close>

record awaiting_eph_key =
  aek_local_privkey :: bytes
  aek_local_eph_privkey :: "bytes option"

record awaiting_auth_sig =
  aas_sc_mac :: bytes
  aas_kdf :: kdf
  aas_recv_cipher :: bytes
  aas_send_cipher :: bytes
  aas_local_signature :: bytes

record 's handshake =
  hs_protocol_version :: p2p_version
  hs_state :: 's

text \<open>The ephemeral secret is drawn at random by the code and given here.\<close>

definition handshake_new :: "p2p_crypto \<Rightarrow> bytes \<Rightarrow> p2p_version \<Rightarrow> bytes \<Rightarrow> awaiting_eph_key handshake \<times> bytes" where
  "handshake_new K local_privkey protocol_version local_eph_privkey =
     (\<lparr>hs_protocol_version = protocol_version,
       hs_state = \<lparr>aek_local_privkey = local_privkey, aek_local_eph_privkey = Some local_eph_privkey\<rparr>\<rparr>,
      k_base_mult K local_eph_privkey)"

definition sort32 :: "bytes \<Rightarrow> bytes \<Rightarrow> bytes \<times> bytes" where
  "sort32 first second = (if second > first then (first, second) else (second, first))"

definition transcript_mac :: "p2p_crypto \<Rightarrow> bytes \<Rightarrow> bytes \<Rightarrow> bytes \<Rightarrow> bytes" where
  "transcript_mac K low high secret =
     k_transcript K ''TENDERMINT_SECRET_CONNECTION_TRANSCRIPT_HASH''
       [(''EPHEMERAL_LOWER_PUBLIC_KEY'', low), (''EPHEMERAL_UPPER_PUBLIC_KEY'', high), (''DH_SECRET'', secret)]
       ''SECRET_CONNECTION_MAC''"

definition got_key :: "p2p_crypto \<Rightarrow> bytes \<Rightarrow> (awaiting_eph_key handshake, p2p_error, awaiting_auth_sig handshake) call" where
  "got_key K remote_eph_pubkey h =
     (case aek_local_eph_privkey (hs_state h) of
        None \<Rightarrow> (h, Err PE_MissingSecret)
      | Some local_eph_privkey \<Rightarrow>
          (h\<lparr>hs_state := (hs_state h)\<lparr>aek_local_eph_privkey := None\<rparr>\<rparr>,
           let local_eph_pubkey = k_base_mult K local_eph_privkey;
               shared_secret = k_mult K local_eph_privkey remote_eph_pubkey in
           if shared_secret = replicate 32 0 then Err PE_LowOrderKey
           else
             let (low, high) = sort32 local_eph_pubkey remote_eph_pubkey;
                 loc_is_least = (local_eph_pubkey = low);
                 kdf = derive_secrets_and_challenge K shared_secret loc_is_least;
                 sc_mac = transcript_mac K low high shared_secret;
                 local_signature = k_sign K (aek_local_privkey (hs_state h))
                   (if has_transcript (hs_protocol_version h) then sc_mac else kdf_challenge kdf) in
             Ok \<lparr>hs_protocol_version = hs_protocol_version h,
                 hs_state = \<lparr>aas_sc_mac = sc_mac, aas_kdf = kdf, aas_recv_cipher = kdf_recv_secret kdf,
                   aas_send_cipher = kdf_send_secret kdf, aas_local_signature = local_signature\<rparr>\<rparr>))"

definition got_signature ::
  "p2p_crypto \<Rightarrow> awaiting_auth_sig handshake \<Rightarrow> raw_auth_sig_message \<Rightarrow> (p2p_error, p2p_public_key) result" where
  "got_signature K h auth_sig_msg =
     and_then (ok_or PE_MissingKey (Option.bind (ras_pub_key auth_sig_msg) rpk_sum)) (\<lambda>pk_sum.
     and_then (case pk_sum of
         Sum_Ed25519 b \<Rightarrow> if k_key_ok K b then Ok b else Err PE_Signature
       | Sum_Secp256k1 _ \<Rightarrow> Err PE_UnsupportedKey) (\<lambda>remote_pubkey.
     if \<not> k_sig_ok K (ras_sig auth_sig_msg) then Err PE_Signature
     else if k_verify K remote_pubkey
         (if has_transcript (hs_protocol_version h) then aas_sc_mac (hs_state h) else kdf_challenge (aas_kdf (hs_state h)))
         (ras_sig auth_sig_msg)
     then Ok (P2p_Ed25519 remote_pubkey) else Err PE_Signature))"

section \<open>Frames\<close>

definition tag_size :: nat where "tag_size = 16"
definition data_max_size :: nat where "data_max_size = 1024"
definition data_len_size :: nat where "data_len_size = 4"
definition total_frame_size :: nat where "total_frame_size = data_max_size + data_len_size"

record send_state =
  ss_cipher :: bytes
  ss_nonce :: nonce

record receive_state =
  rs_cipher :: bytes
  rs_nonce :: nonce
  rs_buffer :: bytes

text \<open>\<open>slice::chunks\<close>, for a positive size.\<close>

function chunks :: "nat \<Rightarrow> 'a list \<Rightarrow> 'a list list" where
  "chunks n xs = (if n = 0 \<or> xs = [] then [] else take n xs # chunks n (drop n xs))"
  by pat_completeness auto
termination by (relation "measure (\<lambda>(n, xs). length xs)") auto

declare chunks.simps [simp del]

definition encrypt :: "p2p_crypto \<Rightarrow> bytes \<Rightarrow> nonce \<Rightarrow> bytes \<Rightarrow> (p2p_error, bytes) result" where
  "encrypt K send_cipher send_nonce chunk =
     (if chunk = [] \<or> length chunk > total_frame_size - data_len_size then Panic
      else
        let frame = to_le_bytes data_len_size (length chunk) @ chunk @ replicate (data_max_size - length chunk) 0 in
        case k_encrypt K send_cipher send_nonce frame of
          None \<Rightarrow> Err PE_Aead
        | Some (ct, tag) \<Rightarrow> Ok (ct @ tag))"

definition decrypt :: "p2p_crypto \<Rightarrow> bytes \<Rightarrow> nonce \<Rightarrow> bytes \<Rightarrow> nat \<Rightarrow> (p2p_error, bytes) result" where
  "decrypt K recv_cipher recv_nonce ciphertext out_len =
     (if length ciphertext < tag_size then Err (PE_ShortCiphertext tag_size)
      else
        let ct = take (length ciphertext - tag_size) ciphertext; tag = drop (length ciphertext - tag_size) ciphertext in
        if out_len < length ct then Err PE_SmallOutputBuffer
        else ok_or PE_Aead (k_decrypt K recv_cipher recv_nonce ct tag))"

text \<open>The loop over the chunks of the data, over the transport and the sending state.\<close>

fun write_chunks ::
  "p2p_crypto \<Rightarrow> 'h io_ops \<Rightarrow> bytes list \<Rightarrow> nat \<Rightarrow> ('h \<times> send_state, pio_error, nat) call" where
  "write_chunks K ops [] n st = (st, Ok n)"
| "write_chunks K ops (chunk # rest) n (h, ss) =
     (case encrypt K (ss_cipher ss) (ss_nonce ss) chunk of
        Panic \<Rightarrow> ((h, ss), Panic)
      | Err e \<Rightarrow> ((h, ss), Err (PIO_Cipher e))
      | Ok sealed_frame \<Rightarrow>
          (case (nonce_increment (ss_nonce ss) :: (p2p_error, nonce) result) of
             Ok nonce \<Rightarrow>
               (case io_write_all ops sealed_frame h of
                  (h', Ok _) \<Rightarrow>
                    if n + length chunk < 2 ^ 64
                    then write_chunks K ops rest (n + length chunk) (h', ss\<lparr>ss_nonce := nonce\<rparr>)
                    else ((h', ss\<lparr>ss_nonce := nonce\<rparr>), Panic)
                | (h', Err e) \<Rightarrow> ((h', ss\<lparr>ss_nonce := nonce\<rparr>), Err e)
                | (h', Panic) \<Rightarrow> ((h', ss\<lparr>ss_nonce := nonce\<rparr>), Panic))
           | _ \<Rightarrow> ((h, ss), Panic)))"

definition encrypt_and_write :: "p2p_crypto \<Rightarrow> 'h io_ops \<Rightarrow> bytes \<Rightarrow> ('h \<times> send_state, pio_error, nat) call" where
  "encrypt_and_write K ops data = write_chunks K ops (chunks data_max_size data) 0"

text \<open>
  The caller's buffer is given by its length, and what is read into it is returned. Both uses of
  \<open>copy_from_slice\<close> panic when the two slices differ in length.
\<close>

definition read_and_decrypt :: "p2p_crypto \<Rightarrow> 'h io_ops \<Rightarrow> nat \<Rightarrow> ('h \<times> receive_state, pio_error, bytes) call" where
  "read_and_decrypt K ops data_len st =
     (case st of (h, rs) \<Rightarrow>
      if rs_buffer rs \<noteq> [] then
        (let n = min data_len (length (rs_buffer rs)) in
         if data_len \<noteq> n then (st, Panic)
         else ((h, rs\<lparr>rs_buffer := drop n (rs_buffer rs)\<rparr>), Ok (take n (rs_buffer rs))))
      else
        case io_read_exact ops (tag_size + total_frame_size) h of
          (h', Err e) \<Rightarrow> ((h', rs), Err e)
        | (h', Panic) \<Rightarrow> ((h', rs), Panic)
        | (h', Ok sealed_frame) \<Rightarrow>
            (case decrypt K (rs_cipher rs) (rs_nonce rs) sealed_frame total_frame_size of
               Err e \<Rightarrow> ((h', rs), Err (PIO_Cipher e))
             | Panic \<Rightarrow> ((h', rs), Panic)
             | Ok frame \<Rightarrow>
                 (case (nonce_increment (rs_nonce rs) :: (p2p_error, nonce) result) of
                    Ok nonce \<Rightarrow>
                      (let rs' = rs\<lparr>rs_nonce := nonce\<rparr>; chunk_length = from_le_bytes (take 4 frame) in
                       if chunk_length > data_max_size then ((h', rs'), Err (PIO_ChunkTooBig chunk_length))
                       else
                         let chunk = take chunk_length (drop data_len_size frame); n = min data_len (length chunk) in
                         if length (rs_buffer rs') \<noteq> length (drop n chunk) then ((h', rs'), Panic)
                         else ((h', rs'\<lparr>rs_buffer := drop n chunk\<rparr>), Ok (take n chunk)))
                  | _ \<Rightarrow> ((h', rs), Panic))))"

section \<open>The connection\<close>

record 'h secret_connection =
  sc_io_handler :: 'h
  sc_protocol_version :: p2p_version
  sc_remote_pubkey :: "p2p_public_key option"
  sc_send_state :: send_state
  sc_recv_state :: receive_state
  sc_terminate :: bool

text \<open>The macro \<open>checked_io\<close> around a call on a state that contains the flag.\<close>

definition checked_io ::
  "('s \<Rightarrow> bool) \<Rightarrow> ('s \<Rightarrow> 's) \<Rightarrow> ('s, pio_error, 'a) call \<Rightarrow> ('s, pio_error, 'a) call" where
  "checked_io terminated set_terminated f s =
     (if terminated s then (s, Err PIO_Terminated)
      else case f s of (s', Err e) \<Rightarrow> (set_terminated s', Err e) | r \<Rightarrow> r)"

definition sc_checked :: "('h secret_connection, pio_error, 'a) call \<Rightarrow> ('h secret_connection, pio_error, 'a) call" where
  "sc_checked = checked_io sc_terminate (\<lambda>c. c\<lparr>sc_terminate := True\<rparr>)"

definition sc_read :: "p2p_crypto \<Rightarrow> 'h io_ops \<Rightarrow> nat \<Rightarrow> ('h secret_connection, pio_error, bytes) call" where
  "sc_read K ops data_len = sc_checked (\<lambda>c.
     case read_and_decrypt K ops data_len (sc_io_handler c, sc_recv_state c) of
       ((h, rs), r) \<Rightarrow> (c\<lparr>sc_io_handler := h, sc_recv_state := rs\<rparr>, r))"

definition sc_write :: "p2p_crypto \<Rightarrow> 'h io_ops \<Rightarrow> bytes \<Rightarrow> ('h secret_connection, pio_error, nat) call" where
  "sc_write K ops data = sc_checked (\<lambda>c.
     case encrypt_and_write K ops data (sc_io_handler c, sc_send_state c) of
       ((h, ss), r) \<Rightarrow> (c\<lparr>sc_io_handler := h, sc_send_state := ss\<rparr>, r))"

definition sc_flush :: "'h io_ops \<Rightarrow> ('h secret_connection, pio_error, unit) call" where
  "sc_flush ops = sc_checked (\<lambda>c.
     case io_flush ops (sc_io_handler c) of (h, r) \<Rightarrow> (c\<lparr>sc_io_handler := h\<rparr>, r))"

definition remote_pubkey :: "'h secret_connection \<Rightarrow> ('e, p2p_public_key) result" where
  "remote_pubkey c = or_panic (sc_remote_pubkey c)"

text \<open>
  \<open>Write::write_all\<close> and \<open>Read::read_exact\<close> of the standard library over the two calls: both repeat
  the call on the rest, and give up when it makes no progress.
\<close>

function sc_write_all :: "p2p_crypto \<Rightarrow> 'h io_ops \<Rightarrow> bytes \<Rightarrow> ('h secret_connection, pio_error, unit) call" where
  "sc_write_all K ops data c =
     (if data = [] then (c, Ok ())
      else case sc_write K ops data c of
        (c', Ok n) \<Rightarrow> if n = 0 then (c', Err PIO_WriteZero) else sc_write_all K ops (drop n data) c'
      | (c', Err e) \<Rightarrow> (c', Err e)
      | (c', Panic) \<Rightarrow> (c', Panic))"
  by pat_completeness auto
termination by (relation "measure (\<lambda>(_, _, data, _). length data)") auto

function sc_read_exact :: "p2p_crypto \<Rightarrow> 'h io_ops \<Rightarrow> nat \<Rightarrow> ('h secret_connection, pio_error, bytes) call" where
  "sc_read_exact K ops n c =
     (if n = 0 then (c, Ok [])
      else case sc_read K ops n c of
        (c', Ok got) \<Rightarrow>
          if got = [] then (c', Err PIO_UnexpectedEof)
          else (case sc_read_exact K ops (n - length got) c' of
                  (c'', Ok rest) \<Rightarrow> (c'', Ok (got @ rest))
                | (c'', Err e) \<Rightarrow> (c'', Err e)
                | (c'', Panic) \<Rightarrow> (c'', Panic))
      | (c', Err e) \<Rightarrow> (c', Err e)
      | (c', Panic) \<Rightarrow> (c', Panic))"
  by pat_completeness auto
termination by (relation "measure (\<lambda>(_, _, n, _). n)") auto

declare sc_write_all.simps [simp del] sc_read_exact.simps [simp del]

definition map_io :: "('s, pio_error, 'a) call \<Rightarrow> ('s, p2p_error, 'a) call" where
  "map_io m s = (case m s of (s', r) \<Rightarrow> (s', map_err PE_Io r))"

definition share_eph_pubkey :: "'h io_ops \<Rightarrow> bytes \<Rightarrow> p2p_version \<Rightarrow> ('h, p2p_error, bytes) call" where
  "share_eph_pubkey ops local_eph_pubkey v =
     sbind (map_io (io_write_all ops (encode_initial_handshake v local_eph_pubkey))) (\<lambda>_.
     sbind (map_io (io_read_exact ops 1)) (\<lambda>response_len.
     sbind (map_io (io_read_exact ops (unat (hd response_len)))) (\<lambda>buf.
     lift (decode_initial_handshake v buf))))"

definition share_auth_signature ::
  "p2p_crypto \<Rightarrow> 'h io_ops \<Rightarrow> bytes \<Rightarrow> bytes \<Rightarrow> ('h secret_connection, p2p_error, raw_auth_sig_message) call" where
  "share_auth_signature K ops pubkey local_signature c =
     (let v = sc_protocol_version c in
      sbind (lift (encode_auth_signature K v pubkey local_signature)) (\<lambda>buf.
      sbind (map_io (sc_write_all K ops buf)) (\<lambda>_.
      sbind (map_io (sc_read_exact K ops (auth_sig_msg_response_len v))) (\<lambda>buf.
      lift (decode_auth_signature K v buf)))) c)"

text \<open>The connection before the peer is authenticated.\<close>

definition unauthenticated :: "p2p_version \<Rightarrow> awaiting_auth_sig handshake \<Rightarrow> 'h \<Rightarrow> 'h secret_connection" where
  "unauthenticated v h io =
     \<lparr>sc_io_handler = io, sc_protocol_version = v, sc_remote_pubkey = None,
      sc_send_state = \<lparr>ss_cipher = aas_send_cipher (hs_state h), ss_nonce = nonce_default\<rparr>,
      sc_recv_state = \<lparr>rs_cipher = aas_recv_cipher (hs_state h), rs_nonce = nonce_default, rs_buffer = []\<rparr>,
      sc_terminate = False\<rparr>"

text \<open>
  The transport is given to the connection. What was written to it stays written when the handshake
  fails, so it is returned beside the outcome.
\<close>

definition secret_connection_new ::
  "p2p_crypto \<Rightarrow> 'h io_ops \<Rightarrow> bytes \<Rightarrow> p2p_version \<Rightarrow> bytes \<Rightarrow> ('h, p2p_error, 'h secret_connection) call" where
  "secret_connection_new K ops local_privkey v local_eph_privkey =
     (let (h, local_eph_pubkey) = handshake_new K local_privkey v local_eph_privkey in
      sbind (share_eph_pubkey ops local_eph_pubkey v) (\<lambda>remote_eph_pubkey.
      sbind (lift (snd (got_key K remote_eph_pubkey h))) (\<lambda>h' io.
      let (c, r) = share_auth_signature K ops (k_verification_key K local_privkey)
            (aas_local_signature (hs_state h')) (unauthenticated v h' io) in
      (sc_io_handler c,
       and_then r (\<lambda>auth_sig_msg.
       and_then (got_signature K h' auth_sig_msg) (\<lambda>remote.
       Ok (c\<lparr>sc_remote_pubkey := Some remote\<rparr>)))))))"

section \<open>The two halves\<close>

text \<open>
  After \<open>split\<close> the sender and the receiver have their own states, share the transport and share the
  flag.
\<close>

record 'h halves =
  hv_io_handler :: 'h
  hv_remote_pubkey :: p2p_public_key
  hv_send_state :: send_state
  hv_recv_state :: receive_state
  hv_terminate :: bool

definition split_connection :: "'h io_ops \<Rightarrow> 'h secret_connection \<Rightarrow> (p2p_error, 'h halves) result" where
  "split_connection ops c =
     and_then (or_panic (sc_remote_pubkey c)) (\<lambda>pk.
     case io_clone_error ops (sc_io_handler c) of
       Some e \<Rightarrow> Err (PE_TransportClone e)
     | None \<Rightarrow> Ok \<lparr>hv_io_handler = sc_io_handler c, hv_remote_pubkey = pk, hv_send_state = sc_send_state c,
                   hv_recv_state = sc_recv_state c, hv_terminate = sc_terminate c\<rparr>)"

definition hv_checked :: "('h halves, pio_error, 'a) call \<Rightarrow> ('h halves, pio_error, 'a) call" where
  "hv_checked = checked_io hv_terminate (\<lambda>c. c\<lparr>hv_terminate := True\<rparr>)"

definition sender_write :: "p2p_crypto \<Rightarrow> 'h io_ops \<Rightarrow> bytes \<Rightarrow> ('h halves, pio_error, nat) call" where
  "sender_write K ops data = hv_checked (\<lambda>c.
     case encrypt_and_write K ops data (hv_io_handler c, hv_send_state c) of
       ((h, ss), r) \<Rightarrow> (c\<lparr>hv_io_handler := h, hv_send_state := ss\<rparr>, r))"

definition sender_flush :: "'h io_ops \<Rightarrow> ('h halves, pio_error, unit) call" where
  "sender_flush ops = hv_checked (\<lambda>c.
     case io_flush ops (hv_io_handler c) of (h, r) \<Rightarrow> (c\<lparr>hv_io_handler := h\<rparr>, r))"

definition receiver_read :: "p2p_crypto \<Rightarrow> 'h io_ops \<Rightarrow> nat \<Rightarrow> ('h halves, pio_error, bytes) call" where
  "receiver_read K ops data_len = hv_checked (\<lambda>c.
     case read_and_decrypt K ops data_len (hv_io_handler c, hv_recv_state c) of
       ((h, rs), r) \<Rightarrow> (c\<lparr>hv_io_handler := h, hv_recv_state := rs\<rparr>, r))"

end
