(* ===== verification/Secret_Connection_Lemmas.thy ===== *)
theory Secret_Connection_Lemmas
  imports Secret_Connection
begin

text \<open>
  The secret connection over an in-memory transport: counters as nonces, frames, what the reader gets,
  the agreement of the two ends of a handshake, and the flag that ends a connection. What the
  third-party code has to do for this is stated as one predicate per primitive.
\<close>

section \<open>Documented behaviour of the primitives\<close>

text \<open>Authenticated encryption of one frame with a nonce of twelve bytes, in place.\<close>

definition aead_law :: "p2p_crypto \<Rightarrow> bool" where
  "aead_law K \<longleftrightarrow>
     (\<forall>k n m. length n = nonce_size \<and> length m = total_frame_size \<longrightarrow>
        (\<exists>ct tag. k_encrypt K k n m = Some (ct, tag) \<and> length ct = length m \<and> length tag = tag_size
           \<and> k_decrypt K k n ct tag = Some m))"

text \<open>The Diffie-Hellman exchange, with public keys of 32 bytes.\<close>

definition dh_law :: "p2p_crypto \<Rightarrow> bool" where
  "dh_law K \<longleftrightarrow> (\<forall>a b. k_mult K a (k_base_mult K b) = k_mult K b (k_base_mult K a))
     \<and> (\<forall>a. length (k_base_mult K a) = 32)"

text \<open>Signatures verify under the key of the signer.\<close>

definition signature_law :: "p2p_crypto \<Rightarrow> bool" where
  "signature_law K \<longleftrightarrow> (\<forall>sk m. k_key_ok K (k_verification_key K sk) \<and> k_sig_ok K (k_sign K sk m)
     \<and> k_verify K (k_verification_key K sk) m (k_sign K sk m)
     \<and> length (k_verification_key K sk) = 32 \<and> length (k_sign K sk m) = 64)"

text \<open>
  The Protobuf form of an authentication message has 103 bytes and is read back. The versions before
  that use Amino, which takes the feature of that name; its form has 106 bytes.
\<close>

definition auth_sig_law :: "p2p_crypto \<Rightarrow> p2p_version \<Rightarrow> bool" where
  "auth_sig_law K v \<longleftrightarrow> (\<forall>pk sig. length pk = 32 \<and> length sig = 64 \<longrightarrow>
     (if is_protobuf v
      then let m = \<lparr>ras_pub_key = Some \<lparr>rpk_sum = Some (Sum_Ed25519 pk)\<rparr>, ras_sig = sig\<rparr> in
        length (k_encode_auth_sig K m) = 103 \<and> k_decode_auth_sig K (k_encode_auth_sig K m) = Some m
      else let m = amino_auth_sig_new pk sig in
        k_amino_feature K \<and> length (k_encode_amino K m) = 106 \<and> k_decode_amino K (k_encode_amino K m) = Some m))"

section \<open>An in-memory transport\<close>

record pipe =
  pp_in :: bytes
  pp_out :: bytes

definition pipe_ops :: "pipe io_ops" where
  "pipe_ops =
     \<lparr>io_write_all = (\<lambda>b p. (p\<lparr>pp_out := pp_out p @ b\<rparr>, Ok ())),
      io_read_exact = (\<lambda>n p. if length (pp_in p) < n then (p, Err PIO_UnexpectedEof)
                             else (p\<lparr>pp_in := drop n (pp_in p)\<rparr>, Ok (take n (pp_in p)))),
      io_flush = (\<lambda>p. (p, Ok ())),
      io_clone_error = (\<lambda>_. None)\<rparr>"

lemma pipe_write [simp]: "io_write_all pipe_ops b p = (p\<lparr>pp_out := pp_out p @ b\<rparr>, Ok ())"
  by (simp add: pipe_ops_def)

lemma pipe_read [simp]:
  "length b = n \<Longrightarrow> pp_in p = b @ rest \<Longrightarrow> io_read_exact pipe_ops n p = (p\<lparr>pp_in := rest\<rparr>, Ok b)"
  by (simp add: pipe_ops_def)

text \<open>
  A transport to a peer that acts on what it has received: \<open>reply w\<close> is everything the peer has sent once it
  has received \<open>w\<close>. What a write adds to the input is what the peer sends in reaction to it, so a read
  finds only what the peer could send before. A read of more than that, which would wait forever, fails.
\<close>

definition arrives :: "(bytes \<Rightarrow> bytes) \<Rightarrow> bytes \<Rightarrow> bytes \<Rightarrow> bytes" where
  "arrives reply out b = drop (length (reply out)) (reply (out @ b))"

definition facing_ops :: "(bytes \<Rightarrow> bytes) \<Rightarrow> pipe io_ops" where
  "facing_ops reply = pipe_ops\<lparr>io_write_all := (\<lambda>b p.
     (p\<lparr>pp_in := pp_in p @ arrives reply (pp_out p) b, pp_out := pp_out p @ b\<rparr>, Ok ()))\<rparr>"

definition facing :: "(bytes \<Rightarrow> bytes) \<Rightarrow> pipe" where
  "facing reply = \<lparr>pp_in = reply [], pp_out = []\<rparr>"

lemma facing_write [simp]:
  "io_write_all (facing_ops reply) b p = (p\<lparr>pp_in := pp_in p @ arrives reply (pp_out p) b, pp_out := pp_out p @ b\<rparr>, Ok ())"
  by (simp add: facing_ops_def)

lemma facing_read [simp]: "io_read_exact (facing_ops reply) = io_read_exact pipe_ops"
  by (simp add: facing_ops_def)

text \<open>A peer that has sent all it will send.\<close>

lemma facing_silent: "facing_ops (\<lambda>_. []) = pipe_ops"
  by (simp add: facing_ops_def pipe_ops_def arrives_def fun_eq_iff)

lemma pipe_read_short [simp]: "length (pp_in p) < n \<Longrightarrow> io_read_exact pipe_ops n p = (p, Err PIO_UnexpectedEof)"
  by (simp add: pipe_ops_def)

section \<open>Little-endian integers and nonces\<close>

lemma length_to_le_bytes [simp]: "length (to_le_bytes k n) = k"
  by (induction k arbitrary: n) auto

lemma from_to_le_bytes: "n < 256 ^ k \<Longrightarrow> from_le_bytes (to_le_bytes k n) = n"
proof (induction k arbitrary: n)
  case (Suc k)
  then have "n div 256 < 256 ^ k" by (simp add: less_mult_imp_div_less mult.commute)
  with Suc.IH show ?case by (simp add: unat_of_nat)
qed simp

lemma to_le_bytes_0: "to_le_bytes k 0 = replicate k 0"
  by (induction k) auto

lemma from_le_bytes_less: "from_le_bytes bs < 256 ^ length bs"
proof (induction bs)
  case (Cons b bs)
  have "unat b < 256" using unsigned_less [of b, where ?'a = nat] by simp
  with Cons show ?case by simp
qed simp

lemma counter_bytes: "c < 2 ^ 64 \<Longrightarrow> from_le_bytes (to_le_bytes 8 c) = c"
  by (rule from_to_le_bytes) simp

definition nonce_of :: "nat \<Rightarrow> nonce" where
  "nonce_of c = replicate 4 0 @ to_le_bytes 8 c"

lemma length_nonce_of [simp]: "length (nonce_of c) = nonce_size"
  by (simp add: nonce_of_def nonce_size_def)

lemma nonce_default_eq: "nonce_default = nonce_of 0"
  unfolding nonce_default_def nonce_of_def nonce_size_def to_le_bytes_0 by (subst replicate_add [symmetric]) simp

lemma nonce_of_inj: "nonce_of c = nonce_of d \<Longrightarrow> c < 2 ^ 64 \<Longrightarrow> d < 2 ^ 64 \<Longrightarrow> c = d"
  unfolding nonce_of_def by (metis counter_bytes same_append_eq)

lemma nonce_increment_of:
  assumes "c < 2 ^ 64"
  shows "nonce_increment (nonce_of c) = (if c + 1 < 2 ^ 64 then Ok (nonce_of (c + 1)) else Panic)"
proof -
  have "from_le_bytes (drop 4 (nonce_of c)) = c"
    by (simp add: nonce_of_def counter_bytes [OF assms])
  moreover have "unat (word_of_nat c :: u64) = c" using assms by (simp add: unat_of_nat)
  moreover have "unat (word_of_nat c + 1 :: u64) = c + 1" if "c + 1 < 2 ^ 64"
    using that calculation(2) by (subst unat_add_no_overflow) simp_all
  ultimately show ?thesis
    by (auto simp: nonce_increment_def checked_add_def Let_def nonce_of_def)
qed

section \<open>Chunks\<close>

lemma chunks_Nil [simp]: "chunks n [] = []"
  by (simp add: chunks.simps)

lemma concat_chunks: "0 < n \<Longrightarrow> concat (chunks n xs) = xs"
proof (induction n xs rule: chunks.induct)
  case (1 n xs)
  then show ?case by (subst chunks.simps) auto
qed

lemma chunks_bounds: "c \<in> set (chunks n xs) \<Longrightarrow> c \<noteq> [] \<and> length c \<le> n"
proof (induction n xs rule: chunks.induct)
  case (1 n xs)
  then show ?case by (subst (asm) (2) chunks.simps) (auto split: if_splits)
qed

lemma chunks_short: "xs \<noteq> [] \<Longrightarrow> length xs \<le> n \<Longrightarrow> chunks n xs = [xs]"
  by (subst chunks.simps, cases n) auto

definition frame_chunk :: "bytes \<Rightarrow> bool" where
  "frame_chunk c \<longleftrightarrow> c \<noteq> [] \<and> length c \<le> data_max_size"

lemma chunks_frame: "list_all frame_chunk (chunks data_max_size data)"
  using chunks_bounds [of _ data_max_size data] by (auto simp: list_all_iff frame_chunk_def)

section \<open>One frame\<close>

definition plain_frame :: "bytes \<Rightarrow> bytes" where
  "plain_frame chunk = to_le_bytes data_len_size (length chunk) @ chunk @ replicate (data_max_size - length chunk) 0"

definition seal :: "p2p_crypto \<Rightarrow> bytes \<Rightarrow> nonce \<Rightarrow> bytes \<Rightarrow> bytes" where
  "seal K key n chunk = (case k_encrypt K key n (plain_frame chunk) of Some (ct, tag) \<Rightarrow> ct @ tag | None \<Rightarrow> [])"

lemma length_plain_frame: "frame_chunk c \<Longrightarrow> length (plain_frame c) = total_frame_size"
  by (simp add: plain_frame_def frame_chunk_def total_frame_size_def)

lemma encrypt_frame:
  assumes "aead_law K" "frame_chunk chunk" "length n = nonce_size"
  shows "encrypt K key n chunk = Ok (seal K key n chunk)" "length (seal K key n chunk) = tag_size + total_frame_size"
proof -
  from assms(1,3) length_plain_frame [OF assms(2)] obtain ct tag where
      e: "k_encrypt K key n (plain_frame chunk) = Some (ct, tag)" "length ct = total_frame_size" "length tag = tag_size"
    unfolding aead_law_def by metis
  have "\<not> (chunk = [] \<or> length chunk > total_frame_size - data_len_size)"
    using assms(2) by (auto simp: frame_chunk_def total_frame_size_def)
  with e(1) show "encrypt K key n chunk = Ok (seal K key n chunk)"
    by (simp add: encrypt_def seal_def plain_frame_def Let_def)
  show "length (seal K key n chunk) = tag_size + total_frame_size" by (simp add: seal_def e)
qed

lemma decrypt_frame:
  assumes "aead_law K" "frame_chunk chunk" "length n = nonce_size"
  shows "decrypt K key n (seal K key n chunk) total_frame_size = Ok (plain_frame chunk)"
proof -
  from assms(1,3) length_plain_frame [OF assms(2)] obtain ct tag where
      e: "k_encrypt K key n (plain_frame chunk) = Some (ct, tag)" "length ct = total_frame_size" "length tag = tag_size"
      "k_decrypt K key n ct tag = Some (plain_frame chunk)"
    unfolding aead_law_def by metis
  then show ?thesis by (simp add: decrypt_def seal_def Let_def)
qed

lemma frame_content:
  assumes "frame_chunk chunk"
  shows "from_le_bytes (take 4 (plain_frame chunk)) = length chunk"
    "take (length chunk) (drop data_len_size (plain_frame chunk)) = chunk"
proof -
  have "length chunk < 256 ^ 4" using assms by (simp add: frame_chunk_def data_max_size_def)
  then show "from_le_bytes (take 4 (plain_frame chunk)) = length chunk"
    using from_to_le_bytes [of "length chunk" 4] by (simp add: plain_frame_def data_len_size_def)
  show "take (length chunk) (drop data_len_size (plain_frame chunk)) = chunk"
    by (simp add: plain_frame_def)
qed

section \<open>Writing and reading\<close>

text \<open>The frames of a list of chunks, sealed with consecutive nonces from a counter on.\<close>

fun frames :: "p2p_crypto \<Rightarrow> bytes \<Rightarrow> nat \<Rightarrow> bytes list \<Rightarrow> bytes" where
  "frames K key c [] = []"
| "frames K key c (chunk # rest) = seal K key (nonce_of c) chunk @ frames K key (c + 1) rest"

lemma write_chunks_pipe:
  assumes "aead_law K" "list_all frame_chunk cs" "ss_nonce ss = nonce_of c" "c + length cs < 2 ^ 64"
    "n + length (concat cs) < 2 ^ 64"
  shows "write_chunks K pipe_ops cs n (p, ss) =
    ((p\<lparr>pp_out := pp_out p @ frames K (ss_cipher ss) c cs\<rparr>, ss\<lparr>ss_nonce := nonce_of (c + length cs)\<rparr>),
     Ok (n + length (concat cs)))"
  using assms(2-)
proof (induction cs arbitrary: c n p ss)
  case Nil
  then show ?case by (cases ss) auto
next
  case (Cons chunk cs)
  then have fc: "frame_chunk chunk" and c: "c + 1 < 2 ^ 64" by auto
  have inc: "nonce_increment (nonce_of c) = (Ok (nonce_of (c + 1)) :: (p2p_error, _) result)"
    using nonce_increment_of [of c] c by simp
  note enc = encrypt_frame(1) [OF assms(1) fc length_nonce_of]
  define ss' p' where "ss' = ss\<lparr>ss_nonce := nonce_of (c + 1)\<rparr>"
    and "p' = p\<lparr>pp_out := pp_out p @ seal K (ss_cipher ss) (nonce_of c) chunk\<rparr>"
  have "n + length chunk < 2 ^ 64" using Cons.prems(4) by simp
  then have "write_chunks K pipe_ops (chunk # cs) n (p, ss) = write_chunks K pipe_ops cs (n + length chunk) (p', ss')"
    by (simp add: Cons.prems(2) enc inc ss'_def p'_def)
  also have "\<dots> = ((p'\<lparr>pp_out := pp_out p' @ frames K (ss_cipher ss') (c + 1) cs\<rparr>, ss'\<lparr>ss_nonce := nonce_of (c + 1 + length cs)\<rparr>),
     Ok (n + length chunk + length (concat cs)))"
    by (rule Cons.IH) (use Cons.prems in \<open>simp_all add: ss'_def\<close>)
  finally show ?case by (simp add: ss'_def p'_def add.assoc)
qed

text \<open>At the last counter the frame is sealed and not sent.\<close>

lemma write_chunks_last_nonce:
  assumes "aead_law K" "frame_chunk chunk" "ss_nonce ss = nonce_of (2 ^ 64 - 1)"
  shows "write_chunks K ops (chunk # cs) n (h, ss) = ((h, ss), Panic)"
  using encrypt_frame(1) [OF assms(1,2) length_nonce_of] nonce_increment_of [of "2 ^ 64 - 1", where 'a = p2p_error] assms(3)
  by simp

lemma read_frame:
  assumes "aead_law K" "frame_chunk chunk" "rs_nonce rs = nonce_of c" "c + 1 < 2 ^ 64" "rs_buffer rs = []"
    and "pp_in p = seal K (rs_cipher rs) (nonce_of c) chunk @ rest"
  shows "read_and_decrypt K pipe_ops data_len (p, rs) =
    (let st = (p\<lparr>pp_in := rest\<rparr>, rs\<lparr>rs_nonce := nonce_of (c + 1)\<rparr>) in
     if data_len < length chunk then (st, Panic) else (st, Ok chunk))"
proof -
  note enc = encrypt_frame(2) [OF assms(1,2) length_nonce_of]
  note dec = decrypt_frame [OF assms(1,2) length_nonce_of]
  have read: "io_read_exact pipe_ops (tag_size + total_frame_size) p
      = (p\<lparr>pp_in := rest\<rparr>, Ok (seal K (rs_cipher rs) (nonce_of c) chunk))"
    by (rule pipe_read [OF enc assms(6)])
  have inc: "nonce_increment (nonce_of c) = (Ok (nonce_of (c + 1)) :: (p2p_error, _) result)"
    using nonce_increment_of [of c] assms(4) by simp
  have "length chunk \<le> data_max_size" using assms(2) by (simp add: frame_chunk_def)
  then show ?thesis
    by (simp add: read_and_decrypt_def assms(3,5) read dec inc frame_content [OF assms(2)] Let_def min_def)
qed

section \<open>The data phase\<close>

text \<open>Writing a list of buffers and reading into a list of buffers of given sizes, each stopping at a failure.\<close>

fun sc_writes :: "p2p_crypto \<Rightarrow> 'h io_ops \<Rightarrow> bytes list \<Rightarrow> ('h secret_connection, pio_error, nat list) call" where
  "sc_writes K ops [] = lift (Ok [])"
| "sc_writes K ops (d # ds) = sbind (sc_write K ops d) (\<lambda>n. sbind (sc_writes K ops ds) (\<lambda>ns. lift (Ok (n # ns))))"

fun sc_reads :: "p2p_crypto \<Rightarrow> 'h io_ops \<Rightarrow> nat list \<Rightarrow> ('h secret_connection, pio_error, bytes list) call" where
  "sc_reads K ops [] = lift (Ok [])"
| "sc_reads K ops (n # ns) = sbind (sc_read K ops n) (\<lambda>b. sbind (sc_reads K ops ns) (\<lambda>bs. lift (Ok (b # bs))))"

text \<open>A connection that can send (receive) the frame of a counter next.\<close>

definition sending :: "nat \<Rightarrow> 'h secret_connection \<Rightarrow> bool" where
  "sending c sc \<longleftrightarrow> \<not> sc_terminate sc \<and> ss_nonce (sc_send_state sc) = nonce_of c"

definition receiving :: "nat \<Rightarrow> 'h secret_connection \<Rightarrow> bool" where
  "receiving c sc \<longleftrightarrow> \<not> sc_terminate sc \<and> rs_nonce (sc_recv_state sc) = nonce_of c \<and> rs_buffer (sc_recv_state sc) = []"

lemma frames_append: "frames K key c (as @ bs) = frames K key c as @ frames K key (c + length as) bs"
  by (induction as arbitrary: c) auto

lemma sc_write_eq:
  fixes sc :: "pipe secret_connection"
  assumes "aead_law K" "sending c sc" "c + length (chunks data_max_size d) < 2 ^ 64" "length d < 2 ^ 64"
  shows "sc_write K pipe_ops d sc =
    (sc\<lparr>sc_io_handler := (sc_io_handler sc)\<lparr>pp_out := pp_out (sc_io_handler sc)
           @ frames K (ss_cipher (sc_send_state sc)) c (chunks data_max_size d)\<rparr>,
        sc_send_state := (sc_send_state sc)\<lparr>ss_nonce := nonce_of (c + length (chunks data_max_size d))\<rparr>\<rparr>, Ok (length d))"
proof -
  have cc: "concat (chunks data_max_size d) = d" by (rule concat_chunks) (simp add: data_max_size_def)
  have "encrypt_and_write K pipe_ops d (sc_io_handler sc, sc_send_state sc) =
      (((sc_io_handler sc)\<lparr>pp_out := pp_out (sc_io_handler sc) @ frames K (ss_cipher (sc_send_state sc)) c (chunks data_max_size d)\<rparr>,
        (sc_send_state sc)\<lparr>ss_nonce := nonce_of (c + length (chunks data_max_size d))\<rparr>), Ok (length d))"
    unfolding encrypt_and_write_def
    using write_chunks_pipe [OF assms(1) chunks_frame _ assms(3), of "sc_send_state sc" 0 "sc_io_handler sc"] assms(2,4)
    by (simp add: cc sending_def)
  then show ?thesis using assms(2) by (simp add: sc_write_def sc_checked_def checked_io_def sending_def)
qed

lemma sc_write_pipe:
  fixes sc :: "pipe secret_connection"
  assumes "aead_law K" "sending c sc" "c + length (chunks data_max_size d) < 2 ^ 64" "length d < 2 ^ 64"
  shows "\<exists>sc'. sc_write K pipe_ops d sc = (sc', Ok (length d)) \<and> sending (c + length (chunks data_max_size d)) sc'
    \<and> pp_out (sc_io_handler sc') = pp_out (sc_io_handler sc) @ frames K (ss_cipher (sc_send_state sc)) c (chunks data_max_size d)
    \<and> ss_cipher (sc_send_state sc') = ss_cipher (sc_send_state sc)"
  using sc_write_eq [OF assms] assms(2) by (simp add: sending_def)

text \<open>The bytes on the wire after a list of writes.\<close>

lemma sc_writes_pipe:
  fixes sc :: "pipe secret_connection"
  assumes "aead_law K" "sending c sc" "c + length (concat (map (chunks data_max_size) ds)) < 2 ^ 64"
    "list_all (\<lambda>d. length d < 2 ^ 64) ds"
  shows "\<exists>sc'. sc_writes K pipe_ops ds sc = (sc', Ok (map length ds))
    \<and> sending (c + length (concat (map (chunks data_max_size) ds))) sc'
    \<and> pp_out (sc_io_handler sc') = pp_out (sc_io_handler sc)
        @ frames K (ss_cipher (sc_send_state sc)) c (concat (map (chunks data_max_size) ds))"
  using assms(2-)
proof (induction ds arbitrary: c sc)
  case (Cons d ds)
  define m where "m = length (chunks data_max_size d)"
  from Cons.prems obtain sc1 where w: "sc_write K pipe_ops d sc = (sc1, Ok (length d))" "sending (c + m) sc1"
      "pp_out (sc_io_handler sc1) = pp_out (sc_io_handler sc) @ frames K (ss_cipher (sc_send_state sc)) c (chunks data_max_size d)"
      "ss_cipher (sc_send_state sc1) = ss_cipher (sc_send_state sc)"
    using sc_write_pipe [OF assms(1) Cons.prems(1), of d] unfolding m_def by auto
  from Cons.IH [OF w(2)] Cons.prems(2,3) obtain sc' where "sc_writes K pipe_ops ds sc1 = (sc', Ok (map length ds))"
      "sending (c + m + length (concat (map (chunks data_max_size) ds))) sc'"
      "pp_out (sc_io_handler sc') = pp_out (sc_io_handler sc1)
        @ frames K (ss_cipher (sc_send_state sc1)) (c + m) (concat (map (chunks data_max_size) ds))"
    unfolding m_def by auto
  then show ?case by (simp add: sbind_def w frames_append m_def add.assoc)
qed simp

lemma sc_read_eq:
  fixes sc :: "pipe secret_connection"
  assumes "aead_law K" "receiving c sc" "c + 1 < 2 ^ 64" "frame_chunk chunk"
    and "pp_in (sc_io_handler sc) = seal K (rs_cipher (sc_recv_state sc)) (nonce_of c) chunk @ rest"
  shows "sc_read K pipe_ops n sc =
    (sc\<lparr>sc_io_handler := (sc_io_handler sc)\<lparr>pp_in := rest\<rparr>,
        sc_recv_state := (sc_recv_state sc)\<lparr>rs_nonce := nonce_of (c + 1)\<rparr>\<rparr>,
     if n < length chunk then Panic else Ok chunk)"
  using read_frame [OF assms(1,4) _ assms(3) _ assms(5), of n] assms(2)
  by (simp add: sc_read_def sc_checked_def checked_io_def receiving_def Let_def)

lemma sc_read_frame:
  fixes sc :: "pipe secret_connection"
  assumes "aead_law K" "receiving c sc" "c + 1 < 2 ^ 64" "frame_chunk chunk"
    and "pp_in (sc_io_handler sc) = seal K (rs_cipher (sc_recv_state sc)) (nonce_of c) chunk @ rest"
  shows "\<exists>sc'. sc_read K pipe_ops n sc = (sc', if n < length chunk then Panic else Ok chunk)
    \<and> receiving (c + 1) sc' \<and> pp_in (sc_io_handler sc') = rest \<and> rs_cipher (sc_recv_state sc') = rs_cipher (sc_recv_state sc)"
  using sc_read_eq [OF assms, of n] assms(2) by (simp add: receiving_def)

lemma sc_reads_frames:
  fixes sc :: "pipe secret_connection"
  assumes "aead_law K" "receiving c sc" "c + length cs < 2 ^ 64" "list_all frame_chunk cs"
    and "pp_in (sc_io_handler sc) = frames K (rs_cipher (sc_recv_state sc)) c cs @ rest"
    and "length ns = length cs" "list_all (\<lambda>n. data_max_size \<le> n) ns"
  shows "\<exists>sc'. sc_reads K pipe_ops ns sc = (sc', Ok cs) \<and> receiving (c + length cs) sc' \<and> pp_in (sc_io_handler sc') = rest"
  using assms(2-)
proof (induction cs arbitrary: c sc ns)
  case (Cons chunk cs)
  from Cons.prems(5) obtain n ns' where ns: "ns = n # ns'" by (cases ns) auto
  have fc: "frame_chunk chunk" using Cons.prems(3) by simp
  then have n: "\<not> n < length chunk" using Cons.prems(6) ns by (simp add: frame_chunk_def)
  have "c + 1 < 2 ^ 64" using Cons.prems(2) by simp
  from sc_read_frame [OF assms(1) Cons.prems(1) this fc, of "frames K (rs_cipher (sc_recv_state sc)) (c + 1) cs @ rest" n]
    Cons.prems(4) n obtain sc1 where r: "sc_read K pipe_ops n sc = (sc1, Ok chunk)" "receiving (c + 1) sc1"
      "pp_in (sc_io_handler sc1) = frames K (rs_cipher (sc_recv_state sc)) (c + 1) cs @ rest"
      "rs_cipher (sc_recv_state sc1) = rs_cipher (sc_recv_state sc)" by auto
  from Cons.IH [OF r(2), of ns'] Cons.prems(2,3,5,6) r(3,4) ns obtain sc' where
      "sc_reads K pipe_ops ns' sc1 = (sc', Ok cs)" "receiving (c + 1 + length cs) sc'" "pp_in (sc_io_handler sc') = rest"
    by auto
  then show ?case by (simp add: ns sbind_def r)
qed simp

section \<open>The leftover buffer\<close>

lemma read_and_decrypt_buffer:
  assumes "rs_buffer rs = []" "read_and_decrypt K ops n (h, rs) = ((h', rs'), r)"
  shows "rs_buffer rs' = []"
  using assms by (auto simp: read_and_decrypt_def Let_def split: prod.splits result.splits if_splits)

lemma sc_read_buffer: "preserves (\<lambda>sc. rs_buffer (sc_recv_state sc) = []) (sc_read K ops n)"
  unfolding preserves_def
proof (intro allI impI)
  fix sc :: "'a secret_connection"
  assume b: "rs_buffer (sc_recv_state sc) = []"
  obtain h rs r where run: "read_and_decrypt K ops n (sc_io_handler sc, sc_recv_state sc) = ((h, rs), r)"
    by (metis surj_pair)
  from read_and_decrypt_buffer [OF b this] b run show "rs_buffer (sc_recv_state (fst (sc_read K ops n sc))) = []"
    by (cases r) (simp_all add: sc_read_def sc_checked_def checked_io_def)
qed

section \<open>The flag\<close>

text \<open>A failed call sets the flag, a set flag makes every call fail at once, and nothing clears it.\<close>

locale terminable =
  fixes terminated :: "'s \<Rightarrow> bool"
    and set_terminated :: "'s \<Rightarrow> 's"
  assumes set_flag: "terminated (set_terminated s)"
begin

lemma refuses: "terminated s \<Longrightarrow> checked_io terminated set_terminated f s = (s, Err PIO_Terminated)"
  by (simp add: checked_io_def)

lemma sets: "checked_io terminated set_terminated f s = (s', Err e) \<Longrightarrow> terminated s'"
  by (auto simp: checked_io_def set_flag split: if_splits prod.splits result.splits)

lemma fails_for_good:
  "checked_io terminated set_terminated f s = (s', Err e) \<Longrightarrow> checked_io terminated set_terminated g s' = (s', Err PIO_Terminated)"
  by (rule refuses [OF sets])

end

text \<open>The connection and its two halves, which share one flag.\<close>

interpretation whole: terminable sc_terminate "\<lambda>c :: 'h secret_connection. c\<lparr>sc_terminate := True\<rparr>"
  by unfold_locales simp

interpretation shared: terminable hv_terminate "\<lambda>c :: 'h halves. c\<lparr>hv_terminate := True\<rparr>"
  by unfold_locales simp

section \<open>The handshake\<close>

definition shared_secret :: "p2p_crypto \<Rightarrow> bytes \<Rightarrow> bytes \<Rightarrow> bytes" where
  "shared_secret K a b = k_mult K a (k_base_mult K b)"

definition ephemeral_ok :: "p2p_crypto \<Rightarrow> bytes \<Rightarrow> bytes \<Rightarrow> bool" where
  "ephemeral_ok K a b \<longleftrightarrow> k_base_mult K a \<noteq> k_base_mult K b \<and> shared_secret K a b \<noteq> replicate 32 0
     \<and> \<not> is_low_order_point (k_base_mult K a) \<and> \<not> is_low_order_point (k_base_mult K b)"

text \<open>The state a side reaches that has the ephemeral secret \<open>a\<close> and the signing key \<open>sk\<close>, facing \<open>b\<close>.\<close>

definition agreed :: "p2p_crypto \<Rightarrow> p2p_version \<Rightarrow> bytes \<Rightarrow> bytes \<Rightarrow> bytes \<Rightarrow> awaiting_auth_sig handshake" where
  "agreed K v sk a b =
     (let pa = k_base_mult K a; pb = k_base_mult K b; kdf = derive_secrets_and_challenge K (shared_secret K a b) (pa < pb);
          mac = transcript_mac K (min pa pb) (max pa pb) (shared_secret K a b) in
      \<lparr>hs_protocol_version = v,
       hs_state = \<lparr>aas_sc_mac = mac, aas_kdf = kdf, aas_recv_cipher = kdf_recv_secret kdf,
         aas_send_cipher = kdf_send_secret kdf,
         aas_local_signature = k_sign K sk (if has_transcript v then mac else kdf_challenge kdf)\<rparr>\<rparr>)"

lemma got_key_agreed:
  assumes "ephemeral_ok K a b"
  shows "snd (got_key K (k_base_mult K b) (fst (handshake_new K sk v a))) = Ok (agreed K v sk a b)"
proof -
  have "k_base_mult K a < k_base_mult K b \<or> k_base_mult K b < k_base_mult K a"
    using assms by (auto simp: ephemeral_ok_def)
  then show ?thesis
    using assms by (auto simp: got_key_def handshake_new_def agreed_def ephemeral_ok_def shared_secret_def sort32_def
      Let_def min_def max_def dest: less_imp_not_less)
qed

lemma agreed_keys:
  assumes "dh_law K" "ephemeral_ok K a b"
  shows "aas_recv_cipher (hs_state (agreed K v sk a b)) = aas_send_cipher (hs_state (agreed K v sk' b a))"
    "aas_sc_mac (hs_state (agreed K v sk a b)) = aas_sc_mac (hs_state (agreed K v sk' b a))"
    "kdf_challenge (aas_kdf (hs_state (agreed K v sk a b))) = kdf_challenge (aas_kdf (hs_state (agreed K v sk' b a)))"
proof -
  have s: "shared_secret K a b = shared_secret K b a" using assms(1) by (simp add: dh_law_def shared_secret_def)
  have "k_base_mult K a < k_base_mult K b \<longleftrightarrow> \<not> k_base_mult K b < k_base_mult K a"
    using assms(2) by (auto simp: ephemeral_ok_def)
  then show "aas_recv_cipher (hs_state (agreed K v sk a b)) = aas_send_cipher (hs_state (agreed K v sk' b a))"
    "aas_sc_mac (hs_state (agreed K v sk a b)) = aas_sc_mac (hs_state (agreed K v sk' b a))"
    "kdf_challenge (aas_kdf (hs_state (agreed K v sk a b))) = kdf_challenge (aas_kdf (hs_state (agreed K v sk' b a)))"
    by (auto simp: agreed_def Let_def s derive_secrets_and_challenge_def min.commute max.commute)
qed

lemma ephemeral_ok_sym: "dh_law K \<Longrightarrow> ephemeral_ok K a b \<Longrightarrow> ephemeral_ok K b a"
  by (auto simp: ephemeral_ok_def dh_law_def shared_secret_def)

text \<open>The message a side sends to authenticate itself, and that the other side accepts it.\<close>

definition auth_message :: "p2p_crypto \<Rightarrow> bytes \<Rightarrow> awaiting_auth_sig handshake \<Rightarrow> raw_auth_sig_message" where
  "auth_message K sk h = \<lparr>ras_pub_key = Some \<lparr>rpk_sum = Some (Sum_Ed25519 (k_verification_key K sk))\<rparr>,
     ras_sig = aas_local_signature (hs_state h)\<rparr>"

lemma got_signature_agreed:
  assumes "dh_law K" "signature_law K" "ephemeral_ok K a b"
  shows "got_signature K (agreed K v sk a b) (auth_message K sk' (agreed K v sk' b a))
    = Ok (P2p_Ed25519 (k_verification_key K sk'))"
proof -
  have "aas_local_signature (hs_state (agreed K v sk' b a)) = k_sign K sk'
      (if has_transcript v then aas_sc_mac (hs_state (agreed K v sk' b a))
       else kdf_challenge (aas_kdf (hs_state (agreed K v sk' b a))))"
    by (simp add: agreed_def Let_def)
  moreover have "hs_protocol_version (agreed K v sk a b) = v" by (simp add: agreed_def Let_def)
  ultimately show ?thesis
    using assms(2) agreed_keys(2,3) [OF assms(1,3), of v sk sk']
    by (simp add: got_signature_def auth_message_def signature_law_def)
qed

text \<open>What a side writes during a handshake.\<close>

definition hello :: "p2p_crypto \<Rightarrow> p2p_version \<Rightarrow> bytes \<Rightarrow> bytes" where
  "hello K v a = encode_initial_handshake v (k_base_mult K a)"

definition auth_bytes :: "p2p_crypto \<Rightarrow> p2p_version \<Rightarrow> bytes \<Rightarrow> bytes \<Rightarrow> bytes \<Rightarrow> bytes" where
  "auth_bytes K v sk a b =
     (let h = agreed K v sk a b in
      if is_protobuf v then k_encode_auth_sig K (auth_message K sk h)
      else k_encode_amino K (amino_auth_sig_new (k_verification_key K sk) (aas_local_signature (hs_state h))))"

definition auth_frame :: "p2p_crypto \<Rightarrow> p2p_version \<Rightarrow> bytes \<Rightarrow> bytes \<Rightarrow> bytes \<Rightarrow> bytes" where
  "auth_frame K v sk a b = seal K (aas_send_cipher (hs_state (agreed K v sk a b))) (nonce_of 0) (auth_bytes K v sk a b)"

lemma auth_bytes_facts:
  assumes "signature_law K" "auth_sig_law K v"
  shows "length (auth_bytes K v sk a b) = auth_sig_msg_response_len v" "frame_chunk (auth_bytes K v sk a b)"
    "encode_auth_signature K v (k_verification_key K sk) (aas_local_signature (hs_state (agreed K v sk a b)))
      = Ok (auth_bytes K v sk a b)"
    "decode_auth_signature K v (auth_bytes K v sk a b) = Ok (auth_message K sk (agreed K v sk a b))"
proof -
  let ?sig = "aas_local_signature (hs_state (agreed K v sk a b))"
  obtain m where "?sig = k_sign K sk m" by (simp add: agreed_def Let_def)
  then have sizes: "length (k_verification_key K sk) = 32" "length ?sig = 64"
    using assms(1) by (simp_all add: signature_law_def)
  then have law: "if is_protobuf v
      then let m = auth_message K sk (agreed K v sk a b) in
        length (k_encode_auth_sig K m) = 103 \<and> k_decode_auth_sig K (k_encode_auth_sig K m) = Some m
      else let m = amino_auth_sig_new (k_verification_key K sk) ?sig in
        k_amino_feature K \<and> length (k_encode_amino K m) = 106 \<and> k_decode_amino K (k_encode_amino K m) = Some m"
    using assms(2) unfolding auth_sig_law_def auth_message_def by blast
  then show l: "length (auth_bytes K v sk a b) = auth_sig_msg_response_len v"
    by (simp add: auth_bytes_def auth_sig_msg_response_len_def Let_def split: if_splits)
  then show "frame_chunk (auth_bytes K v sk a b)"
    by (auto simp: frame_chunk_def data_max_size_def auth_sig_msg_response_len_def split: if_splits)
  show "encode_auth_signature K v (k_verification_key K sk) ?sig = Ok (auth_bytes K v sk a b)"
    using law by (simp add: encode_auth_signature_def encode_auth_signature_amino_def auth_bytes_def auth_message_def Let_def
        split: if_splits)
  have "amino_auth_sig_try_into (amino_auth_sig_new (k_verification_key K sk) ?sig) = Ok (auth_message K sk (agreed K v sk a b))"
    by (simp add: amino_auth_sig_try_into_def amino_auth_sig_new_def amino_prefix_def auth_message_def)
  then show "decode_auth_signature K v (auth_bytes K v sk a b) = Ok (auth_message K sk (agreed K v sk a b))"
    using law by (simp add: decode_auth_signature_def decode_auth_signature_amino_def auth_bytes_def Let_def split: if_splits)
qed

text \<open>The first exchange: writing, then reading what the peer sends, as far as it does.\<close>

lemma hello_parts:
  assumes "dh_law K" "ephemeral_ok K a b"
  obtains n body where "hello K v b = n # body" "length body = unat n" "decode_initial_handshake v body = Ok (k_base_mult K b)"
proof -
  have len: "length (k_base_mult K b) = 32" using assms(1) by (simp add: dh_law_def)
  have low: "\<not> is_low_order_point (k_base_mult K b)" using assms(2) by (simp add: ephemeral_ok_def)
  show ?thesis
  proof (cases "is_protobuf v")
    case True
    then show ?thesis
      by (intro that [of "0x22" "[0x0a, 0x20] @ k_base_mult K b"])
        (simp_all add: hello_def encode_initial_handshake_def decode_initial_handshake_def len low)
  next
    case False
    then show ?thesis
      by (intro that [of "33" "32 # k_base_mult K b"])
        (simp_all add: hello_def encode_initial_handshake_def decode_initial_handshake_def len low)
  qed
qed

lemma share_eph_pubkey_facing:
  assumes "dh_law K" "ephemeral_ok K a b"
    and "pp_in p @ arrives reply (pp_out p) (hello K v a) = hello K v b @ rest"
  shows "share_eph_pubkey (facing_ops reply) (k_base_mult K a) v p
    = (p\<lparr>pp_in := rest, pp_out := pp_out p @ hello K v a\<rparr>, Ok (k_base_mult K b))"
proof -
  obtain n body where h: "hello K v b = n # body" "length body = unat n" "decode_initial_handshake v body = Ok (k_base_mult K b)"
    by (rule hello_parts [OF assms(1,2)])
  define q where "q = p\<lparr>pp_in := hello K v b @ rest, pp_out := pp_out p @ hello K v a\<rparr>"
  have w: "io_write_all (facing_ops reply) (encode_initial_handshake v (k_base_mult K a)) p = (q, Ok ())"
    using assms(3) by (simp add: q_def flip: hello_def)
  have r1: "io_read_exact pipe_ops 1 q = (q\<lparr>pp_in := body @ rest\<rparr>, Ok [n])"
    by (rule pipe_read) (simp_all add: q_def h(1))
  have r2: "io_read_exact pipe_ops (unat n) (q\<lparr>pp_in := body @ rest\<rparr>) = (q\<lparr>pp_in := rest\<rparr>, Ok body)"
    by (subst pipe_read [of body]) (simp_all add: h(2))
  show ?thesis
    by (simp add: share_eph_pubkey_def sbind_def map_io_def w r1 r2 h(3) del: facing_write One_nat_def) (simp add: q_def)
qed

lemma share_eph_pubkey_blocked:
  assumes "pp_in p = []"
  shows "share_eph_pubkey pipe_ops (k_base_mult K a) v p = (p\<lparr>pp_out := pp_out p @ hello K v a\<rparr>, Err (PE_Io PIO_UnexpectedEof))"
  using assms by (simp add: share_eph_pubkey_def sbind_def map_io_def hello_def)

text \<open>The second exchange, one frame in each direction.\<close>

lemma sc_write_frame:
  fixes sc :: "pipe secret_connection"
  assumes "aead_law K" "sending c sc" "c + 1 < 2 ^ 64" "frame_chunk d"
    and "f = seal K (ss_cipher (sc_send_state sc)) (nonce_of c) d" "io = sc_io_handler sc"
  shows "sc_write_all K (facing_ops reply) d sc =
    (sc\<lparr>sc_io_handler := io\<lparr>pp_in := pp_in io @ arrives reply (pp_out io) f, pp_out := pp_out io @ f\<rparr>,
        sc_send_state := (sc_send_state sc)\<lparr>ss_nonce := nonce_of (c + 1)\<rparr>\<rparr>, Ok ())"
proof -
  have d: "d \<noteq> []" "length d \<le> data_max_size" using assms(4) by (simp_all add: frame_chunk_def)
  have inc: "nonce_increment (nonce_of c) = (Ok (nonce_of (c + 1)) :: (p2p_error, _) result)"
    using nonce_increment_of [of c] assms(3) by simp
  have "length d < 2 ^ 64" using d(2) by (simp add: data_max_size_def)
  then have "sc_write K (facing_ops reply) d sc =
    (sc\<lparr>sc_io_handler := io\<lparr>pp_in := pp_in io @ arrives reply (pp_out io) f, pp_out := pp_out io @ f\<rparr>,
        sc_send_state := (sc_send_state sc)\<lparr>ss_nonce := nonce_of (c + 1)\<rparr>\<rparr>, Ok (length d))"
    using assms(2) encrypt_frame(1) [OF assms(1,4) length_nonce_of]
    by (simp add: sc_write_def sc_checked_def checked_io_def sending_def encrypt_and_write_def chunks_short [OF d] inc assms(5,6))
  then show ?thesis using d(1) by (subst sc_write_all.simps) (simp add: sc_write_all.simps [of _ _ "[]"])
qed

lemma sc_read_facing: "sc_read K (facing_ops reply) = sc_read K pipe_ops"
  unfolding sc_read_def [abs_def] read_and_decrypt_def facing_read ..

lemma sc_read_exact_frame:
  fixes sc :: "pipe secret_connection"
  assumes "aead_law K" "receiving c sc" "c + 1 < 2 ^ 64" "frame_chunk d"
    and "pp_in (sc_io_handler sc) = seal K (rs_cipher (sc_recv_state sc)) (nonce_of c) d @ rest"
  shows "sc_read_exact K (facing_ops reply) (length d) sc =
    (sc\<lparr>sc_io_handler := (sc_io_handler sc)\<lparr>pp_in := rest\<rparr>,
        sc_recv_state := (sc_recv_state sc)\<lparr>rs_nonce := nonce_of (c + 1)\<rparr>\<rparr>, Ok d)"
  using assms(4) sc_read_eq [OF assms, of "length d"]
  by (subst sc_read_exact.simps) (simp add: sc_read_facing frame_chunk_def sc_read_exact.simps [of _ _ 0])

lemma sc_read_exact_blocked:
  fixes sc :: "pipe secret_connection"
  assumes "receiving c sc" "pp_in (sc_io_handler sc) = []" "0 < n"
  shows "sc_read_exact K pipe_ops n sc = (sc\<lparr>sc_terminate := True\<rparr>, Err PIO_UnexpectedEof)"
proof -
  have "sc_read K pipe_ops n sc = (sc\<lparr>sc_terminate := True\<rparr>, Err PIO_UnexpectedEof)"
    using assms(1,2)
    by (simp add: sc_read_def sc_checked_def checked_io_def receiving_def read_and_decrypt_def tag_size_def)
  then show ?thesis using assms(3) by (subst sc_read_exact.simps) simp
qed

text \<open>The state of a side after the first exchange, before and after it has authenticated itself.\<close>

abbreviation ready :: "p2p_crypto \<Rightarrow> p2p_version \<Rightarrow> bytes \<Rightarrow> bytes \<Rightarrow> bytes \<Rightarrow> pipe \<Rightarrow> pipe secret_connection" where
  "ready K v sk a b io \<equiv> unauthenticated v (agreed K v sk a b) io"

lemma ready_facts:
  "sending 0 (ready K v sk a b io)" "receiving 0 (ready K v sk a b io)" "sc_protocol_version (ready K v sk a b io) = v"
  "ss_cipher (sc_send_state (ready K v sk a b io)) = aas_send_cipher (hs_state (agreed K v sk a b))"
  "sc_io_handler (ready K v sk a b io) = io"
  by (simp_all add: unauthenticated_def sending_def receiving_def nonce_default_eq)

lemma share_auth_signature_written:
  fixes io :: pipe
  assumes "aead_law K" "signature_law K" "auth_sig_law K v"
  shows "sc_write_all K (facing_ops reply) (auth_bytes K v sk a b) (ready K v sk a b io)
    = ((ready K v sk a b (io\<lparr>pp_in := pp_in io @ arrives reply (pp_out io) (auth_frame K v sk a b),
          pp_out := pp_out io @ auth_frame K v sk a b\<rparr>))
        \<lparr>sc_send_state := \<lparr>ss_cipher = aas_send_cipher (hs_state (agreed K v sk a b)), ss_nonce = nonce_of 1\<rparr>\<rparr>, Ok ())"
  by (subst sc_write_frame [OF assms(1) ready_facts(1) _ auth_bytes_facts(2) [OF assms(2,3)] refl refl])
    (simp_all add: ready_facts(4,5) auth_frame_def, simp add: unauthenticated_def)

lemma share_auth_signature_facing:
  fixes io :: pipe
  assumes "aead_law K" "dh_law K" "signature_law K" "auth_sig_law K v" "ephemeral_ok K a b"
    and "pp_in io @ arrives reply (pp_out io) (auth_frame K v sk a b) = auth_frame K v sk' b a @ rest"
  shows "share_auth_signature K (facing_ops reply) (k_verification_key K sk) (aas_local_signature (hs_state (agreed K v sk a b)))
      (ready K v sk a b io)
    = ((ready K v sk a b \<lparr>pp_in = rest, pp_out = pp_out io @ auth_frame K v sk a b\<rparr>)
        \<lparr>sc_send_state := \<lparr>ss_cipher = aas_send_cipher (hs_state (agreed K v sk a b)), ss_nonce = nonce_of 1\<rparr>,
         sc_recv_state := \<lparr>rs_cipher = aas_send_cipher (hs_state (agreed K v sk' b a)), rs_nonce = nonce_of 1, rs_buffer = []\<rparr>\<rparr>,
       Ok (auth_message K sk' (agreed K v sk' b a)))"
proof -
  note own = auth_bytes_facts [OF assms(3,4), of sk a b] and peer = auth_bytes_facts [OF assms(3,4), of sk' b a]
  note key = agreed_keys(1) [OF assms(2,5), of v sk sk']
  define sc where "sc = (ready K v sk a b (io\<lparr>pp_in := auth_frame K v sk' b a @ rest, pp_out := pp_out io @ auth_frame K v sk a b\<rparr>))
        \<lparr>sc_send_state := \<lparr>ss_cipher = aas_send_cipher (hs_state (agreed K v sk a b)), ss_nonce = nonce_of 1\<rparr>\<rparr>"
  have w: "sc_write_all K (facing_ops reply) (auth_bytes K v sk a b) (ready K v sk a b io) = (sc, Ok ())"
    using share_auth_signature_written [OF assms(1,3,4), of reply sk a b io] assms(6) by (simp add: sc_def)
  have "receiving 0 sc" "pp_in (sc_io_handler sc) = seal K (rs_cipher (sc_recv_state sc)) (nonce_of 0) (auth_bytes K v sk' b a) @ rest"
    using ready_facts(2) by (simp_all add: sc_def receiving_def auth_frame_def unauthenticated_def key)
  from sc_read_exact_frame [OF assms(1) this(1) _ peer(2) this(2), of reply]
  have r: "sc_read_exact K (facing_ops reply) (auth_sig_msg_response_len v) sc
      = (sc\<lparr>sc_io_handler := (sc_io_handler sc)\<lparr>pp_in := rest\<rparr>,
          sc_recv_state := (sc_recv_state sc)\<lparr>rs_nonce := nonce_of 1\<rparr>\<rparr>, Ok (auth_bytes K v sk' b a))"
    by (simp add: peer(1))
  show ?thesis
    by (simp add: share_auth_signature_def ready_facts(3) sbind_def own(3) map_io_def w r peer(4))
      (simp add: sc_def unauthenticated_def nonce_default_eq key)
qed

lemma share_auth_signature_blocked:
  assumes "aead_law K" "signature_law K" "auth_sig_law K v" "pp_in io = []"
  shows "\<exists>sc e. share_auth_signature K pipe_ops (k_verification_key K sk) (aas_local_signature (hs_state (agreed K v sk a b)))
      (ready K v sk a b io) = (sc, Err e) \<and> sc_io_handler sc = io\<lparr>pp_out := pp_out io @ auth_frame K v sk a b\<rparr>"
proof -
  note own = auth_bytes_facts [OF assms(2,3), of sk a b]
  define sc where "sc = (ready K v sk a b (io\<lparr>pp_out := pp_out io @ auth_frame K v sk a b\<rparr>))
        \<lparr>sc_send_state := \<lparr>ss_cipher = aas_send_cipher (hs_state (agreed K v sk a b)), ss_nonce = nonce_of 1\<rparr>\<rparr>"
  have w: "sc_write_all K pipe_ops (auth_bytes K v sk a b) (ready K v sk a b io) = (sc, Ok ())"
    using share_auth_signature_written [OF assms(1-3), of "\<lambda>_. []" sk a b io] assms(4)
    by (cases io) (simp add: facing_silent arrives_def sc_def)
  have "receiving 0 sc" "pp_in (sc_io_handler sc) = []" "0 < auth_sig_msg_response_len v"
    using ready_facts(2) assms(4) by (simp_all add: sc_def receiving_def unauthenticated_def auth_sig_msg_response_len_def)
  from sc_read_exact_blocked [OF this] show ?thesis
    by (simp add: share_auth_signature_def ready_facts(3) sbind_def own(3) map_io_def w)
      (simp add: sc_def unauthenticated_def)
qed

section \<open>The whole handshake\<close>

lemma handshake_new_eq: "handshake_new K sk v a = (fst (handshake_new K sk v a), k_base_mult K a)"
  by (simp add: handshake_new_def)

text \<open>
  A side faces a peer that sends its first message by the time it has received ours, and its second by
  the time it has received our second.
\<close>

lemma secret_connection_new_facing:
  assumes "aead_law K" "dh_law K" "signature_law K" "auth_sig_law K v" "ephemeral_ok K a b"
    and "pp_in p @ arrives reply (pp_out p) (hello K v a) = hello K v b @ x"
    and "x @ arrives reply (pp_out p @ hello K v a) (auth_frame K v sk a b) = auth_frame K v sk' b a @ rest"
    and "io = \<lparr>pp_in = rest, pp_out = pp_out p @ hello K v a @ auth_frame K v sk a b\<rparr>"
  shows "secret_connection_new K (facing_ops reply) sk v a p
    = (io, Ok \<lparr>sc_io_handler = io, sc_protocol_version = v,
          sc_remote_pubkey = Some (P2p_Ed25519 (k_verification_key K sk')),
          sc_send_state = \<lparr>ss_cipher = aas_send_cipher (hs_state (agreed K v sk a b)), ss_nonce = nonce_of 1\<rparr>,
          sc_recv_state = \<lparr>rs_cipher = aas_send_cipher (hs_state (agreed K v sk' b a)), rs_nonce = nonce_of 1, rs_buffer = []\<rparr>,
          sc_terminate = False\<rparr>)"
proof -
  note eph = share_eph_pubkey_facing [OF assms(2,5,6)] and key = got_key_agreed [OF assms(5), of sk v]
  have io: "pp_in (p\<lparr>pp_in := x, pp_out := pp_out p @ hello K v a\<rparr>)
      @ arrives reply (pp_out (p\<lparr>pp_in := x, pp_out := pp_out p @ hello K v a\<rparr>)) (auth_frame K v sk a b)
      = auth_frame K v sk' b a @ rest" using assms(7) by simp
  note auth = share_auth_signature_facing [OF assms(1-5) io]
  show ?thesis
    unfolding secret_connection_new_def
    by (subst handshake_new_eq) (simp add: sbind_def eph key auth got_signature_agreed [OF assms(2,3,5)] assms(8),
        simp add: unauthenticated_def)
qed

text \<open>Over a pipe that holds everything the peer will send.\<close>

lemma secret_connection_new_pipe:
  assumes "aead_law K" "dh_law K" "signature_law K" "auth_sig_law K v" "ephemeral_ok K a b"
  shows "\<exists>sc. secret_connection_new K pipe_ops sk v a \<lparr>pp_in = hello K v b @ auth_frame K v sk' b a, pp_out = []\<rparr>
    = (\<lparr>pp_in = [], pp_out = hello K v a @ auth_frame K v sk a b\<rparr>, Ok sc)"
  using secret_connection_new_facing [OF assms, of "\<lparr>pp_in = hello K v b @ auth_frame K v sk' b a, pp_out = []\<rparr>" "\<lambda>_. []"
      "auth_frame K v sk' b a" sk sk' "[]"]
  by (simp add: facing_silent arrives_def)

text \<open>What a side has sent once it has received the given bytes, whether it goes on or waits for more.\<close>

definition peer_output :: "p2p_crypto \<Rightarrow> p2p_version \<Rightarrow> bytes \<Rightarrow> bytes \<Rightarrow> bytes \<Rightarrow> bytes" where
  "peer_output K v sk a received = pp_out (fst (secret_connection_new K pipe_ops sk v a \<lparr>pp_in = received, pp_out = []\<rparr>))"

lemma peer_output_steps:
  assumes "aead_law K" "dh_law K" "signature_law K" "auth_sig_law K v" "ephemeral_ok K a b"
  shows "peer_output K v sk a [] = hello K v a"
    "peer_output K v sk a (hello K v b) = hello K v a @ auth_frame K v sk a b"
    "peer_output K v sk a (hello K v b @ auth_frame K v sk' b a) = hello K v a @ auth_frame K v sk a b"
proof -
  show "peer_output K v sk a [] = hello K v a"
    unfolding peer_output_def secret_connection_new_def
    by (subst handshake_new_eq) (simp add: sbind_def share_eph_pubkey_blocked)
  have eph: "share_eph_pubkey pipe_ops (k_base_mult K a) v \<lparr>pp_in = hello K v b, pp_out = []\<rparr>
      = (\<lparr>pp_in = [], pp_out = hello K v a\<rparr>, Ok (k_base_mult K b))"
    using share_eph_pubkey_facing [OF assms(2,5), of "\<lparr>pp_in = hello K v b, pp_out = []\<rparr>" "\<lambda>_. []" v "[]"]
    by (simp add: facing_silent arrives_def)
  obtain sc e where "share_auth_signature K pipe_ops (k_verification_key K sk) (aas_local_signature (hs_state (agreed K v sk a b)))
      (ready K v sk a b \<lparr>pp_in = [], pp_out = hello K v a\<rparr>) = (sc, Err e)"
      "sc_io_handler sc = \<lparr>pp_in = [], pp_out = hello K v a @ auth_frame K v sk a b\<rparr>"
    using share_auth_signature_blocked [OF assms(1,3,4), of "\<lparr>pp_in = [], pp_out = hello K v a\<rparr>" sk a b] by auto
  then show "peer_output K v sk a (hello K v b) = hello K v a @ auth_frame K v sk a b"
    unfolding peer_output_def secret_connection_new_def
    by (subst handshake_new_eq) (simp add: sbind_def eph got_key_agreed [OF assms(5)])
  show "peer_output K v sk a (hello K v b @ auth_frame K v sk' b a) = hello K v a @ auth_frame K v sk a b"
    using secret_connection_new_pipe [OF assms, of sk sk'] by (auto simp: peer_output_def)
qed

text \<open>One side of a handshake between two peers that both follow the protocol.\<close>

lemma secret_connection_new_peer:
  assumes "aead_law K" "dh_law K" "signature_law K" "auth_sig_law K v" "ephemeral_ok K a b"
    and "io = \<lparr>pp_in = [], pp_out = hello K v a @ auth_frame K v sk a b\<rparr>" "peer = peer_output K v sk' b"
  shows "secret_connection_new K (facing_ops peer) sk v a (facing peer)
    = (io, Ok \<lparr>sc_io_handler = io, sc_protocol_version = v,
          sc_remote_pubkey = Some (P2p_Ed25519 (k_verification_key K sk')),
          sc_send_state = \<lparr>ss_cipher = aas_send_cipher (hs_state (agreed K v sk a b)), ss_nonce = nonce_of 1\<rparr>,
          sc_recv_state = \<lparr>rs_cipher = aas_send_cipher (hs_state (agreed K v sk' b a)), rs_nonce = nonce_of 1, rs_buffer = []\<rparr>,
          sc_terminate = False\<rparr>)"
proof -
  note steps = peer_output_steps [OF assms(1-4) ephemeral_ok_sym [OF assms(2,5)], of sk']
  show ?thesis
    unfolding assms(7)
    by (rule secret_connection_new_facing [OF assms(1-5), where x = "auth_frame K v sk' b a" and rest = "[]"])
      (simp_all add: facing_def arrives_def steps assms(6))
qed

text \<open>What an established connection says about its peer, whatever the transport and the peer did.\<close>

lemma got_signature_Ok:
  "got_signature K h m = Ok pk \<longleftrightarrow>
     (\<exists>b. pk = P2p_Ed25519 b \<and> Option.bind (ras_pub_key m) rpk_sum = Some (Sum_Ed25519 b) \<and> k_key_ok K b
        \<and> k_sig_ok K (ras_sig m)
        \<and> k_verify K b (if has_transcript (hs_protocol_version h) then aas_sc_mac (hs_state h)
            else kdf_challenge (aas_kdf (hs_state h))) (ras_sig m))"
proof (cases "Option.bind (ras_pub_key m) rpk_sum")
  case (Some s)
  then show ?thesis by (cases s) (auto simp: got_signature_def)
qed (simp add: got_signature_def)

lemma decode_initial_handshake_Ok:
  "decode_initial_handshake v b = Ok pk \<Longrightarrow> length pk = 32 \<and> \<not> is_low_order_point pk"
  by (auto simp: decode_initial_handshake_def result_simps split: if_splits)

lemma got_key_Ok:
  assumes "snd (got_key K pb (fst (handshake_new K sk v a))) = Ok h"
  shows "k_mult K a pb \<noteq> replicate 32 0" "hs_protocol_version h = v"
    "aas_sc_mac (hs_state h) = transcript_mac K (min (k_base_mult K a) pb) (max (k_base_mult K a) pb) (k_mult K a pb)"
    "kdf_challenge (aas_kdf (hs_state h)) = take 32 (drop 64 (k_hkdf K (k_mult K a pb) hkdf_info))"
  using assms
  by (auto simp: got_key_def handshake_new_def sort32_def Let_def derive_secrets_and_challenge_def min_def max_def
      split: if_splits prod.splits)

lemma secret_connection_new_Ok:
  assumes "secret_connection_new K ops sk v a io = (io', Ok sc)"
  obtains pb h m pk where "length pb = 32" "\<not> is_low_order_point pb"
    "snd (got_key K pb (fst (handshake_new K sk v a))) = Ok h" "got_signature K h m = Ok pk" "sc_remote_pubkey sc = Some pk"
proof -
  obtain io1 r where e: "share_eph_pubkey ops (k_base_mult K a) v io = (io1, r)" by force
  from assms obtain pb h where pb: "r = Ok pb" "snd (got_key K pb (fst (handshake_new K sk v a))) = Ok h"
    unfolding secret_connection_new_def by (subst (asm) handshake_new_eq) (auto simp: sbind_Ok e)
  obtain c r' where s: "share_auth_signature K ops (k_verification_key K sk) (aas_local_signature (hs_state h))
      (unauthenticated v h io1) = (c, r')" by force
  from assms obtain m pk where "r' = Ok m" "got_signature K h m = Ok pk" "sc = c\<lparr>sc_remote_pubkey := Some pk\<rparr>"
    unfolding secret_connection_new_def by (subst (asm) handshake_new_eq) (auto simp: sbind_def e pb s and_then_eq_Ok)
  moreover from e pb(1) obtain buf where "decode_initial_handshake v buf = Ok pb"
    by (auto simp: share_eph_pubkey_def sbind_Ok)
  ultimately show ?thesis using that pb(2) decode_initial_handshake_Ok by fastforce
qed

end
