(* ===== verification/P2p_Properties.thy ===== *)
theory P2p_Properties
  imports Secret_Connection_Lemmas
begin

text \<open>
  The properties of the \<open>p2p\<close> crate: two peers that follow the protocol end up with a working
  connection, an established connection has authenticated its peer, what is written arrives, nonces
  are never reused, and how a connection ends.
\<close>

section \<open>Sample primitives\<close>

definition sample_crypto :: p2p_crypto where
  "sample_crypto =
     \<lparr>k_base_mult = (\<lambda>a. take 32 (a @ replicate 32 5)), k_mult = (\<lambda>a p. replicate 32 7), k_hkdf = (\<lambda>s i. replicate 96 3),
      k_transcript = (\<lambda>l ms c. replicate 32 2), k_verification_key = (\<lambda>sk. take 32 (sk @ replicate 32 4)),
      k_sign = (\<lambda>sk m. replicate 64 1), k_key_ok = (\<lambda>_. True), k_sig_ok = (\<lambda>_. True),
      k_verify = (\<lambda>pk m s. s = replicate 64 1), k_sha256 = (\<lambda>b. replicate 32 8),
      k_encrypt = (\<lambda>k n m. Some (m, replicate 16 0)), k_decrypt = (\<lambda>k n ct tag. Some ct),
      k_encode_auth_sig = (\<lambda>m. case ras_pub_key m of
         Some k \<Rightarrow> (case rpk_sum k of Some (Sum_Ed25519 pk) \<Rightarrow> pk @ ras_sig m @ replicate 7 0 | _ \<Rightarrow> []) | None \<Rightarrow> []),
      k_decode_auth_sig = (\<lambda>b. Some \<lparr>ras_pub_key = Some \<lparr>rpk_sum = Some (Sum_Ed25519 (take 32 b))\<rparr>,
         ras_sig = take 64 (drop 32 b)\<rparr>),
      k_encode_amino = (\<lambda>m. aas_pub_key m @ aas_sig m @ replicate 5 0),
      k_decode_amino = (\<lambda>b. Some \<lparr>aas_pub_key = take 37 b, aas_sig = take 64 (drop 37 b)\<rparr>), k_amino_feature = True\<rparr>"

lemma sample_crypto_laws [simp]:
  "aead_law sample_crypto" "dh_law sample_crypto" "signature_law sample_crypto" "auth_sig_law sample_crypto v"
  by (auto simp: sample_crypto_def aead_law_def dh_law_def signature_law_def auth_sig_law_def tag_size_def min_def
      amino_auth_sig_new_def amino_prefix_def Let_def)

lemma low_order_hd: "is_low_order_point p \<Longrightarrow> hd p \<in> {0, 1, 0xe0, 0x5f, 0xec, 0xed, 0xee}"
  by (auto simp: is_low_order_point_def low_order_points_def)

lemma sample_ephemeral: "ephemeral_ok sample_crypto [5] [6]"
  using low_order_hd [of "5 # replicate 31 5"] low_order_hd [of "6 # replicate 31 5"]
  by (auto simp: ephemeral_ok_def shared_secret_def sample_crypto_def)

definition sample_connection :: "bytes \<Rightarrow> pipe secret_connection" where
  "sample_connection input =
     \<lparr>sc_io_handler = \<lparr>pp_in = input, pp_out = []\<rparr>, sc_protocol_version = V0_34, sc_remote_pubkey = Some (P2p_Ed25519 []),
      sc_send_state = \<lparr>ss_cipher = [], ss_nonce = nonce_of 1\<rparr>,
      sc_recv_state = \<lparr>rs_cipher = [], rs_nonce = nonce_of 1, rs_buffer = []\<rparr>, sc_terminate = False\<rparr>"

lemma sample_connection_ready [simp]: "sending 1 (sample_connection i)" "receiving 1 (sample_connection i)"
  by (simp_all add: sample_connection_def sending_def receiving_def)

section \<open>The handshake\<close>

text \<open>
  C10. Two peers that run the handshake of the same protocol version against each other both succeed, in each
  of the three versions, with the feature for Amino messages in the two older ones. Each reads from a
  stream on which there is at any time what the other has sent by then: the bytes the other's
  handshake has written when it has received exactly what was written so far. So neither waits for
  bytes the other sends only later. Each learns the long-term key of the other, and the key each sends
  with is the key the other receives with; everything sent has been read, and both are ready for
  the frame of counter 1.
\<close>

theorem handshake_establishes:
  assumes "aead_law K" "dh_law K" "signature_law K" "auth_sig_law K v" "ephemeral_ok K a b"
  shows "\<exists>A B io_a io_b.
      secret_connection_new K (facing_ops (peer_output K v sk' b)) sk v a (facing (peer_output K v sk' b)) = (io_a, Ok A)
    \<and> secret_connection_new K (facing_ops (peer_output K v sk a)) sk' v b (facing (peer_output K v sk a)) = (io_b, Ok B)
    \<and> sc_io_handler A = io_a \<and> pp_in io_a = [] \<and> pp_out io_a = peer_output K v sk a (pp_out io_b)
    \<and> sc_io_handler B = io_b \<and> pp_in io_b = [] \<and> pp_out io_b = peer_output K v sk' b (pp_out io_a)
    \<and> sc_remote_pubkey A = Some (P2p_Ed25519 (k_verification_key K sk'))
    \<and> sc_remote_pubkey B = Some (P2p_Ed25519 (k_verification_key K sk))
    \<and> ss_cipher (sc_send_state A) = rs_cipher (sc_recv_state B)
    \<and> ss_cipher (sc_send_state B) = rs_cipher (sc_recv_state A)
    \<and> sending 1 A \<and> receiving 1 A \<and> sending 1 B \<and> receiving 1 B"
proof -
  note sym = ephemeral_ok_sym [OF assms(2,5)]
  show ?thesis
    using secret_connection_new_peer [OF assms refl refl, of sk' sk] peer_output_steps(3) [OF assms, of sk sk']
      secret_connection_new_peer [OF assms(1-4) sym refl refl, of sk sk'] peer_output_steps(3) [OF assms(1-4) sym, of sk' sk]
    by (simp add: sending_def receiving_def)
qed

theorem handshake_establishes_witness:
  "\<exists>A B io_a io_b peer.
      secret_connection_new sample_crypto (facing_ops peer) [1] Legacy [5] (facing peer) = (io_a, Ok A)
    \<and> peer = peer_output sample_crypto Legacy [2] [6]
    \<and> secret_connection_new sample_crypto (facing_ops (peer_output sample_crypto V0_34 [1] [5])) [2] V0_34 [6]
        (facing (peer_output sample_crypto V0_34 [1] [5])) = (io_b, Ok B)
    \<and> sc_remote_pubkey A = Some (P2p_Ed25519 (2 # replicate 31 4))"
proof -
  have "k_verification_key sample_crypto [2] = 2 # replicate 31 4" by (simp add: sample_crypto_def)
  with handshake_establishes [OF sample_crypto_laws sample_ephemeral, where v = Legacy and sk = "[1]" and sk' = "[2]"]
    handshake_establishes [OF sample_crypto_laws sample_ephemeral, where v = V0_34 and sk = "[1]" and sk' = "[2]"]
  show ?thesis by auto
qed

text \<open>
  C9. A connection that is established, over any transport and with any peer, has a peer key under
  which a valid signature of the challenge was received. The challenge is the transcript of the two
  ephemeral keys and their shared secret, which is not zero, or in the oldest version a value derived
  from that secret; the peer's ephemeral key is none of the points of low order.
\<close>

theorem established_peer_authenticated:
  assumes "secret_connection_new K ops sk v a io = (io', Ok sc)"
  shows "\<exists>pb pk sig. sc_remote_pubkey sc = Some (P2p_Ed25519 pk) \<and> length pb = 32 \<and> \<not> is_low_order_point pb
    \<and> k_mult K a pb \<noteq> replicate 32 0
    \<and> k_verify K pk
        (if has_transcript v
         then transcript_mac K (min (k_base_mult K a) pb) (max (k_base_mult K a) pb) (k_mult K a pb)
         else take 32 (drop 64 (k_hkdf K (k_mult K a pb) hkdf_info))) sig"
proof -
  from assms obtain pb h m pk where sc: "length pb = 32" "\<not> is_low_order_point pb"
      "snd (got_key K pb (fst (handshake_new K sk v a))) = Ok h" "got_signature K h m = Ok pk" "sc_remote_pubkey sc = Some pk"
    by (rule secret_connection_new_Ok)
  from sc(4) obtain b where b: "pk = P2p_Ed25519 b" "k_verify K b (if has_transcript (hs_protocol_version h)
      then aas_sc_mac (hs_state h) else kdf_challenge (aas_kdf (hs_state h))) (ras_sig m)"
    unfolding got_signature_Ok by blast
  show ?thesis
    using sc(1,2,5) b got_key_Ok [OF sc(3)] by (intro exI [of _ pb] exI [of _ b] exI [of _ "ras_sig m"]) (simp split: if_splits)
qed

theorem established_peer_authenticated_witness:
  "\<exists>out_b io A pk. secret_connection_new sample_crypto pipe_ops [1] V0_34 [5] \<lparr>pp_in = out_b, pp_out = []\<rparr> = (io, Ok A)
     \<and> sc_remote_pubkey A = Some (P2p_Ed25519 pk) \<and> (\<exists>sig. k_verify sample_crypto pk (replicate 32 2) sig)"
proof -
  from secret_connection_new_pipe [OF sample_crypto_laws sample_ephemeral] obtain out_b io A where
      A: "secret_connection_new sample_crypto pipe_ops [1] V0_34 [5] \<lparr>pp_in = out_b, pp_out = []\<rparr> = (io, Ok A)" by blast
  have "transcript_mac sample_crypto l h s = replicate 32 2" for l h s by (simp add: transcript_mac_def sample_crypto_def)
  with established_peer_authenticated [OF A] obtain pk sig where
      "sc_remote_pubkey A = Some (P2p_Ed25519 pk)" "k_verify sample_crypto pk (replicate 32 2) sig"
    by (auto simp: has_transcript_def)
  with A show ?thesis by blast
qed

section \<open>Data\<close>

text \<open>
  C11. What one end writes is what the other end reads: after any list of writes, the other end, given
  the written bytes and buffers of at least 1024 bytes, reads the same bytes in the same order, one
  frame per call, and the two ends agree on the next nonce.
\<close>

theorem written_data_arrives:
  fixes A B :: "pipe secret_connection"
  assumes "aead_law K" "sending c A" "receiving c B" "ss_cipher (sc_send_state A) = rs_cipher (sc_recv_state B)"
    and "c + length (concat (map (chunks data_max_size) ds)) < 2 ^ 64" "list_all (\<lambda>d. length d < 2 ^ 64) ds"
    and "length ns = length (concat (map (chunks data_max_size) ds))" "list_all (\<lambda>n. 1024 \<le> n) ns"
  shows "\<exists>A' wire. sc_writes K pipe_ops ds A = (A', Ok (map length ds))
    \<and> pp_out (sc_io_handler A') = pp_out (sc_io_handler A) @ wire
    \<and> (\<forall>rest. pp_in (sc_io_handler B) = wire @ rest \<longrightarrow>
         (\<exists>B' cs. sc_reads K pipe_ops ns B = (B', Ok cs) \<and> concat cs = concat ds
            \<and> pp_in (sc_io_handler B') = rest \<and> rs_nonce (sc_recv_state B') = ss_nonce (sc_send_state A')))"
proof -
  let ?cs = "concat (map (chunks data_max_size) ds)"
  obtain A' where A': "sc_writes K pipe_ops ds A = (A', Ok (map length ds))" "sending (c + length ?cs) A'"
      "pp_out (sc_io_handler A') = pp_out (sc_io_handler A) @ frames K (ss_cipher (sc_send_state A)) c ?cs"
    using sc_writes_pipe [OF assms(1,2,5,6)] by blast
  have "concat ?cs = concat ds" by (induction ds) (simp_all add: concat_chunks data_max_size_def)
  moreover have "list_all frame_chunk ?cs" using chunks_frame by (induction ds) simp_all
  moreover have "list_all (\<lambda>n. data_max_size \<le> n) ns" using assms(8) by (simp add: data_max_size_def)
  ultimately show ?thesis
    using A' sc_reads_frames [OF assms(1,3,5), of _ ns] assms(4,7)
    by (auto simp: sending_def receiving_def)
qed

theorem written_data_arrives_witness:
  "\<exists>A' wire B'. sc_writes sample_crypto pipe_ops [[1, 2], [3]] (sample_connection []) = (A', Ok [2, 1])
     \<and> (\<exists>cs. sc_reads sample_crypto pipe_ops [1024, 2000] (sample_connection wire) = (B', Ok cs) \<and> concat cs = [1, 2, 3])"
proof -
  have cs: "chunks data_max_size [1, 2 :: 8 word] = [[1, 2]]" "chunks data_max_size [3 :: 8 word] = [[3]]"
    by (simp_all add: chunks_short data_max_size_def)
  have key: "ss_cipher (sc_send_state (sample_connection [])) = rs_cipher (sc_recv_state (sample_connection w))" for w
    by (simp add: sample_connection_def)
  from sc_writes_pipe [OF sample_crypto_laws(1) sample_connection_ready(1), of "[[1, 2], [3]]" "[]"] obtain A' where
      A': "sc_writes sample_crypto pipe_ops [[1, 2], [3]] (sample_connection []) = (A', Ok [2, 1])" by (auto simp: cs)
  define wire where "wire = pp_out (sc_io_handler A')"
  have "pp_out (sc_io_handler (sample_connection [])) = []" "pp_in (sc_io_handler (sample_connection wire)) = wire @ []"
    by (simp_all add: sample_connection_def)
  with written_data_arrives [OF sample_crypto_laws(1) sample_connection_ready key, of "[[1, 2], [3]]" "[1024, 2000]" wire] A'
  show ?thesis unfolding wire_def by (fastforce simp: cs)
qed

text \<open>
  C12. Frames are sealed under fresh nonces: the bytes a list of writes puts on the wire are the chunks
  of at most 1024 bytes of the data, each sealed under a nonce of its own. When the counter is used
  up the next write panics and sends nothing.
\<close>

theorem nonces_never_repeat:
  fixes A :: "pipe secret_connection"
  assumes "aead_law K" "sending c A" "c + length (concat (map (chunks data_max_size) ds)) < 2 ^ 64"
    and "list_all (\<lambda>d. length d < 2 ^ 64) ds"
  shows "\<exists>A' nonces. sc_writes K pipe_ops ds A = (A', Ok (map length ds)) \<and> distinct nonces
    \<and> length nonces = length (concat (map (chunks data_max_size) ds))
    \<and> pp_out (sc_io_handler A') = pp_out (sc_io_handler A)
        @ concat (map2 (seal K (ss_cipher (sc_send_state A))) nonces (concat (map (chunks data_max_size) ds)))
    \<and> (\<forall>sc d. sending (2 ^ 64 - 1) sc \<and> d \<noteq> [] \<longrightarrow> sc_write K pipe_ops d sc = (sc, Panic))"
proof -
  let ?cs = "concat (map (chunks data_max_size) ds)"
  have fr: "frames K key c cs = concat (map2 (seal K key) (map nonce_of [c..<c + length cs]) cs)" for key c cs
  proof (induction cs arbitrary: c)
    case (Cons x cs)
    have "[c..<c + length (x # cs)] = c # [c + 1..<c + 1 + length cs]" by (simp add: upt_conv_Cons del: upt_Suc)
    then show ?case by (simp add: Cons del: upt_Suc)
  qed simp
  have "inj_on nonce_of (set [c..<c + length ?cs])"
    using assms(3) by (intro inj_onI) (rule nonce_of_inj, auto)
  then have "distinct (map nonce_of [c..<c + length ?cs])" by (simp add: distinct_map)
  moreover have "sc_write K pipe_ops d sc = (sc, Panic)" if last: "sending (2 ^ 64 - 1) sc" and nonempty: "d \<noteq> []" for d and sc :: "pipe secret_connection"
  proof -
    obtain chunk rest where ch: "chunks data_max_size d = chunk # rest"
      using nonempty by (cases "chunks data_max_size d") (simp_all add: chunks.simps [of _ d] data_max_size_def)
    then have "frame_chunk chunk" using chunks_frame [of d] by simp
    from write_chunks_last_nonce [OF assms(1) this, of "sc_send_state sc" pipe_ops rest 0 "sc_io_handler sc"] last ch show ?thesis
      by (simp add: sc_write_def sc_checked_def checked_io_def sending_def encrypt_and_write_def del: write_chunks.simps)
  qed
  ultimately show ?thesis
    using sc_writes_pipe [OF assms] unfolding fr by (metis length_map length_upt add_diff_cancel_left')
qed

theorem nonces_never_repeat_witness:
  "\<exists>A' (nonces :: nonce list). sc_writes sample_crypto pipe_ops [[1, 2], [3]] (sample_connection []) = (A', Ok [2, 1])
     \<and> distinct nonces \<and> length nonces = 2"
proof -
  have cs: "chunks data_max_size [1, 2 :: 8 word] = [[1, 2]]" "chunks data_max_size [3 :: 8 word] = [[3]]"
    by (simp_all add: chunks_short data_max_size_def)
  have two: "1 + length (concat (map (chunks data_max_size) [[1, 2 :: 8 word], [3]])) < 2 ^ 64"
      "list_all (\<lambda>d. length d < 2 ^ 64) [[1, 2 :: 8 word], [3]]" by (simp_all add: cs)
  from nonces_never_repeat [OF sample_crypto_laws(1) sample_connection_ready(1) two, of "[]"] obtain A' and nonces :: "nonce list" where
      "sc_writes sample_crypto pipe_ops [[1, 2], [3]] (sample_connection []) = (A', Ok (map length [[1, 2 :: 8 word], [3]]))"
      "distinct nonces" "length nonces = length (concat (map (chunks data_max_size) [[1, 2 :: 8 word], [3]]))" by blast
  then show ?thesis
    by (intro exI [of _ A'] exI [of _ nonces]) (simp add: cs numeral_2_eq_2 del: sc_writes.simps)
qed

text \<open>
  A read into a buffer that is shorter than the chunk of the next frame panics: the rest of the
  chunk is copied into the leftover buffer, which is empty, and a copy between slices of different
  length panics. The leftover buffer is therefore always empty, and the code that would serve a read
  from it is never used.
\<close>

theorem short_read_panics:
  fixes B :: "pipe secret_connection"
  assumes "aead_law K" "receiving c B" "c + 1 < 2 ^ 64" "frame_chunk chunk"
    and "pp_in (sc_io_handler B) = seal K (rs_cipher (sc_recv_state B)) (nonce_of c) chunk @ rest"
  shows "(snd (sc_read K pipe_ops n B) = Panic \<longleftrightarrow> n < length chunk)
    \<and> (length chunk \<le> n \<longrightarrow> snd (sc_read K pipe_ops n B) = Ok chunk)
    \<and> rs_buffer (sc_recv_state (fst (sc_read K pipe_ops n B))) = []"
  using sc_read_eq [OF assms, of n] assms(2) by (simp add: receiving_def)

theorem short_read_panics_witness:
  "snd (sc_read sample_crypto pipe_ops 1 (sample_connection (seal sample_crypto [] (nonce_of 1) [7, 8]))) = Panic"
proof -
  have "frame_chunk [7, 8]" by (simp add: frame_chunk_def data_max_size_def)
  from short_read_panics [OF sample_crypto_laws(1) sample_connection_ready(2) _ this,
      of "seal sample_crypto [] (nonce_of 1) [7, 8]" "[]" 1]
  show ?thesis by (simp add: sample_connection_def)
qed

section \<open>The end of a connection\<close>

text \<open>
  C39. Once a call on one half of a split connection fails, every later call on either half fails
  without touching the transport or any other state.
\<close>

theorem failure_ends_both_halves:
  assumes "sender_write K ops d hv = (hv', Err e) \<or> sender_flush ops hv = (hv', Err e)
    \<or> receiver_read K ops n hv = (hv', Err e)"
  shows "sender_write K ops d' hv' = (hv', Err PIO_Terminated) \<and> sender_flush ops hv' = (hv', Err PIO_Terminated)
    \<and> receiver_read K ops n' hv' = (hv', Err PIO_Terminated)"
proof -
  have "hv_terminate hv'"
    using assms by (auto simp: sender_write_def sender_flush_def receiver_read_def hv_checked_def dest: shared.sets)
  then show ?thesis
    by (simp add: sender_write_def sender_flush_def receiver_read_def hv_checked_def shared.refuses)
qed

theorem failure_ends_both_halves_witness:
  "\<exists>hv hv'. split_connection pipe_ops (sample_connection []) = Ok hv
     \<and> receiver_read sample_crypto pipe_ops 8 hv = (hv', Err PIO_UnexpectedEof)
     \<and> sender_write sample_crypto pipe_ops [1] hv' = (hv', Err PIO_Terminated)"
proof -
  obtain hv where hv: "split_connection pipe_ops (sample_connection []) = Ok hv" "hv_io_handler hv = \<lparr>pp_in = [], pp_out = []\<rparr>"
      "\<not> hv_terminate hv" "rs_buffer (hv_recv_state hv) = []"
    by (simp add: split_connection_def sample_connection_def pipe_ops_def)
  then obtain hv' where r: "receiver_read sample_crypto pipe_ops 8 hv = (hv', Err PIO_UnexpectedEof)"
    by (simp add: receiver_read_def hv_checked_def checked_io_def read_and_decrypt_def pipe_ops_def tag_size_def)
  with hv(1) failure_ends_both_halves [of sample_crypto pipe_ops "[]" hv hv' PIO_UnexpectedEof 8 "[1]"] show ?thesis by blast
qed

end
