(* ===== verification/Abci_Codec.thy ===== *)
theory Abci_Codec
  imports Effects Tm_Scalars
begin

text \<open>
  \<open>abci/src/codec.rs\<close>: messages on a byte stream, each preceded by its length. The stream is given by
  its answers: every read returns some bytes (none at the end of the stream) or an error, every
  write takes some of the bytes offered or fails, and what is written may make more arrive. The Protobuf encoder and the variable-length
  integers of the \<open>prost\<close> crate are parameters.
\<close>

section \<open>Errors and parameters\<close>

datatype 'r abci_error =
    AE_Io string
  | AE_WriteZero
  | AE_Encode
  | AE_Decode
  | AE_ServerConnectionTerminated
  | AE_MalformedServerResponse
  | AE_UnexpectedServerResponseType string 'r
  | AE_ChannelSend
  | AE_ChannelRecv

record varint =
  vi_encode :: "u64 \<Rightarrow> bytes"
  vi_decode :: "bytes \<Rightarrow> (u64 \<times> bytes) option"

text \<open>The encoder of outgoing and the decoder of incoming messages.\<close>

record ('i, 'o) messages =
  ms_encode :: "'o \<Rightarrow> bytes option"
  ms_decode :: "bytes \<Rightarrow> 'i option"

text \<open>
  A stream: what has arrived for its next reads, which take at most what the read window holds and leave
  the rest for the next read, what its future writes take of the bytes offered, the bytes written
  so far, and what more arrives, as the reaction of the other end, when the bytes written grow from one list
  to another. Reads beyond what has arrived find the end of the stream.
\<close>

datatype read_event = Read_Bytes bytes | Read_Error string
datatype write_event = Write_Some nat | Write_Error string

record tcp_stream =
  ts_reads :: "read_event list"
  ts_writes :: "write_event list"
  ts_written :: bytes
  ts_arrivals :: "bytes \<Rightarrow> bytes \<Rightarrow> read_event list"
  ts_flush_error :: "string option"

definition max_varint_length :: nat where
  "max_varint_length = 16"

section \<open>One message\<close>

definition encode_length_delimited ::
  "varint \<Rightarrow> ('o \<Rightarrow> bytes option) \<Rightarrow> 'o \<Rightarrow> bytes \<Rightarrow> ('r abci_error, bytes) result" where
  "encode_length_delimited V enc message dst =
     and_then (ok_or AE_Encode (enc message)) (\<lambda>buf. Ok (dst @ vi_encode V (of_nat (length buf)) @ buf))"

text \<open>
  The buffer after the attempt, and its outcome: no message yet, a message, or an error. The buffer is
  advanced before the message itself is decoded. The length of a buffer is a 64-bit integer already.
\<close>

definition decode_length_delimited ::
  "varint \<Rightarrow> (bytes \<Rightarrow> 'i option) \<Rightarrow> (bytes, 'r abci_error, 'i option) call" where
  "decode_length_delimited V dec src =
     (case vi_decode V src of
        None \<Rightarrow> (src, if length src \<le> max_varint_length then Ok None else Err AE_Decode)
      | Some (encoded_len, tmp) \<Rightarrow>
          if length tmp < unat encoded_len then (src, Ok None)
          else
            let delim_len = length src - length tmp in
            (drop (delim_len + unat encoded_len) src,
             and_then (ok_or AE_Decode (dec (take (unat encoded_len) tmp))) (\<lambda>res. Ok (Some res))))"

section \<open>The codec\<close>

record codec_state =
  cd_stream :: tcp_stream
  cd_read_buf :: bytes
  cd_read_window :: nat
  cd_write_buf :: bytes

definition codec_new :: "tcp_stream \<Rightarrow> nat \<Rightarrow> codec_state" where
  "codec_new stream read_buf_size =
     \<lparr>cd_stream = stream, cd_read_buf = [], cd_read_window = read_buf_size, cd_write_buf = []\<rparr>"

text \<open>The loop of the iterator over the coming reads; \<open>None\<close> is the end of the stream.\<close>

function next_loop ::
  "varint \<Rightarrow> (bytes \<Rightarrow> 'i option) \<Rightarrow> nat \<Rightarrow> read_event list \<Rightarrow> bytes
     \<Rightarrow> (read_event list \<times> bytes) \<times> ('r abci_error, 'i option) result" where
  "next_loop V dec window reads buf =
     (case (decode_length_delimited V dec buf :: bytes \<times> ('r abci_error, 'i option) result) of
        (buf', Ok (Some incoming)) \<Rightarrow> ((reads, buf'), Ok (Some incoming))
      | (buf', Err e) \<Rightarrow> ((reads, buf'), Err e)
      | (buf', Panic) \<Rightarrow> ((reads, buf'), Panic)
      | (buf', Ok None) \<Rightarrow>
          (case reads of
             [] \<Rightarrow> (([], buf'), Ok None)
           | Read_Error e # rest \<Rightarrow> ((rest, buf'), Err (AE_Io e))
           | Read_Bytes bs # rest \<Rightarrow>
               if take window bs = [] then ((reads, buf'), Ok None)
               else next_loop V dec window (if drop window bs = [] then rest else Read_Bytes (drop window bs) # rest)
                 (buf' @ take window bs)))"
  by pat_completeness auto
termination
  by (relation "measure (\<lambda>(_, _, _, reads, _). sum_list (map (\<lambda>e. case e of Read_Bytes bs \<Rightarrow> Suc (length bs) | _ \<Rightarrow> 1) reads))")
    auto

declare next_loop.simps [simp del]

definition codec_next :: "varint \<Rightarrow> ('i, 'o) messages \<Rightarrow> (codec_state, 'r abci_error, 'i option) call" where
  "codec_next V M c =
     (case next_loop V (ms_decode M) (cd_read_window c) (ts_reads (cd_stream c)) (cd_read_buf c) of
        ((reads, buf), r) \<Rightarrow> (c\<lparr>cd_stream := (cd_stream c)\<lparr>ts_reads := reads\<rparr>, cd_read_buf := buf\<rparr>, r))"

text \<open>The loop that drains the write buffer. Writes beyond the list take everything.\<close>

fun drain :: "write_event list \<Rightarrow> bytes \<Rightarrow> bytes \<Rightarrow> (write_event list \<times> bytes \<times> bytes) \<times> ('r abci_error, unit) result" where
  "drain ws written [] = ((ws, written, []), Ok ())"
| "drain [] written buf = (([], written @ buf, []), Ok ())"
| "drain (Write_Error e # ws) written buf = ((ws, written, buf), Err (AE_Io e))"
| "drain (Write_Some n # ws) written buf =
     (let k = min n (length buf) in
      if k = 0 then ((ws, written, buf), Err AE_WriteZero)
      else drain ws (written @ take k buf) (drop k buf))"

definition codec_send :: "varint \<Rightarrow> ('i, 'o) messages \<Rightarrow> 'o \<Rightarrow> (codec_state, 'r abci_error, unit) call" where
  "codec_send V M message c =
     (case encode_length_delimited V (ms_encode M) message (cd_write_buf c) of
        Err e \<Rightarrow> (c, Err e)
      | Panic \<Rightarrow> (c, Panic)
      | Ok buf \<Rightarrow>
          (case drain (ts_writes (cd_stream c)) (ts_written (cd_stream c)) buf of
             ((ws, written, buf'), r) \<Rightarrow>
               (c\<lparr>cd_stream := (cd_stream c)\<lparr>ts_reads := ts_reads (cd_stream c)
                      @ ts_arrivals (cd_stream c) (ts_written (cd_stream c)) written,
                    ts_writes := ws, ts_written := written\<rparr>, cd_write_buf := buf'\<rparr>,
                and_then r (\<lambda>_. case ts_flush_error (cd_stream c) of Some e \<Rightarrow> Err (AE_Io e) | None \<Rightarrow> Ok ()))))"

end
