(* ===== verification/Abci_Messages.thy ===== *)
theory Abci_Messages
  imports Proto Tm_Validator
begin

text \<open>
  The messages of the application interface in \<open>proto/src/prost/v0_38/tendermint.abci.rs\<close>, with the
  messages of \<open>tendermint.types.rs\<close> and \<open>tendermint.crypto.rs\<close> they carry: plain data, field by
  field. A Rust \<open>String\<close> is the list of the bytes of its text, read as characters. Requests and
  responses without a field are constructors without an argument.
\<close>

section \<open>Parameters, proofs and events\<close>

record raw_block_params =
  rbp_max_bytes :: i64
  rbp_max_gas :: i64

record raw_validator_params =
  rvp_pub_key_types :: "string list"

record raw_version_params =
  rvep_app :: u64

record raw_abci_params =
  rap_vote_extensions_enable_height :: i64

record raw_consensus_params =
  rcp_block :: "raw_block_params option"
  rcp_evidence :: "raw_evidence_params option"
  rcp_validator :: "raw_validator_params option"
  rcp_version :: "raw_version_params option"
  rcp_abci :: "raw_abci_params option"

record raw_proof_op =
  rpo_type :: string
  rpo_key :: bytes
  rpo_data :: bytes

record raw_proof_ops =
  rpos_ops :: "raw_proof_op list"

record raw_abci_validator =
  rav_address :: bytes
  rav_power :: i64

record raw_vote_info =
  rvi_validator :: "raw_abci_validator option"
  rvi_block_id_flag :: i32

record raw_extended_vote_info =
  revi_validator :: "raw_abci_validator option"
  revi_vote_extension :: bytes
  revi_extension_signature :: bytes
  revi_block_id_flag :: i32

record raw_commit_info =
  rci_round :: i32
  rci_votes :: "raw_vote_info list"

record raw_extended_commit_info =
  reci_round :: i32
  reci_votes :: "raw_extended_vote_info list"

record raw_misbehavior =
  rmb_type :: i32
  rmb_validator :: "raw_abci_validator option"
  rmb_height :: i64
  rmb_time :: "raw_timestamp option"
  rmb_total_voting_power :: i64

record raw_snapshot =
  rsn_height :: u64
  rsn_format :: u32
  rsn_chunks :: u32
  rsn_hash :: bytes
  rsn_metadata :: bytes

record raw_event_attribute =
  rea_key :: string
  rea_value :: string
  rea_index :: bool

record raw_event =
  rev_type :: string
  rev_attributes :: "raw_event_attribute list"

record raw_exec_tx_result =
  retr_code :: u32
  retr_data :: bytes
  retr_log :: string
  retr_info :: string
  retr_gas_wanted :: i64
  retr_gas_used :: i64
  retr_events :: "raw_event list"
  retr_codespace :: string

section \<open>Requests\<close>

record raw_request_echo =
  rqec_message :: string

record raw_request_info =
  rqin_version :: string
  rqin_block_version :: u64
  rqin_p2p_version :: u64
  rqin_abci_version :: string

record raw_request_init_chain =
  rqic_time :: "raw_timestamp option"
  rqic_chain_id :: string
  rqic_consensus_params :: "raw_consensus_params option"
  rqic_validators :: "raw_validator_update list"
  rqic_app_state_bytes :: bytes
  rqic_initial_height :: i64

record raw_request_query =
  rqqu_data :: bytes
  rqqu_path :: string
  rqqu_height :: i64
  rqqu_prove :: bool

record raw_request_check_tx =
  rqct_tx :: bytes
  rqct_type :: i32

record raw_request_offer_snapshot =
  rqos_snapshot :: "raw_snapshot option"
  rqos_app_hash :: bytes

record raw_request_load_snapshot_chunk =
  rqlc_height :: u64
  rqlc_format :: u32
  rqlc_chunk :: u32

record raw_request_apply_snapshot_chunk =
  rqac_index :: u32
  rqac_chunk :: bytes
  rqac_sender :: string

record raw_request_prepare_proposal =
  rqpp_max_tx_bytes :: i64
  rqpp_txs :: "bytes list"
  rqpp_local_last_commit :: "raw_extended_commit_info option"
  rqpp_misbehavior :: "raw_misbehavior list"
  rqpp_height :: i64
  rqpp_time :: "raw_timestamp option"
  rqpp_next_validators_hash :: bytes
  rqpp_proposer_address :: bytes

record raw_request_process_proposal =
  rqps_txs :: "bytes list"
  rqps_proposed_last_commit :: "raw_commit_info option"
  rqps_misbehavior :: "raw_misbehavior list"
  rqps_hash :: bytes
  rqps_height :: i64
  rqps_time :: "raw_timestamp option"
  rqps_next_validators_hash :: bytes
  rqps_proposer_address :: bytes

record raw_request_extend_vote =
  rqev_hash :: bytes
  rqev_height :: i64
  rqev_time :: "raw_timestamp option"
  rqev_txs :: "bytes list"
  rqev_proposed_last_commit :: "raw_commit_info option"
  rqev_misbehavior :: "raw_misbehavior list"
  rqev_next_validators_hash :: bytes
  rqev_proposer_address :: bytes

record raw_request_verify_vote_extension =
  rqvv_hash :: bytes
  rqvv_validator_address :: bytes
  rqvv_height :: i64
  rqvv_vote_extension :: bytes

record raw_request_finalize_block =
  rqfb_txs :: "bytes list"
  rqfb_decided_last_commit :: "raw_commit_info option"
  rqfb_misbehavior :: "raw_misbehavior list"
  rqfb_hash :: bytes
  rqfb_height :: i64
  rqfb_time :: "raw_timestamp option"
  rqfb_next_validators_hash :: bytes
  rqfb_proposer_address :: bytes

datatype (plugins only: code size) raw_request_value =
    Rq_Echo raw_request_echo
  | Rq_Flush
  | Rq_Info raw_request_info
  | Rq_InitChain raw_request_init_chain
  | Rq_Query raw_request_query
  | Rq_CheckTx raw_request_check_tx
  | Rq_Commit
  | Rq_ListSnapshots
  | Rq_OfferSnapshot raw_request_offer_snapshot
  | Rq_LoadSnapshotChunk raw_request_load_snapshot_chunk
  | Rq_ApplySnapshotChunk raw_request_apply_snapshot_chunk
  | Rq_PrepareProposal raw_request_prepare_proposal
  | Rq_ProcessProposal raw_request_process_proposal
  | Rq_ExtendVote raw_request_extend_vote
  | Rq_VerifyVoteExtension raw_request_verify_vote_extension
  | Rq_FinalizeBlock raw_request_finalize_block

record raw_request =
  rq_value :: "raw_request_value option"

section \<open>Responses\<close>

record raw_response_exception =
  rsex_error :: string

record raw_response_echo =
  rsec_message :: string

record raw_response_info =
  rsin_data :: string
  rsin_version :: string
  rsin_app_version :: u64
  rsin_last_block_height :: i64
  rsin_last_block_app_hash :: bytes

record raw_response_init_chain =
  rsic_consensus_params :: "raw_consensus_params option"
  rsic_validators :: "raw_validator_update list"
  rsic_app_hash :: bytes

record raw_response_query =
  rsqu_code :: u32
  rsqu_log :: string
  rsqu_info :: string
  rsqu_index :: i64
  rsqu_key :: bytes
  rsqu_value :: bytes
  rsqu_proof_ops :: "raw_proof_ops option"
  rsqu_height :: i64
  rsqu_codespace :: string

record raw_response_check_tx =
  rsct_code :: u32
  rsct_data :: bytes
  rsct_log :: string
  rsct_info :: string
  rsct_gas_wanted :: i64
  rsct_gas_used :: i64
  rsct_events :: "raw_event list"
  rsct_codespace :: string

record raw_response_commit =
  rsco_retain_height :: i64

record raw_response_list_snapshots =
  rsls_snapshots :: "raw_snapshot list"

record raw_response_offer_snapshot =
  rsos_result :: i32

record raw_response_load_snapshot_chunk =
  rslc_chunk :: bytes

record raw_response_apply_snapshot_chunk =
  rsac_result :: i32
  rsac_refetch_chunks :: "u32 list"
  rsac_reject_senders :: "string list"

record raw_response_prepare_proposal =
  rspp_txs :: "bytes list"

record raw_response_process_proposal =
  rsps_status :: i32

record raw_response_extend_vote =
  rsev_vote_extension :: bytes

record raw_response_verify_vote_extension =
  rsvv_status :: i32

record raw_response_finalize_block =
  rsfb_events :: "raw_event list"
  rsfb_tx_results :: "raw_exec_tx_result list"
  rsfb_validator_updates :: "raw_validator_update list"
  rsfb_consensus_param_updates :: "raw_consensus_params option"
  rsfb_app_hash :: bytes

datatype (plugins only: code size) raw_response_value =
    Rs_Exception raw_response_exception
  | Rs_Echo raw_response_echo
  | Rs_Flush
  | Rs_Info raw_response_info
  | Rs_InitChain raw_response_init_chain
  | Rs_Query raw_response_query
  | Rs_CheckTx raw_response_check_tx
  | Rs_Commit raw_response_commit
  | Rs_ListSnapshots raw_response_list_snapshots
  | Rs_OfferSnapshot raw_response_offer_snapshot
  | Rs_LoadSnapshotChunk raw_response_load_snapshot_chunk
  | Rs_ApplySnapshotChunk raw_response_apply_snapshot_chunk
  | Rs_PrepareProposal raw_response_prepare_proposal
  | Rs_ProcessProposal raw_response_process_proposal
  | Rs_ExtendVote raw_response_extend_vote
  | Rs_VerifyVoteExtension raw_response_verify_vote_extension
  | Rs_FinalizeBlock raw_response_finalize_block

record raw_response =
  rs_value :: "raw_response_value option"

end
