(* ===== verification/Abci_App.thy ===== *)
theory Abci_App
  imports Abci_Codec Abci_Messages
begin

text \<open>
  \<open>abci/src/application.rs\<close>: the interface of an application, its default methods, and the dispatch
  of a request to the method that answers it. The methods take the shared state of the application's
  clones and may panic.
\<close>

type_synonym abci_err = "raw_response_value abci_error"
type_synonym ('st, 'a) app_call = "('st, abci_err, 'a) call"

record 'st application =
  app_echo :: "raw_request_echo \<Rightarrow> ('st, raw_response_echo) app_call"
  app_info :: "raw_request_info \<Rightarrow> ('st, raw_response_info) app_call"
  app_init_chain :: "raw_request_init_chain \<Rightarrow> ('st, raw_response_init_chain) app_call"
  app_query :: "raw_request_query \<Rightarrow> ('st, raw_response_query) app_call"
  app_check_tx :: "raw_request_check_tx \<Rightarrow> ('st, raw_response_check_tx) app_call"
  app_flush :: "('st, unit) app_call"
  app_commit :: "('st, raw_response_commit) app_call"
  app_list_snapshots :: "('st, raw_response_list_snapshots) app_call"
  app_offer_snapshot :: "raw_request_offer_snapshot \<Rightarrow> ('st, raw_response_offer_snapshot) app_call"
  app_load_snapshot_chunk :: "raw_request_load_snapshot_chunk \<Rightarrow> ('st, raw_response_load_snapshot_chunk) app_call"
  app_apply_snapshot_chunk :: "raw_request_apply_snapshot_chunk \<Rightarrow> ('st, raw_response_apply_snapshot_chunk) app_call"
  app_prepare_proposal :: "raw_request_prepare_proposal \<Rightarrow> ('st, raw_response_prepare_proposal) app_call"
  app_process_proposal :: "raw_request_process_proposal \<Rightarrow> ('st, raw_response_process_proposal) app_call"
  app_extend_vote :: "raw_request_extend_vote \<Rightarrow> ('st, raw_response_extend_vote) app_call"
  app_verify_vote_extension :: "raw_request_verify_vote_extension \<Rightarrow> ('st, raw_response_verify_vote_extension) app_call"
  app_finalize_block :: "raw_request_finalize_block \<Rightarrow> ('st, raw_response_finalize_block) app_call"

section \<open>The default methods\<close>

text \<open>Sizes are \<open>usize\<close> values of 64 bits, which saturate at their greatest value.\<close>

definition usize_max :: nat where
  "usize_max = 2 ^ 64 - 1"

definition total_size :: "bytes list \<Rightarrow> nat" where
  "total_size txs = foldl (\<lambda>acc tx. min (acc + length tx) usize_max) 0 txs"

function drop_txs :: "nat \<Rightarrow> nat \<Rightarrow> bytes list \<Rightarrow> bytes list" where
  "drop_txs max_tx_bytes total_tx_bytes txs =
     (if max_tx_bytes < total_tx_bytes then
        (if txs = [] then []
         else drop_txs max_tx_bytes (total_tx_bytes - length (last txs)) (butlast txs))
      else txs)"
  by pat_completeness auto
termination
  by (relation "measure (\<lambda>(_, _, txs). length txs)") auto

declare drop_txs.simps [simp del]

definition prepare_proposal :: "raw_request_prepare_proposal \<Rightarrow> raw_response_prepare_proposal" where
  "prepare_proposal request =
     (let txs = rqpp_txs request;
          max_tx_bytes = (if sint (rqpp_max_tx_bytes request) < 0 then 0 else nat (sint (rqpp_max_tx_bytes request)))
      in \<lparr>rspp_txs = drop_txs max_tx_bytes (total_size txs) txs\<rparr>)"

definition proposal_status_accept :: i32 where
  "proposal_status_accept = 1"

definition verify_status_accept :: i32 where
  "verify_status_accept = 1"

definition default_application :: "'st application" where
  "default_application =
     \<lparr>app_echo = (\<lambda>request. lift (Ok \<lparr>rsec_message = rqec_message request\<rparr>)),
      app_info = (\<lambda>_. lift (Ok \<lparr>rsin_data = [], rsin_version = [], rsin_app_version = 0,
        rsin_last_block_height = 0, rsin_last_block_app_hash = []\<rparr>)),
      app_init_chain = (\<lambda>_. lift (Ok \<lparr>rsic_consensus_params = None, rsic_validators = [], rsic_app_hash = []\<rparr>)),
      app_query = (\<lambda>_. lift (Ok \<lparr>rsqu_code = 0, rsqu_log = [], rsqu_info = [], rsqu_index = 0, rsqu_key = [],
        rsqu_value = [], rsqu_proof_ops = None, rsqu_height = 0, rsqu_codespace = []\<rparr>)),
      app_check_tx = (\<lambda>_. lift (Ok \<lparr>rsct_code = 0, rsct_data = [], rsct_log = [], rsct_info = [],
        rsct_gas_wanted = 0, rsct_gas_used = 0, rsct_events = [], rsct_codespace = []\<rparr>)),
      app_flush = lift (Ok ()),
      app_commit = lift (Ok \<lparr>rsco_retain_height = 0\<rparr>),
      app_list_snapshots = lift (Ok \<lparr>rsls_snapshots = []\<rparr>),
      app_offer_snapshot = (\<lambda>_. lift (Ok \<lparr>rsos_result = 0\<rparr>)),
      app_load_snapshot_chunk = (\<lambda>_. lift (Ok \<lparr>rslc_chunk = []\<rparr>)),
      app_apply_snapshot_chunk = (\<lambda>_. lift (Ok \<lparr>rsac_result = 0, rsac_refetch_chunks = [], rsac_reject_senders = []\<rparr>)),
      app_prepare_proposal = (\<lambda>request. lift (Ok (prepare_proposal request))),
      app_process_proposal = (\<lambda>_. lift (Ok \<lparr>rsps_status = proposal_status_accept\<rparr>)),
      app_extend_vote = (\<lambda>_. lift (Ok \<lparr>rsev_vote_extension = []\<rparr>)),
      app_verify_vote_extension = (\<lambda>_. lift (Ok \<lparr>rsvv_status = verify_status_accept\<rparr>)),
      app_finalize_block = (\<lambda>_. lift (Ok \<lparr>rsfb_events = [], rsfb_tx_results = [], rsfb_validator_updates = [],
        rsfb_consensus_param_updates = None, rsfb_app_hash = []\<rparr>))\<rparr>"

text \<open>\<open>application/echo.rs\<close>: the echo application keeps every default.\<close>

definition echo_app :: "unit application" where
  "echo_app = default_application"

section \<open>Dispatch\<close>

definition respond :: "('a \<Rightarrow> raw_response_value) \<Rightarrow> ('st, 'a) app_call \<Rightarrow> ('st, raw_response) app_call" where
  "respond wrap m = sbind m (\<lambda>r. lift (Ok \<lparr>rs_value = Some (wrap r)\<rparr>))"

definition handle :: "'st application \<Rightarrow> raw_request \<Rightarrow> ('st, raw_response) app_call" where
  "handle A request =
     (case rq_value request of
        None \<Rightarrow> lift Panic
      | Some value \<Rightarrow>
          (case value of
             Rq_Echo req \<Rightarrow> respond Rs_Echo (app_echo A req)
           | Rq_Flush \<Rightarrow> respond (\<lambda>_. Rs_Flush) (app_flush A)
           | Rq_Info req \<Rightarrow> respond Rs_Info (app_info A req)
           | Rq_InitChain req \<Rightarrow> respond Rs_InitChain (app_init_chain A req)
           | Rq_Query req \<Rightarrow> respond Rs_Query (app_query A req)
           | Rq_CheckTx req \<Rightarrow> respond Rs_CheckTx (app_check_tx A req)
           | Rq_Commit \<Rightarrow> respond Rs_Commit (app_commit A)
           | Rq_ListSnapshots \<Rightarrow> respond Rs_ListSnapshots (app_list_snapshots A)
           | Rq_OfferSnapshot req \<Rightarrow> respond Rs_OfferSnapshot (app_offer_snapshot A req)
           | Rq_LoadSnapshotChunk req \<Rightarrow> respond Rs_LoadSnapshotChunk (app_load_snapshot_chunk A req)
           | Rq_ApplySnapshotChunk req \<Rightarrow> respond Rs_ApplySnapshotChunk (app_apply_snapshot_chunk A req)
           | Rq_PrepareProposal req \<Rightarrow> respond Rs_PrepareProposal (app_prepare_proposal A req)
           | Rq_ProcessProposal req \<Rightarrow> respond Rs_ProcessProposal (app_process_proposal A req)
           | Rq_ExtendVote req \<Rightarrow> respond Rs_ExtendVote (app_extend_vote A req)
           | Rq_VerifyVoteExtension req \<Rightarrow> respond Rs_VerifyVoteExtension (app_verify_vote_extension A req)
           | Rq_FinalizeBlock req \<Rightarrow> respond Rs_FinalizeBlock (app_finalize_block A req)))"

end
