(* ===== verification/Abci_Server.thy ===== *)
theory Abci_Server
  imports Abci_App
begin

text \<open>
  \<open>abci/src/server.rs\<close> and \<open>abci/src/client.rs\<close>: the loop that serves one connection, and the blocking
  client. The Protobuf encoders and decoders of the two message types are parameters.
\<close>

record abci_wire =
  enc_request :: "raw_request \<Rightarrow> bytes option"
  dec_request :: "bytes \<Rightarrow> raw_request option"
  enc_response :: "raw_response \<Rightarrow> bytes option"
  dec_response :: "bytes \<Rightarrow> raw_response option"

text \<open>\<open>ServerCodec\<close> receives requests and sends responses; \<open>ClientCodec\<close> the other way around.\<close>

definition server_codec :: "abci_wire \<Rightarrow> (raw_request, raw_response) messages" where
  "server_codec W = \<lparr>ms_encode = enc_response W, ms_decode = dec_request W\<rparr>"

definition client_codec :: "abci_wire \<Rightarrow> (raw_response, raw_request) messages" where
  "client_codec W = \<lparr>ms_encode = enc_request W, ms_decode = dec_response W\<rparr>"

section \<open>The server\<close>

definition default_server_read_buf_size :: nat where
  "default_server_read_buf_size = 1024 * 1024"

text \<open>
  The loop ends, and the thread with it, when the stream ends, when a request cannot be read, when a
  response cannot be sent, and when the application panics. It need not end otherwise.
\<close>

partial_function (option) serve_loop ::
  "varint \<Rightarrow> abci_wire \<Rightarrow> 'st application \<Rightarrow> codec_state \<Rightarrow> 'st \<Rightarrow> ((codec_state \<times> 'st) \<times> (abci_err, unit) result) option" where
  "serve_loop V W A codec st =
     (case codec_next V (server_codec W) codec of
        (codec1, Ok (Some request)) \<Rightarrow>
          (case handle A request st of
             (st1, Ok response) \<Rightarrow>
               (case (codec_send V (server_codec W) response codec1 :: codec_state \<times> (abci_err, unit) result) of
                  (codec2, Ok _) \<Rightarrow> serve_loop V W A codec2 st1
                | (codec2, Err e) \<Rightarrow> Some ((codec2, st1), Ok ())
                | (codec2, Panic) \<Rightarrow> Some ((codec2, st1), Panic))
           | (st1, _) \<Rightarrow> Some ((codec1, st1), Panic))
      | (codec1, Ok None) \<Rightarrow> Some ((codec1, st), Ok ())
      | (codec1, Err (e :: abci_err)) \<Rightarrow> Some ((codec1, st), Ok ())
      | (codec1, Panic) \<Rightarrow> Some ((codec1, st), Panic))"

definition handle_client ::
  "varint \<Rightarrow> abci_wire \<Rightarrow> 'st application \<Rightarrow> nat \<Rightarrow> tcp_stream \<Rightarrow> 'st \<Rightarrow> ((codec_state \<times> 'st) \<times> (abci_err, unit) result) option" where
  "handle_client V W A read_buf_size stream st = serve_loop V W A (codec_new stream read_buf_size) st"

section \<open>The client\<close>

definition default_client_read_buf_size :: nat where
  "default_client_read_buf_size = 1024"

type_synonym 'a client_call = "(codec_state, abci_err, 'a) call"

definition client_connect :: "nat \<Rightarrow> (string, tcp_stream) result \<Rightarrow> (abci_err, codec_state) result" where
  "client_connect read_buf_size connected =
     and_then (map_err AE_Io connected) (\<lambda>stream. Ok (codec_new stream read_buf_size))"

definition perform :: "varint \<Rightarrow> abci_wire \<Rightarrow> raw_request_value \<Rightarrow> raw_response_value client_call" where
  "perform V W req =
     sbind (codec_send V (client_codec W) \<lparr>rq_value = Some req\<rparr>) (\<lambda>_.
     sbind (codec_next V (client_codec W)) (\<lambda>res.
     lift (and_then (ok_or AE_ServerConnectionTerminated res) (\<lambda>res.
       ok_or AE_MalformedServerResponse (rs_value res)))))"

text \<open>The macro \<open>perform!\<close>: the response must be of the type of the request.\<close>

definition perform_as ::
  "string \<Rightarrow> (raw_response_value \<Rightarrow> 'a option) \<Rightarrow> varint \<Rightarrow> abci_wire \<Rightarrow> raw_request_value \<Rightarrow> 'a client_call" where
  "perform_as type select V W req =
     sbind (perform V W req) (\<lambda>r. lift (ok_or (AE_UnexpectedServerResponseType type r) (select r)))"

definition client_echo :: "varint \<Rightarrow> abci_wire \<Rightarrow> raw_request_echo \<Rightarrow> raw_response_echo client_call" where
  "client_echo V W req = perform_as ''Echo'' (\<lambda>r. case r of Rs_Echo x \<Rightarrow> Some x | _ \<Rightarrow> None) V W (Rq_Echo req)"

definition client_info :: "varint \<Rightarrow> abci_wire \<Rightarrow> raw_request_info \<Rightarrow> raw_response_info client_call" where
  "client_info V W req = perform_as ''Info'' (\<lambda>r. case r of Rs_Info x \<Rightarrow> Some x | _ \<Rightarrow> None) V W (Rq_Info req)"

definition client_init_chain :: "varint \<Rightarrow> abci_wire \<Rightarrow> raw_request_init_chain \<Rightarrow> raw_response_init_chain client_call" where
  "client_init_chain V W req =
     perform_as ''InitChain'' (\<lambda>r. case r of Rs_InitChain x \<Rightarrow> Some x | _ \<Rightarrow> None) V W (Rq_InitChain req)"

definition client_query :: "varint \<Rightarrow> abci_wire \<Rightarrow> raw_request_query \<Rightarrow> raw_response_query client_call" where
  "client_query V W req = perform_as ''Query'' (\<lambda>r. case r of Rs_Query x \<Rightarrow> Some x | _ \<Rightarrow> None) V W (Rq_Query req)"

definition client_check_tx :: "varint \<Rightarrow> abci_wire \<Rightarrow> raw_request_check_tx \<Rightarrow> raw_response_check_tx client_call" where
  "client_check_tx V W req =
     perform_as ''CheckTx'' (\<lambda>r. case r of Rs_CheckTx x \<Rightarrow> Some x | _ \<Rightarrow> None) V W (Rq_CheckTx req)"

definition client_flush :: "varint \<Rightarrow> abci_wire \<Rightarrow> unit client_call" where
  "client_flush V W = perform_as ''Flush'' (\<lambda>r. case r of Rs_Flush \<Rightarrow> Some () | _ \<Rightarrow> None) V W Rq_Flush"

definition client_commit :: "varint \<Rightarrow> abci_wire \<Rightarrow> raw_response_commit client_call" where
  "client_commit V W = perform_as ''Commit'' (\<lambda>r. case r of Rs_Commit x \<Rightarrow> Some x | _ \<Rightarrow> None) V W Rq_Commit"

definition client_list_snapshots :: "varint \<Rightarrow> abci_wire \<Rightarrow> raw_response_list_snapshots client_call" where
  "client_list_snapshots V W =
     perform_as ''ListSnapshots'' (\<lambda>r. case r of Rs_ListSnapshots x \<Rightarrow> Some x | _ \<Rightarrow> None) V W Rq_ListSnapshots"

definition client_offer_snapshot ::
  "varint \<Rightarrow> abci_wire \<Rightarrow> raw_request_offer_snapshot \<Rightarrow> raw_response_offer_snapshot client_call" where
  "client_offer_snapshot V W req =
     perform_as ''OfferSnapshot'' (\<lambda>r. case r of Rs_OfferSnapshot x \<Rightarrow> Some x | _ \<Rightarrow> None) V W (Rq_OfferSnapshot req)"

definition client_load_snapshot_chunk ::
  "varint \<Rightarrow> abci_wire \<Rightarrow> raw_request_load_snapshot_chunk \<Rightarrow> raw_response_load_snapshot_chunk client_call" where
  "client_load_snapshot_chunk V W req =
     perform_as ''LoadSnapshotChunk'' (\<lambda>r. case r of Rs_LoadSnapshotChunk x \<Rightarrow> Some x | _ \<Rightarrow> None) V W (Rq_LoadSnapshotChunk req)"

definition client_apply_snapshot_chunk ::
  "varint \<Rightarrow> abci_wire \<Rightarrow> raw_request_apply_snapshot_chunk \<Rightarrow> raw_response_apply_snapshot_chunk client_call" where
  "client_apply_snapshot_chunk V W req =
     perform_as ''ApplySnapshotChunk'' (\<lambda>r. case r of Rs_ApplySnapshotChunk x \<Rightarrow> Some x | _ \<Rightarrow> None) V W (Rq_ApplySnapshotChunk req)"

definition client_extend_vote :: "varint \<Rightarrow> abci_wire \<Rightarrow> raw_request_extend_vote \<Rightarrow> raw_response_extend_vote client_call" where
  "client_extend_vote V W req =
     perform_as ''ExtendVote'' (\<lambda>r. case r of Rs_ExtendVote x \<Rightarrow> Some x | _ \<Rightarrow> None) V W (Rq_ExtendVote req)"

definition client_verify_vote_extension ::
  "varint \<Rightarrow> abci_wire \<Rightarrow> raw_request_verify_vote_extension \<Rightarrow> raw_response_verify_vote_extension client_call" where
  "client_verify_vote_extension V W req =
     perform_as ''VerifyVoteExtension'' (\<lambda>r. case r of Rs_VerifyVoteExtension x \<Rightarrow> Some x | _ \<Rightarrow> None) V W
       (Rq_VerifyVoteExtension req)"

definition client_finalize_block ::
  "varint \<Rightarrow> abci_wire \<Rightarrow> raw_request_finalize_block \<Rightarrow> raw_response_finalize_block client_call" where
  "client_finalize_block V W req =
     perform_as ''FinalizeBlock'' (\<lambda>r. case r of Rs_FinalizeBlock x \<Rightarrow> Some x | _ \<Rightarrow> None) V W (Rq_FinalizeBlock req)"

end
