(* ===== verification/Abci_Codec_Lemmas.thy ===== *)
theory Abci_Codec_Lemmas
  imports Abci_Codec "HOL-Library.Sublist"
begin

text \<open>
  The framing of ABCI messages: however the bytes of a list of messages are cut into reads, the codec
  returns the messages in order; however the writes are cut, the frames go out in order.
\<close>

section \<open>Variable-length integers\<close>

text \<open>
  What the framing needs of \<open>encode_varint\<close> and \<open>decode_varint\<close>: an encoding is read back whatever
  follows, a proper prefix of it is not an encoding, and it is no longer than the limit of the codec.
\<close>

definition varint_law :: "varint \<Rightarrow> bool" where
  "varint_law V \<longleftrightarrow>
     (\<forall>n r. vi_decode V (vi_encode V n @ r) = Some (n, r))
     \<and> (\<forall>n p. strict_prefix p (vi_encode V n) \<longrightarrow> vi_decode V p = None)
     \<and> (\<forall>n. length (vi_encode V n) \<le> max_varint_length)"

lemma varint_nonempty: "varint_law V \<Longrightarrow> vi_encode V n \<noteq> []"
proof
  assume law: "varint_law V" "vi_encode V n = []"
  then have "vi_decode V r = Some (n, r)" for r unfolding varint_law_def by (metis append_Nil)
  with law(1) have "vi_encode V m = [] \<or> vi_decode V [] = None" for m
    unfolding varint_law_def by (metis strict_prefix_simps(2) list.exhaust)
  with \<open>\<And>r. vi_decode V r = Some (n, r)\<close> have "vi_encode V m = []" for m by (metis option.distinct(1))
  then have "vi_decode V r = Some (m, r)" for m r using law(1) unfolding varint_law_def by (metis append_Nil)
  then have "Some (0 :: u64, r) = Some (1, r)" for r :: bytes by metis
  then show False by simp
qed

section \<open>Frames\<close>

text \<open>A message the two ends agree on: it encodes to bytes of representable length that decode to it.\<close>

definition transmissible :: "('o \<Rightarrow> bytes option) \<Rightarrow> (bytes \<Rightarrow> 'o option) \<Rightarrow> 'o \<Rightarrow> bool" where
  "transmissible enc dec m \<longleftrightarrow> (\<exists>b. enc m = Some b \<and> dec b = Some m \<and> length b < 2 ^ 64)"

definition frame :: "varint \<Rightarrow> ('o \<Rightarrow> bytes option) \<Rightarrow> 'o \<Rightarrow> bytes" where
  "frame V enc m = (case enc m of Some b \<Rightarrow> vi_encode V (of_nat (length b)) @ b | None \<Rightarrow> [])"

lemma frame_nonempty: "varint_law V \<Longrightarrow> transmissible enc dec m \<Longrightarrow> frame V enc m \<noteq> []"
  by (auto simp: frame_def transmissible_def varint_nonempty)

lemma decode_frame:
  assumes "varint_law V" "transmissible enc dec m"
  shows "decode_length_delimited V dec (frame V enc m @ rest) = (rest, Ok (Some m))"
proof -
  obtain b where b: "enc m = Some b" "dec b = Some m" "length b < 2 ^ 64" using assms(2) by (auto simp: transmissible_def)
  have "vi_decode V (vi_encode V (of_nat (length b)) @ b @ rest) = Some (of_nat (length b), b @ rest)"
    using assms(1) unfolding varint_law_def by blast
  moreover have u: "unat (of_nat (length b) :: u64) = length b" using b(3) by (simp add: unat_of_nat)
  ultimately show ?thesis by (simp add: frame_def b decode_length_delimited_def Let_def)
qed

text \<open>A proper prefix of a frame is left in the buffer.\<close>

lemma decode_partial_frame:
  assumes "varint_law V" "transmissible enc dec m" "strict_prefix p (frame V enc m)"
  shows "decode_length_delimited V dec p = (p, Ok None)"
proof -
  obtain b where b: "enc m = Some b" "length b < 2 ^ 64" using assms(2) by (auto simp: transmissible_def)
  let ?v = "vi_encode V (of_nat (length b))"
  have sp: "strict_prefix p (?v @ b)" using assms(3) by (simp add: frame_def b)
  then consider (head) "strict_prefix p ?v" | (body) q where "p = ?v @ q" "strict_prefix q b"
    by (cases "p = ?v") (auto simp: strict_prefix_def prefix_append)
  then show ?thesis
  proof cases
    case head
    then have "vi_decode V p = None" using assms(1) unfolding varint_law_def by blast
    moreover have "length p \<le> max_varint_length"
      using assms(1) prefix_length_less [OF head] unfolding varint_law_def by (metis less_imp_le order_trans)
    ultimately show ?thesis by (simp add: decode_length_delimited_def)
  next
    case body
    have "vi_decode V p = Some (of_nat (length b), q)" using assms(1) body(1) unfolding varint_law_def by blast
    moreover have "length q < unat (of_nat (length b) :: u64)"
      using prefix_length_less [OF body(2)] b(2) by (simp add: unat_of_nat)
    ultimately show ?thesis by (simp add: decode_length_delimited_def)
  qed
qed

section \<open>Reading\<close>

text \<open>The bytes a list of reads brings, when none of them fails or ends the stream.\<close>

fun read_bytes :: "read_event list \<Rightarrow> bytes" where
  "read_bytes [] = []"
| "read_bytes (Read_Bytes bs # rest) = bs @ read_bytes rest"
| "read_bytes (Read_Error e # rest) = []"

definition plain_reads :: "read_event list \<Rightarrow> bool" where
  "plain_reads reads \<longleftrightarrow> list_all (\<lambda>e. case e of Read_Bytes bs \<Rightarrow> bs \<noteq> [] | Read_Error _ \<Rightarrow> False) reads"

lemma plain_reads_simps [simp]:
  "plain_reads []" "plain_reads (Read_Bytes bs # rest) \<longleftrightarrow> bs \<noteq> [] \<and> plain_reads rest"
  "\<not> plain_reads (Read_Error e # rest)"
  by (auto simp: plain_reads_def)

lemma plain_reads_append [simp]: "plain_reads (xs @ ys) \<longleftrightarrow> plain_reads xs \<and> plain_reads ys"
  by (simp add: plain_reads_def)

lemma read_bytes_append [simp]: "plain_reads xs \<Longrightarrow> read_bytes (xs @ ys) = read_bytes xs @ read_bytes ys"
  by (induction xs rule: read_bytes.induct) simp_all

lemma next_loop_frame:
  assumes "varint_law V" "transmissible enc dec m" "0 < window"
    and "plain_reads reads" "buf @ read_bytes reads = frame V enc m @ rest"
  shows "\<exists>reads' buf'. next_loop V dec window (reads @ later) buf = ((reads' @ later, buf'), Ok (Some m))
    \<and> plain_reads reads' \<and> buf' @ read_bytes reads' = rest"
  using assms(4,5)
proof (induction "length (read_bytes reads)" arbitrary: reads buf rule: less_induct)
  case less
  consider (whole) q where "buf = frame V enc m @ q" | (part) "strict_prefix buf (frame V enc m)"
    using less.prems(2) by (metis append_eq_append_conv2 prefix_def strict_prefix_def append_Nil2)
  then show ?case
  proof cases
    case whole
    then show ?thesis using less.prems by (subst next_loop.simps) (simp add: decode_frame [OF assms(1,2)])
  next
    case part
    note none = decode_partial_frame [OF assms(1,2) part]
    have "reads \<noteq> []" using part less.prems(2) by (auto simp: strict_prefix_def)
    then obtain bs tl where reads: "reads = Read_Bytes bs # tl" "bs \<noteq> []" "plain_reads tl"
      using less.prems(1) by (cases reads rule: read_bytes.cases) auto
    define reads1 where "reads1 = (if drop window bs = [] then tl else Read_Bytes (drop window bs) # tl)"
    have r1: "read_bytes reads1 = drop window bs @ read_bytes tl" "plain_reads reads1"
      using reads(3) by (simp_all add: reads1_def)
    have step: "next_loop V dec window (reads @ later) buf = next_loop V dec window (reads1 @ later) (buf @ take window bs)"
      using reads assms(3) by (subst next_loop.simps) (simp add: none reads1_def)
    have "buf @ take window bs @ read_bytes reads1 = frame V enc m @ rest"
      using less.prems(2) by (simp add: reads(1) r1(1) flip: append_assoc)
    moreover have "length (read_bytes reads1) < length (read_bytes reads)"
      using reads assms(3) by (simp add: r1(1))
    ultimately show ?thesis using less.hyps [of reads1 "buf @ take window bs"] r1(2) by (simp add: step)
  qed
qed

text \<open>Reads that bring less than a frame only fill the buffer.\<close>

lemma next_loop_truncated:
  assumes "varint_law V" "transmissible enc dec m" "0 < window"
    and "plain_reads reads" "strict_prefix (buf @ read_bytes reads) (frame V enc m)"
  shows "next_loop V dec window (reads @ later) buf = next_loop V dec window later (buf @ read_bytes reads)"
  using assms(4,5)
proof (induction "length (read_bytes reads)" arbitrary: reads buf rule: less_induct)
  case less
  have "strict_prefix buf (frame V enc m)"
    using less.prems(2) by (metis append_prefixD prefix_order.less_le_trans prefix_order.le_less_trans prefixI)
  note none = decode_partial_frame [OF assms(1,2) this]
  show ?case
  proof (cases reads)
    case Nil
    then show ?thesis by simp
  next
    case (Cons e tl)
    with less.prems(1) obtain bs where reads: "reads = Read_Bytes bs # tl" "bs \<noteq> []" "plain_reads tl" by (cases e) auto
    define reads1 where "reads1 = (if drop window bs = [] then tl else Read_Bytes (drop window bs) # tl)"
    have r1: "read_bytes reads1 = drop window bs @ read_bytes tl" "plain_reads reads1"
      using reads(3) by (simp_all add: reads1_def)
    have step: "next_loop V dec window (reads @ later) buf = next_loop V dec window (reads1 @ later) (buf @ take window bs)"
      using reads assms(3) by (subst next_loop.simps) (simp add: none reads1_def)
    have same: "(buf @ take window bs) @ read_bytes reads1 = buf @ read_bytes reads"
      by (simp add: reads(1) r1(1))
    have "length (read_bytes reads1) < length (read_bytes reads)"
      using reads assms(3) by (simp add: r1(1))
    then show ?thesis using less.hyps [of reads1 "buf @ take window bs"] r1(2) less.prems(2) same by (simp add: step)
  qed
qed

text \<open>Taking messages off a codec, as many as asked for.\<close>

fun codec_take :: "varint \<Rightarrow> ('i, 'o) messages \<Rightarrow> nat \<Rightarrow> (codec_state, 'r abci_error, 'i option list) call" where
  "codec_take V M 0 = lift (Ok [])"
| "codec_take V M (Suc n) = sbind (codec_next V M) (\<lambda>m. sbind (codec_take V M n) (\<lambda>ms. lift (Ok (m # ms))))"

definition incoming :: "codec_state \<Rightarrow> bytes" where
  "incoming c = cd_read_buf c @ read_bytes (ts_reads (cd_stream c))"

definition readable :: "codec_state \<Rightarrow> bool" where
  "readable c \<longleftrightarrow> 0 < cd_read_window c \<and> plain_reads (ts_reads (cd_stream c))"

text \<open>A codec whose reads bring bytes first and something else later.\<close>

definition readable_until :: "read_event list \<Rightarrow> bytes \<Rightarrow> codec_state \<Rightarrow> bool" where
  "readable_until later bs c \<longleftrightarrow> 0 < cd_read_window c
     \<and> (\<exists>reads. plain_reads reads \<and> ts_reads (cd_stream c) = reads @ later \<and> cd_read_buf c @ read_bytes reads = bs)"

lemma readable_until_Nil: "readable_until [] bs c \<longleftrightarrow> readable c \<and> incoming c = bs"
  by (auto simp: readable_until_def readable_def incoming_def)

lemma codec_next_frame_until:
  assumes "varint_law V" "transmissible enc (ms_decode M) m" "readable_until later (frame V enc m @ rest) c"
  shows "\<exists>c'. codec_next V M c = (c', Ok (Some m) :: ('r abci_error, _) result) \<and> readable_until later rest c'"
proof -
  from assms(3) obtain reads where "0 < cd_read_window c" "plain_reads reads" and reads: "ts_reads (cd_stream c) = reads @ later"
    and "cd_read_buf c @ read_bytes reads = frame V enc m @ rest" by (auto simp: readable_until_def)
  with next_loop_frame [OF assms(1,2), of "cd_read_window c" reads "cd_read_buf c" rest later]
  obtain reads' buf' where "next_loop V (ms_decode M) (cd_read_window c) (reads @ later) (cd_read_buf c)
      = ((reads' @ later, buf'), Ok (Some m) :: ('r abci_error, _) result)" "plain_reads reads'" "buf' @ read_bytes reads' = rest"
    by auto
  with assms(3) reads show ?thesis by (auto simp: codec_next_def readable_until_def)
qed

lemmas codec_next_frame = codec_next_frame_until [of _ _ _ _ "[]", unfolded readable_until_Nil]

lemma codec_take_frames:
  assumes "varint_law V" "list_all (transmissible enc (ms_decode M)) ms" "readable c"
    and "incoming c = concat (map (frame V enc) ms) @ rest"
  shows "\<exists>c'. codec_take V M (length ms) c = (c', Ok (map Some ms) :: ('r abci_error, _) result) \<and> readable c' \<and> incoming c' = rest"
  using assms(2-)
proof (induction ms arbitrary: c)
  case (Cons m ms)
  then obtain c1 where "codec_next V M c = (c1, Ok (Some m) :: ('r abci_error, _) result)" "readable c1" "incoming c1 = concat (map (frame V enc) ms) @ rest"
    using codec_next_frame [OF assms(1), of enc M m c] by auto
  with Cons.IH [of c1] Cons.prems show ?case by (auto simp: sbind_def)
qed simp

section \<open>Writing\<close>

definition plain_writes :: "write_event list \<Rightarrow> bool" where
  "plain_writes ws \<longleftrightarrow> list_all (\<lambda>e. case e of Write_Some n \<Rightarrow> 0 < n | Write_Error _ \<Rightarrow> False) ws"

lemma drain_plain:
  "plain_writes ws \<Longrightarrow> \<exists>ws'. drain ws written buf = ((ws', written @ buf, []), Ok ()) \<and> plain_writes ws'"
proof (induction ws written buf rule: drain.induct)
  case (4 n ws written b bs)
  then show ?case by (auto simp: plain_writes_def Let_def min_def)
qed (auto simp: plain_writes_def)

definition writable :: "codec_state \<Rightarrow> bool" where
  "writable c \<longleftrightarrow> plain_writes (ts_writes (cd_stream c)) \<and> ts_flush_error (cd_stream c) = None \<and> cd_write_buf c = []"

lemma codec_send_frame:
  assumes "writable c" "ms_encode M m = Some b"
  shows "\<exists>c'. codec_send V M m c = (c', Ok () :: ('r abci_error, _) result) \<and> writable c'
    \<and> ts_written (cd_stream c') = ts_written (cd_stream c) @ frame V (ms_encode M) m"
proof -
  from drain_plain [of "ts_writes (cd_stream c)" "ts_written (cd_stream c)" "frame V (ms_encode M) m"] assms(1)
  obtain ws' where "drain (ts_writes (cd_stream c)) (ts_written (cd_stream c)) (frame V (ms_encode M) m)
      = ((ws', ts_written (cd_stream c) @ frame V (ms_encode M) m, []), Ok () :: ('r abci_error, _) result)" "plain_writes ws'"
    by (auto simp: writable_def)
  with assms show ?thesis
    by (simp add: codec_send_def encode_length_delimited_def writable_def frame_def)
qed

fun codec_sends :: "varint \<Rightarrow> ('i, 'o) messages \<Rightarrow> 'o list \<Rightarrow> (codec_state, 'r abci_error, unit) call" where
  "codec_sends V M [] = lift (Ok ())"
| "codec_sends V M (m # ms) = sbind (codec_send V M m) (\<lambda>_. codec_sends V M ms)"

lemma codec_sends_frames:
  assumes "writable c" "list_all (\<lambda>m. ms_encode M m \<noteq> None) ms"
  shows "\<exists>c'. codec_sends V M ms c = (c', Ok () :: ('r abci_error, _) result) \<and> writable c'
    \<and> ts_written (cd_stream c') = ts_written (cd_stream c) @ concat (map (frame V (ms_encode M)) ms)"
  using assms
proof (induction ms arbitrary: c)
  case (Cons m ms)
  then obtain c1 where "codec_send V M m c = (c1, Ok () :: ('r abci_error, _) result)" "writable c1"
      "ts_written (cd_stream c1) = ts_written (cd_stream c) @ frame V (ms_encode M) m"
    using codec_send_frame [of c M m _ V, where 'r = 'r] by auto
  with Cons.IH [of c1] Cons.prems show ?case by (auto simp: sbind_def)
qed simp

section \<open>The integers of the wire format\<close>

text \<open>
  Seven bits to a byte, the least significant first, the top bit marking that more follow: the
  encoding satisfies what the framing asks of it.
\<close>

fun leb128_encode :: "nat \<Rightarrow> bytes" where
  "leb128_encode n = (if n < 128 then [of_nat n] else of_nat (128 + n mod 128) # leb128_encode (n div 128))"

declare leb128_encode.simps [simp del]

fun leb128_decode :: "bytes \<Rightarrow> (nat \<times> bytes) option" where
  "leb128_decode [] = None"
| "leb128_decode (b # bs) =
     (if unat b < 128 then Some (unat b, bs)
      else map_option (\<lambda>(n, r). (unat b - 128 + 128 * n, r)) (leb128_decode bs))"

definition leb128 :: varint where
  "leb128 = \<lparr>vi_encode = (\<lambda>n. leb128_encode (unat n)), vi_decode = (\<lambda>bs. map_option (\<lambda>(n, r). (of_nat n, r)) (leb128_decode bs))\<rparr>"

lemma unat_byte: "n < 256 \<Longrightarrow> unat (of_nat n :: u8) = n"
  by (simp add: unat_of_nat)

lemma leb128_decode_encode: "leb128_decode (leb128_encode n @ r) = Some (n, r)"
proof (induction n rule: less_induct)
  case (less n)
  show ?case
  proof (cases "n < 128")
    case False
    have "unat (of_nat (128 + n mod 128) :: u8) = 128 + n mod 128" by (rule unat_byte) simp
    with False less [of "n div 128"] show ?thesis by (subst leb128_encode.simps) simp
  qed (subst leb128_encode.simps, simp add: unat_byte)
qed

lemma leb128_decode_prefix: "strict_prefix p (leb128_encode n) \<Longrightarrow> leb128_decode p = None"
proof (induction n arbitrary: p rule: less_induct)
  case (less n)
  show ?case
  proof (cases p)
    case (Cons b q)
    have n: "\<not> n < 128" using less.prems Cons by (subst (asm) leb128_encode.simps) (auto split: if_splits)
    have "unat (of_nat (128 + n mod 128) :: u8) = 128 + n mod 128" by (rule unat_byte) simp
    moreover have "strict_prefix p (of_nat (128 + n mod 128) # leb128_encode (n div 128))"
      using less.prems n by (subst (asm) leb128_encode.simps) simp
    ultimately show ?thesis using n Cons less.IH [of "n div 128" q] by auto
  qed simp
qed

lemma leb128_length: "n < 128 ^ Suc k \<Longrightarrow> length (leb128_encode n) \<le> Suc k"
proof (induction k arbitrary: n)
  case (Suc k)
  have "n div 128 < 128 ^ Suc k" using Suc.prems by (simp add: less_mult_imp_div_less mult.commute)
  then show ?case using Suc.IH by (subst leb128_encode.simps) simp
qed (simp add: leb128_encode.simps)

lemma leb128_law: "varint_law leb128"
proof -
  have "length (leb128_encode (unat n)) \<le> max_varint_length" for n :: u64
  proof -
    have "unat n < 2 ^ 64" by (rule order_less_le_trans [OF unsigned_less]) simp
    then have "unat n < 128 ^ Suc 9" by simp
    from leb128_length [OF this] show ?thesis by (simp add: max_varint_length_def)
  qed
  then show ?thesis
    by (auto simp: varint_law_def leb128_def leb128_decode_encode leb128_decode_prefix)
qed

end
