(* ===== verification/Kvstore.thy ===== *)
theory Kvstore
  imports Abci_App "HOL-Library.AList"
begin

text \<open>
  \<open>abci/src/application/kvstore.rs\<close>: a key/value store behind the application interface. One driver
  thread owns the store and executes the commands it receives on a channel; the application handles,
  one per connection, send a command and wait for its reply.
\<close>

section \<open>Text\<close>

text \<open>
  \<open>std::str::from_utf8\<close>: the well-formed byte sequences of UTF-8, with no overlong form, no surrogate
  and nothing beyond the last code point.
\<close>

definition byte_between :: "nat \<Rightarrow> nat \<Rightarrow> u8 \<Rightarrow> bool" where
  "byte_between lo hi b \<longleftrightarrow> lo \<le> unat b \<and> unat b \<le> hi"

fun utf8_valid :: "bytes \<Rightarrow> bool" where
  "utf8_valid [] = True"
| "utf8_valid (b # bs) =
     (if unat b < 0x80 then utf8_valid bs
      else if byte_between 0xC2 0xDF b then
        (case bs of c # r \<Rightarrow> byte_between 0x80 0xBF c \<and> utf8_valid r | _ \<Rightarrow> False)
      else if byte_between 0xE0 0xEF b then
        (case bs of c # d # r \<Rightarrow>
             byte_between (if unat b = 0xE0 then 0xA0 else 0x80) (if unat b = 0xED then 0x9F else 0xBF) c
             \<and> byte_between 0x80 0xBF d \<and> utf8_valid r
         | _ \<Rightarrow> False)
      else if byte_between 0xF0 0xF4 b then
        (case bs of c # d # e # r \<Rightarrow>
             byte_between (if unat b = 0xF0 then 0x90 else 0x80) (if unat b = 0xF4 then 0x8F else 0xBF) c
             \<and> byte_between 0x80 0xBF d \<and> byte_between 0x80 0xBF e \<and> utf8_valid r
         | _ \<Rightarrow> False)
      else False)"

definition byte_char :: "u8 \<Rightarrow> char" where
  "byte_char b = char_of (unat b)"

definition into_bytes :: "string \<Rightarrow> bytes" where
  "into_bytes s = map (\<lambda>c. of_nat (of_char c)) s"

definition from_utf8 :: "bytes \<Rightarrow> string option" where
  "from_utf8 bs = (if utf8_valid bs then Some (map byte_char bs) else None)"

text \<open>\<open>str::split\<close> at a character: the pieces between its occurrences.\<close>

fun split_at :: "char \<Rightarrow> string \<Rightarrow> string list" where
  "split_at c [] = [[]]"
| "split_at c (x # xs) =
     (if x = c then [] # split_at c xs
      else (case split_at c xs of p # ps \<Rightarrow> (x # p) # ps | [] \<Rightarrow> [[x]]))"

section \<open>The driver\<close>

record kv_driver =
  kv_store :: "(string \<times> string) list"
  kv_height :: i64
  kv_app_hash :: bytes

datatype kv_command = GetInfo | Get string | Set string string | Commit

datatype kv_reply =
    Info_Reply i64 bytes
  | Get_Reply i64 "string option"
  | Set_Reply "string option"
  | Commit_Reply i64

definition driver_new :: kv_driver where
  "driver_new = \<lparr>kv_store = [], kv_height = 0, kv_app_hash = replicate max_varint_length 0\<rparr>"

definition driver_commit :: "varint \<Rightarrow> kv_driver \<Rightarrow> kv_driver" where
  "driver_commit V d =
     d\<lparr>kv_app_hash := vi_encode V (of_nat (length (kv_store d))), kv_height := kv_height d + 1\<rparr>"

fun driver_handle :: "varint \<Rightarrow> kv_command \<Rightarrow> kv_driver \<Rightarrow> kv_driver \<times> kv_reply" where
  "driver_handle V GetInfo d = (d, Info_Reply (kv_height d) (kv_app_hash d))"
| "driver_handle V (Get key) d = (d, Get_Reply (kv_height d) (map_of (kv_store d) key))"
| "driver_handle V (Set key val) d =
     (d\<lparr>kv_store := AList.update key val (kv_store d)\<rparr>, Set_Reply (map_of (kv_store d) key))"
| "driver_handle V Commit d = (driver_commit V d, Commit_Reply (kv_height (driver_commit V d)))"

text \<open>
  The driver's loop over the commands that arrive until every sender is gone. A command comes with
  whether its reply is still awaited: the driver stops when it is not. The replies are collected.
\<close>

fun driver_run :: "varint \<Rightarrow> (kv_command \<times> bool) list \<Rightarrow> kv_driver
    \<Rightarrow> kv_driver \<times> kv_reply list \<times> (abci_err, unit) result" where
  "driver_run V [] d = (d, [], Err AE_ChannelRecv)"
| "driver_run V ((cmd, awaited) # cmds) d =
     (case driver_handle V cmd d of
        (d', reply) \<Rightarrow>
          if awaited then (case driver_run V cmds d' of (d'', replies, r) \<Rightarrow> (d'', reply # replies, r))
          else (d', [], Err AE_ChannelSend))"

section \<open>The application\<close>

text \<open>
  A handle's view of the driver: the running driver, or \<open>None\<close> once it has stopped. A command is sent
  with \<open>channel_send\<close> and its reply awaited with \<open>channel_recv\<close>.
\<close>

type_synonym 'a kv_call = "(kv_driver option, 'a) app_call"

definition kv_request :: "varint \<Rightarrow> kv_command \<Rightarrow> kv_reply kv_call" where
  "kv_request V cmd s =
     (case s of
        None \<Rightarrow> (None, Err AE_ChannelSend)
      | Some d \<Rightarrow> (case driver_handle V cmd d of (d', reply) \<Rightarrow> (Some d', Ok reply)))"

text \<open>Each command has a reply channel of its own type: the other replies do not occur.\<close>

definition kv_get :: "varint \<Rightarrow> string \<Rightarrow> (i64 \<times> string option) kv_call" where
  "kv_get V key = sbind (kv_request V (Get key)) (\<lambda>r. lift (case r of Get_Reply h v \<Rightarrow> Ok (h, v) | _ \<Rightarrow> Panic))"

definition kv_set :: "varint \<Rightarrow> string \<Rightarrow> string \<Rightarrow> string option kv_call" where
  "kv_set V key val = sbind (kv_request V (Set key val)) (\<lambda>r. lift (case r of Set_Reply v \<Rightarrow> Ok v | _ \<Rightarrow> Panic))"

definition unwrap :: "('s, 'e, 'a) call \<Rightarrow> ('s, 'e, 'a) call" where
  "unwrap m s = (case m s of (s', Err e) \<Rightarrow> (s', Panic) | r \<Rightarrow> r)"

definition kv_info :: "varint \<Rightarrow> raw_request_info \<Rightarrow> raw_response_info kv_call" where
  "kv_info V request =
     sbind (unwrap (kv_request V GetInfo)) (\<lambda>r. lift (case r of
        Info_Reply last_block_height last_block_app_hash \<Rightarrow>
          Ok \<lparr>rsin_data = ''kvstore-rs'', rsin_version = ''0.1.0'', rsin_app_version = 1,
              rsin_last_block_height = last_block_height, rsin_last_block_app_hash = last_block_app_hash\<rparr>
      | _ \<Rightarrow> Panic))"

definition kv_query :: "varint \<Rightarrow> raw_request_query \<Rightarrow> raw_response_query kv_call" where
  "kv_query V request =
     (case from_utf8 (rqqu_data request) of
        None \<Rightarrow> lift Panic
      | Some key \<Rightarrow>
          sbind (unwrap (kv_get V key)) (\<lambda>(height, value_opt).
            lift (Ok \<lparr>rsqu_code = 0,
              rsqu_log = (case value_opt of Some _ \<Rightarrow> ''exists'' | None \<Rightarrow> ''does not exist''),
              rsqu_info = [], rsqu_index = 0, rsqu_key = rqqu_data request,
              rsqu_value = (case value_opt of Some value \<Rightarrow> into_bytes value | None \<Rightarrow> []),
              rsqu_proof_ops = None, rsqu_height = height, rsqu_codespace = []\<rparr>)))"

definition kv_check_tx :: "raw_request_check_tx \<Rightarrow> raw_response_check_tx kv_call" where
  "kv_check_tx request =
     lift (Ok \<lparr>rsct_code = 0, rsct_data = [], rsct_log = [], rsct_info = [],
       rsct_gas_wanted = 1, rsct_gas_used = 0, rsct_events = [], rsct_codespace = []\<rparr>)"

definition kv_commit :: "varint \<Rightarrow> raw_response_commit kv_call" where
  "kv_commit V =
     sbind (unwrap (kv_request V Commit)) (\<lambda>r. lift (case r of
        Commit_Reply height \<Rightarrow> Ok \<lparr>rsco_retain_height = height - 1\<rparr> | _ \<Rightarrow> Panic))"

definition tx_entry :: "string \<Rightarrow> string \<times> string" where
  "tx_entry tx = (let tx_parts = split_at CHR ''='' tx in
     if length tx_parts = 2 then (tx_parts ! 0, tx_parts ! 1) else (tx, tx))"

definition tx_event :: "string \<Rightarrow> raw_event" where
  "tx_event key =
     \<lparr>rev_type = ''app'', rev_attributes =
        [\<lparr>rea_key = ''key'', rea_value = key, rea_index = True\<rparr>,
         \<lparr>rea_key = ''index_key'', rea_value = ''index is working'', rea_index = True\<rparr>,
         \<lparr>rea_key = ''noindex_key'', rea_value = ''index is working'', rea_index = False\<rparr>]\<rparr>"

fun deliver_txs :: "varint \<Rightarrow> bytes list \<Rightarrow> raw_event list \<Rightarrow> raw_event list kv_call" where
  "deliver_txs V [] events = lift (Ok events)"
| "deliver_txs V (tx # txs) events =
     (case from_utf8 tx of
        None \<Rightarrow> lift Panic
      | Some text \<Rightarrow>
          (case tx_entry text of
             (key, val) \<Rightarrow> sbind (unwrap (kv_set V key val)) (\<lambda>_. deliver_txs V txs (events @ [tx_event key]))))"

definition kv_finalize_block :: "varint \<Rightarrow> raw_request_finalize_block \<Rightarrow> raw_response_finalize_block kv_call" where
  "kv_finalize_block V request =
     sbind (deliver_txs V (rqfb_txs request) []) (\<lambda>events.
       lift (Ok \<lparr>rsfb_events = events, rsfb_tx_results = [], rsfb_validator_updates = [],
         rsfb_consensus_param_updates = None, rsfb_app_hash = []\<rparr>))"

text \<open>The other methods keep their defaults.\<close>

definition kvstore_app :: "varint \<Rightarrow> kv_driver option application" where
  "kvstore_app V = default_application
     \<lparr>app_info := kv_info V, app_query := kv_query V, app_check_tx := kv_check_tx,
      app_commit := kv_commit V, app_finalize_block := kv_finalize_block V\<rparr>"

end
