(* ===== verification/Kvstore_Lemmas.thy ===== *)
theory Kvstore_Lemmas
  imports Kvstore "HOL-Library.Sublist"
begin

text \<open>
  The default proposal keeps the longest prefix of the transactions that fits; the replies of the
  driver are a function of the commands before them; and a run of the key/value application is
  determined by the transactions delivered and the number of commits.
\<close>

section \<open>Preparing a proposal\<close>

definition sizes :: "bytes list \<Rightarrow> nat" where
  "sizes txs = sum_list (map length txs)"

lemma total_size_exact: "sizes txs \<le> usize_max \<Longrightarrow> total_size txs = sizes txs"
proof -
  have "acc + sizes txs \<le> usize_max \<Longrightarrow>
      foldl (\<lambda>acc tx. min (acc + length tx) usize_max) acc txs = acc + sizes txs" for acc
    by (induction txs arbitrary: acc) (simp_all add: sizes_def)
  from this [of 0] show "sizes txs \<le> usize_max \<Longrightarrow> ?thesis" by (simp add: total_size_def)
qed

lemma sizes_butlast: "txs \<noteq> [] \<Longrightarrow> sizes txs - length (last txs) = sizes (butlast txs)"
  by (cases txs rule: rev_cases) (simp_all add: sizes_def)

lemma drop_txs_longest:
  "\<exists>n \<le> length txs. drop_txs m (sizes txs) txs = take n txs \<and> sizes (take n txs) \<le> m
     \<and> (\<forall>k \<le> length txs. n < k \<longrightarrow> m < sizes (take k txs))"
proof (induction "length txs" arbitrary: txs)
  case 0
  then show ?case by (simp add: drop_txs.simps sizes_def)
next
  case (Suc l)
  show ?case
  proof (cases "m < sizes txs")
    case True
    have "txs \<noteq> []" and l: "length (butlast txs) = l" using Suc(2) by auto
    from Suc(1) [of "butlast txs"] obtain n where n: "n \<le> l"
        "drop_txs m (sizes (butlast txs)) (butlast txs) = take n (butlast txs)" "sizes (take n (butlast txs)) \<le> m"
        "\<forall>k \<le> l. n < k \<longrightarrow> m < sizes (take k (butlast txs))" unfolding l by blast
    have t: "take k (butlast txs) = take k txs" if "k \<le> l" for k
      using that Suc(2) by (metis butlast_conv_take diff_Suc_1 min.absorb1 take_take)
    have "drop_txs m (sizes txs) txs = take n txs"
      using True n(1,2) t \<open>txs \<noteq> []\<close> by (subst drop_txs.simps) (simp add: sizes_butlast)
    moreover have "m < sizes (take k txs)" if "k \<le> length txs" "n < k" for k
      using that n(4) t True Suc(2) by (cases "k \<le> l") (auto simp: not_le)
    ultimately show ?thesis using n t Suc(2) by (intro exI [of _ n]) auto
  qed (auto simp: drop_txs.simps intro!: exI [of _ "length txs"])
qed

section \<open>The driver\<close>

text \<open>What the commands before a point leave behind: the last value set for a key, and the commits.\<close>

fun written :: "kv_command list \<Rightarrow> (string \<times> string) list" where
  "written [] = []"
| "written (Set key val # cmds) = written cmds @ [(key, val)]"
| "written (_ # cmds) = written cmds"

definition commits :: "kv_command list \<Rightarrow> nat" where
  "commits cmds = length (filter (\<lambda>c. c = Commit) cmds)"

text \<open>The number of keys at the last commit, if there was one.\<close>

fun committed_keys :: "kv_command list \<Rightarrow> nat option" where
  "committed_keys [] = None"
| "committed_keys (c # rev_before) =
     (if c = Commit then Some (card (fst ` set (written (rev rev_before)))) else committed_keys rev_before)"

definition hash_after :: "varint \<Rightarrow> kv_command list \<Rightarrow> bytes" where
  "hash_after V cmds = (case committed_keys (rev cmds) of
     None \<Rightarrow> replicate max_varint_length 0 | Some n \<Rightarrow> vi_encode V (of_nat n))"

lemma written_append: "written (xs @ ys) = written ys @ written xs"
  by (induction xs rule: written.induct) simp_all

fun expected :: "varint \<Rightarrow> kv_command list \<Rightarrow> kv_command \<Rightarrow> kv_reply" where
  "expected V before GetInfo = Info_Reply (of_nat (commits before)) (hash_after V before)"
| "expected V before (Get key) = Get_Reply (of_nat (commits before)) (map_of (written before) key)"
| "expected V before (Set key val) = Set_Reply (map_of (written before) key)"
| "expected V before Commit = Commit_Reply (of_nat (Suc (commits before)))"

definition history :: "varint \<Rightarrow> kv_command list \<Rightarrow> kv_driver \<Rightarrow> bool" where
  "history V before d \<longleftrightarrow>
     distinct (map fst (kv_store d)) \<and> map_of (kv_store d) = map_of (written before)
     \<and> kv_height d = of_nat (commits before) \<and> kv_app_hash d = hash_after V before"

lemma history_new: "history V [] driver_new"
  by (simp add: history_def driver_new_def commits_def hash_after_def)

lemma history_keys: "history V before d \<Longrightarrow> length (kv_store d) = card (fst ` set (written before))"
  unfolding history_def by (metis distinct_card dom_map_of_conv_image_fst length_map list.set_map)

lemma driver_handle_history:
  assumes "history V before d" "driver_handle V cmd d = (d', reply)"
  shows "history V (before @ [cmd]) d'" "reply = expected V before cmd"
  using assms history_keys [OF assms(1)]
  by (cases cmd; auto simp: history_def commits_def hash_after_def driver_commit_def written_append
        update_conv' distinct_update add.commute)+

lemma driver_run_history:
  assumes "history V before d"
  shows "\<exists>d'. driver_run V (map (\<lambda>c. (c, True)) cmds) d
      = (d', map (\<lambda>i. expected V (before @ take i cmds) (cmds ! i)) [0..<length cmds], Err AE_ChannelRecv)
    \<and> history V (before @ cmds) d'"
  using assms
proof (induction cmds arbitrary: before d)
  case (Cons cmd cmds)
  obtain d1 reply where h: "driver_handle V cmd d = (d1, reply)" by force
  note hist = driver_handle_history [OF Cons.prems h]
  from Cons.IH [OF hist(1)] show ?case
    by (auto simp: h hist(2) map_upt_Suc simp del: upt_Suc)
qed simp

section \<open>The application\<close>

lemma into_bytes_byte_char [simp]: "into_bytes (map byte_char bs) = bs"
proof -
  have "unat b mod 256 = unat b" for b :: u8 using unsigned_less [of b, where ?'a = nat] by simp
  then show ?thesis by (induction bs) (simp_all add: into_bytes_def byte_char_def)
qed

lemma from_utf8_into_bytes: "from_utf8 bs = Some s \<Longrightarrow> into_bytes s = bs"
  by (auto simp: from_utf8_def split: if_splits)

text \<open>The entries a request delivers, the last first, and the commands it sends.\<close>

definition tx_entries :: "bytes list \<Rightarrow> (string \<times> string) list" where
  "tx_entries txs = map (\<lambda>tx. tx_entry (map byte_char tx)) txs"

lemma kv_set_running:
  "driver_handle V (Set key val) d = (d', reply) \<Longrightarrow> unwrap (kv_set V key val) (Some d) = (Some d', Ok (map_of (kv_store d) key))"
  by (auto simp: unwrap_def kv_set_def kv_request_def sbind_def)

lemma deliver_txs_running:
  assumes "history V before d" "list_all utf8_valid txs"
  shows "\<exists>d'. deliver_txs V txs events (Some d) = (Some d', Ok (events @ map (\<lambda>e. tx_event (fst e)) (tx_entries txs)))
    \<and> history V (before @ map (\<lambda>(key, val). Set key val) (tx_entries txs)) d'"
  using assms
proof (induction txs arbitrary: before d events)
  case (Cons tx txs)
  obtain key val where e: "tx_entry (map byte_char tx) = (key, val)" by force
  obtain d1 reply where h: "driver_handle V (Set key val) d = (d1, reply)" by force
  note hist = driver_handle_history(1) [OF Cons.prems(1) h]
  from Cons.IH [OF hist, of "events @ [tx_event key]"] Cons.prems(2)
  show ?case by (auto simp: e tx_entries_def from_utf8_def sbind_def kv_set_running [OF h])
qed (simp add: tx_entries_def)

lemma deliver_txs_malformed:
  "\<not> list_all utf8_valid txs \<Longrightarrow> snd (deliver_txs V txs events (Some d)) = Panic"
proof (induction txs arbitrary: d events)
  case (Cons tx txs)
  obtain key val where e: "tx_entry (map byte_char tx) = (key, val)" by force
  obtain d1 reply where h: "driver_handle V (Set key val) d = (d1, reply)" by force
  show ?case using Cons by (auto simp: e from_utf8_def sbind_def kv_set_running [OF h])
qed simp

lemma deliver_txs_append:
  "deliver_txs V xs events s = (s', Ok events') \<Longrightarrow> deliver_txs V (xs @ ys) events s = deliver_txs V ys events' s'"
  by (induction xs arbitrary: events s) (auto simp: sbind_Ok sbind_run split: option.splits prod.splits)

lemma written_sets: "written (map (\<lambda>(key, val). Set key val) es) = rev es"
  by (induction es) auto

section \<open>Applications that keep a log\<close>

text \<open>Requests served one after the other, until one panics.\<close>

fun serve :: "'st application \<Rightarrow> raw_request list \<Rightarrow> ('st, raw_response list) app_call" where
  "serve A [] = lift (Ok [])"
| "serve A (req # reqs) = sbind (handle A req) (\<lambda>resp. sbind (serve A reqs) (\<lambda>resps. lift (Ok (resp # resps))))"

text \<open>
  The contract of an application whose state follows from a log of operations: a request it can answer is
  answered and adds its operations to the log, every other request panics. A session of requests then
  adds the operations of all of them, or panics if one cannot be answered.
\<close>

locale logged_application =
  fixes A :: "'st application"
    and log :: "'op list \<Rightarrow> 'st \<Rightarrow> bool"
    and answers :: "raw_request \<Rightarrow> bool"
    and operations :: "raw_request \<Rightarrow> 'op list"
  assumes answered: "log ops st \<Longrightarrow> answers req \<Longrightarrow> \<exists>st' resp. handle A req st = (st', Ok resp) \<and> log (ops @ operations req) st'"
    and refused: "log ops st \<Longrightarrow> \<not> answers req \<Longrightarrow> snd (handle A req st) = Panic"
begin

lemma serve_answered:
  "log ops st \<Longrightarrow> list_all answers reqs \<Longrightarrow>
    \<exists>st' resps. serve A reqs st = (st', Ok resps) \<and> log (ops @ concat (map operations reqs)) st'"
proof (induction reqs arbitrary: ops st)
  case (Cons req reqs)
  then obtain st1 resp where h: "handle A req st = (st1, Ok resp)" "log (ops @ operations req) st1"
    using answered [of ops st req] by auto
  from Cons.IH [OF h(2)] Cons.prems(2) show ?case by (auto simp: sbind_def h(1))
qed simp

lemma serve_refused:
  "log ops st \<Longrightarrow> \<not> list_all answers reqs \<Longrightarrow> snd (serve A reqs st) = Panic"
proof (induction reqs arbitrary: ops st)
  case (Cons req reqs)
  show ?case
  proof (cases "answers req")
    case True
    then obtain st1 resp where h: "handle A req st = (st1, Ok resp)" "log (ops @ operations req) st1"
      using answered [OF Cons.prems(1)] by blast
    from Cons.IH [OF h(2)] Cons.prems(2) True show ?thesis by (auto simp: sbind_def h(1) split: prod.splits)
  next
    case False
    with refused [OF Cons.prems(1) False] show ?thesis by (auto simp: sbind_def split: prod.splits)
  qed
qed simp

end

section \<open>The key/value application keeps a log\<close>

text \<open>A request the application answers: it is not empty, and its text is well-formed.\<close>

fun answerable :: "raw_request \<Rightarrow> bool" where
  "answerable req = (case rq_value req of
     None \<Rightarrow> False
   | Some (Rq_FinalizeBlock r) \<Rightarrow> list_all utf8_valid (rqfb_txs r)
   | Some (Rq_Query r) \<Rightarrow> utf8_valid (rqqu_data r)
   | Some _ \<Rightarrow> True)"

text \<open>The commands by which a request changes the store.\<close>

fun changes :: "raw_request \<Rightarrow> kv_command list" where
  "changes req = (case rq_value req of
     Some (Rq_FinalizeBlock r) \<Rightarrow> map (\<lambda>(key, val). Set key val) (tx_entries (rqfb_txs r))
   | Some Rq_Commit \<Rightarrow> [Commit]
   | _ \<Rightarrow> [])"

lemma kv_handle_answerable:
  assumes "history V before d" "answerable req"
  shows "\<exists>d' resp. handle (kvstore_app V) req (Some d) = (Some d', Ok resp) \<and> history V (before @ changes req) d'"
proof -
  obtain v where v: "rq_value req = Some v" using assms(2) by (cases "rq_value req") auto
  show ?thesis
  proof (cases "\<exists>r. v = Rq_FinalizeBlock r")
    case True
    then obtain r where r: "v = Rq_FinalizeBlock r" by blast
    with assms v deliver_txs_running [OF assms(1), of "rqfb_txs r" "[]"] show ?thesis
      by (auto simp: handle_def kvstore_app_def respond_def kv_finalize_block_def sbind_def)
  next
    case False
    with assms v driver_handle_history(1) [OF assms(1), of Commit] show ?thesis
      by (cases v) (auto simp: handle_def kvstore_app_def default_application_def respond_def sbind_def from_utf8_def
          kv_info_def kv_query_def kv_check_tx_def kv_commit_def unwrap_def kv_get_def kv_request_def)
  qed
qed

lemma kv_handle_unanswerable:
  assumes "\<not> answerable req"
  shows "snd (handle (kvstore_app V) req (Some d)) = Panic"
proof (cases "rq_value req")
  case (Some v)
  show ?thesis
  proof (cases v)
    case (Rq_FinalizeBlock r)
    with assms Some deliver_txs_malformed [of "rqfb_txs r" V "[]" d] show ?thesis
      by (auto simp: handle_def kvstore_app_def respond_def kv_finalize_block_def sbind_def split: prod.splits)
  qed (use assms Some in \<open>auto simp: handle_def kvstore_app_def respond_def kv_query_def from_utf8_def sbind_def\<close>)
qed (simp add: handle_def)

interpretation kv: logged_application "kvstore_app V" "\<lambda>cmds s. \<exists>d. s = Some d \<and> history V cmds d" answerable changes for V
proof
  fix cmds s req
  assume "\<exists>d. s = Some d \<and> history V cmds d"
  then obtain d where d: "s = Some d" "history V cmds d" by blast
  show "\<exists>s' resp. handle (kvstore_app V) req s = (s', Ok resp) \<and> (\<exists>d. s' = Some d \<and> history V (cmds @ changes req) d)"
    if "answerable req" using kv_handle_answerable [OF d(2) that] d(1) by blast
  show "snd (handle (kvstore_app V) req s) = Panic" if "\<not> answerable req"
    unfolding d(1) by (rule kv_handle_unanswerable [OF that])
qed

text \<open>The echo application answers every request that is not empty, and keeps nothing.\<close>

interpretation echo: logged_application echo_app "\<lambda>(ops :: unit list) _. ops = []" "\<lambda>req. rq_value req \<noteq> None" "\<lambda>_. []"
proof
  fix ops :: "unit list" and st :: unit and req
  assume "ops = []"
  show "\<exists>st' resp. handle echo_app req st = (st', Ok resp) \<and> ops @ [] = []" if "rq_value req \<noteq> None"
    using that \<open>ops = []\<close>
    by (cases "the (rq_value req)") (auto simp: handle_def echo_app_def default_application_def respond_def sbind_def)
  show "snd (handle echo_app req st) = Panic" if "\<not> rq_value req \<noteq> None" using that by (simp add: handle_def)
qed

end
