(* ===== verification/Abci_Server_Lemmas.thy ===== *)
theory Abci_Server_Lemmas
  imports Abci_Server Abci_Codec_Lemmas Kvstore_Lemmas
begin

text \<open>
  A connection end to end: what the server's loop reads, executes and writes, what the client writes
  and reads, and that the two fit together whatever the boundaries of the reads and writes.
\<close>

section \<open>The two directions of a codec\<close>

lemma codec_next_writes:
  "codec_next V M c = (c', r) \<Longrightarrow> writable c' = writable c \<and> ts_written (cd_stream c') = ts_written (cd_stream c)
     \<and> ts_arrivals (cd_stream c') = ts_arrivals (cd_stream c)"
  by (auto simp: codec_next_def writable_def split: prod.splits)

text \<open>What a send adds to the bytes to read is what arrives in reaction to it.\<close>

lemma codec_send_reads:
  assumes "codec_send V M m c = (c', Ok ())" "readable c"
    and "plain_reads (ts_arrivals (cd_stream c) (ts_written (cd_stream c)) (ts_written (cd_stream c')))"
  shows "readable c'" "ts_arrivals (cd_stream c') = ts_arrivals (cd_stream c)"
    "incoming c' = incoming c @ read_bytes (ts_arrivals (cd_stream c) (ts_written (cd_stream c)) (ts_written (cd_stream c')))"
  using assms by (auto simp: codec_send_def readable_def incoming_def split: prod.splits result.splits)

text \<open>
  A stream that brings given bytes and takes whatever is written. After the bytes it ends, or it stays open
  and the next read finds nothing: that read fails, and the bytes written by then are what the program has
  sent when it comes to wait.
\<close>

definition after_bytes :: "read_event list \<Rightarrow> bool" where
  "after_bytes later \<longleftrightarrow> later = [] \<or> (\<exists>e. later = [Read_Error e])"

definition brings :: "bytes \<Rightarrow> read_event list \<Rightarrow> tcp_stream \<Rightarrow> bool" where
  "brings w later s \<longleftrightarrow> (\<exists>reads. plain_reads reads \<and> ts_reads s = reads @ later \<and> read_bytes reads = w)
     \<and> ts_arrivals s = (\<lambda>_ _. []) \<and> plain_writes (ts_writes s) \<and> ts_written s = [] \<and> ts_flush_error s = None"

text \<open>
  A stream to another end that acts on what it has received: \<open>reply w\<close> is everything the other end has sent
  once it has received \<open>w\<close>, and what arrives, in pieces of any size, is what it sends on top.
\<close>

definition faces :: "(bytes \<Rightarrow> bytes) \<Rightarrow> tcp_stream \<Rightarrow> bool" where
  "faces reply s \<longleftrightarrow> (\<forall>w w'. plain_reads (ts_arrivals s w w')
     \<and> read_bytes (ts_arrivals s w w') = drop (length (reply w)) (reply w'))"

definition starts_facing :: "(bytes \<Rightarrow> bytes) \<Rightarrow> tcp_stream \<Rightarrow> bool" where
  "starts_facing reply s \<longleftrightarrow> plain_reads (ts_reads s) \<and> read_bytes (ts_reads s) = reply [] \<and> faces reply s
     \<and> plain_writes (ts_writes s) \<and> ts_written s = [] \<and> ts_flush_error s = None"

lemma codec_next_end:
  assumes "varint_law V" "transmissible enc (ms_decode M) m" "strict_prefix tail (frame V enc m)"
    and "after_bytes later" "readable_until later tail c"
  shows "\<exists>c' r. codec_next V M c = (c', r :: ('r abci_error, _) result) \<and> (r = Ok None \<or> (\<exists>e. r = Err e))"
proof -
  from assms(5) obtain reads where "0 < cd_read_window c" "plain_reads reads" and reads: "ts_reads (cd_stream c) = reads @ later"
    "cd_read_buf c @ read_bytes reads = tail" by (auto simp: readable_until_def)
  with next_loop_truncated [OF assms(1,2), of "cd_read_window c" reads "cd_read_buf c" later, where 'b = 'r] assms(3)
  have "next_loop V (ms_decode M) (cd_read_window c) (reads @ later) (cd_read_buf c)
      = (next_loop V (ms_decode M) (cd_read_window c) later tail :: _ \<times> ('r abci_error, _) result)" by simp
  also have "\<exists>s r. \<dots> = (s, r :: ('r abci_error, _) result) \<and> (r = Ok None \<or> (\<exists>e. r = Err e))"
    using assms(4) by (subst next_loop.simps) (auto simp: decode_partial_frame [OF assms(1-3)] after_bytes_def)
  finally show ?thesis by (auto simp: codec_next_def reads)
qed

lemma codec_send_until:
  assumes "codec_send V M m c = (c', Ok ())" "ts_arrivals (cd_stream c) = (\<lambda>_ _. [])" "readable_until later bs c"
  shows "readable_until later bs c'" "ts_arrivals (cd_stream c') = (\<lambda>_ _. [])"
  using assms by (auto simp: codec_send_def readable_until_def split: prod.splits result.splits)

section \<open>The server\<close>

lemma serve_loop_frames:
  assumes "varint_law V" "transmissible (enc_request W) (dec_request W) m" "strict_prefix tail (frame V (enc_request W) m)"
    and "after_bytes later" "list_all (transmissible (enc_request W) (dec_request W)) reqs"
    and "readable_until later (concat (map (frame V (enc_request W)) reqs) @ tail) c" "writable c"
    and "ts_arrivals (cd_stream c) = (\<lambda>_ _. [])"
    and "serve A reqs st = (st', Ok resps)" "list_all (\<lambda>resp. enc_response W resp \<noteq> None) resps"
  shows "\<exists>c'. serve_loop V W A c st = Some ((c', st'), Ok ())
    \<and> ts_written (cd_stream c') = ts_written (cd_stream c) @ concat (map (frame V (enc_response W)) resps)"
  using assms(5-)
proof (induction reqs arbitrary: c st resps)
  case Nil
  with codec_next_end [OF assms(1), of "enc_request W" "server_codec W" m tail later c] assms(2-4) obtain c1 r
    where n: "codec_next V (server_codec W) c = (c1, r :: (abci_err, _) result)" "r = Ok None \<or> (\<exists>e. r = Err e)"
    by (auto simp: server_codec_def)
  with Nil codec_next_writes [OF n(1)] show ?case by (subst serve_loop.simps) auto
next
  case (Cons req reqs)
  from codec_next_frame_until [OF assms(1), of "enc_request W" "server_codec W" req later _ c] Cons.prems obtain c1
    where n: "codec_next V (server_codec W) c = (c1, Ok (Some req) :: (abci_err, _) result)"
      "readable_until later (concat (map (frame V (enc_request W)) reqs) @ tail) c1" by (auto simp: server_codec_def)
  from Cons.prems(5,6) obtain st1 resp rest where h: "handle A req st = (st1, Ok resp)"
    "serve A reqs st1 = (st', Ok rest)" "resps = resp # rest" "enc_response W resp \<noteq> None"
    "list_all (\<lambda>resp. enc_response W resp \<noteq> None) rest"
    by (auto simp: sbind_Ok)
  then obtain b where b: "enc_response W resp = Some b" by blast
  from codec_send_frame [of c1 "server_codec W" resp b V] Cons.prems(3) codec_next_writes [OF n(1)] b obtain c2
    where s: "codec_send V (server_codec W) resp c1 = (c2, Ok () :: (abci_err, _) result)" "writable c2"
      "ts_written (cd_stream c2) = ts_written (cd_stream c) @ frame V (enc_response W) resp"
    by (auto simp: server_codec_def)
  have "ts_arrivals (cd_stream c1) = (\<lambda>_ _. [])" using codec_next_writes [OF n(1)] Cons.prems(4) by simp
  note c2 = codec_send_until [OF s(1) this n(2)]
  from Cons.IH [OF _ c2(1) s(2) c2(2) h(2,5)] Cons.prems(1) h(3) s(3)
  show ?case by (subst serve_loop.simps) (auto simp: n(1) h(1) s(1))
qed

section \<open>The client\<close>

definition as_request :: "raw_request_value \<Rightarrow> raw_request" where
  "as_request v = \<lparr>rq_value = Some v\<rparr>"

definition as_response :: "raw_response_value \<Rightarrow> raw_response" where
  "as_response v = \<lparr>rs_value = Some v\<rparr>"

section \<open>Dispatch\<close>

text \<open>The names of the two message types; a typed call accepts a response of the name of its request.\<close>

fun request_type :: "raw_request_value \<Rightarrow> string" where
  "request_type (Rq_Echo _) = ''Echo''"
| "request_type Rq_Flush = ''Flush''"
| "request_type (Rq_Info _) = ''Info''"
| "request_type (Rq_InitChain _) = ''InitChain''"
| "request_type (Rq_Query _) = ''Query''"
| "request_type (Rq_CheckTx _) = ''CheckTx''"
| "request_type Rq_Commit = ''Commit''"
| "request_type Rq_ListSnapshots = ''ListSnapshots''"
| "request_type (Rq_OfferSnapshot _) = ''OfferSnapshot''"
| "request_type (Rq_LoadSnapshotChunk _) = ''LoadSnapshotChunk''"
| "request_type (Rq_ApplySnapshotChunk _) = ''ApplySnapshotChunk''"
| "request_type (Rq_PrepareProposal _) = ''PrepareProposal''"
| "request_type (Rq_ProcessProposal _) = ''ProcessProposal''"
| "request_type (Rq_ExtendVote _) = ''ExtendVote''"
| "request_type (Rq_VerifyVoteExtension _) = ''VerifyVoteExtension''"
| "request_type (Rq_FinalizeBlock _) = ''FinalizeBlock''"

fun response_type :: "raw_response_value \<Rightarrow> string" where
  "response_type (Rs_Exception _) = ''Exception''"
| "response_type (Rs_Echo _) = ''Echo''"
| "response_type Rs_Flush = ''Flush''"
| "response_type (Rs_Info _) = ''Info''"
| "response_type (Rs_InitChain _) = ''InitChain''"
| "response_type (Rs_Query _) = ''Query''"
| "response_type (Rs_CheckTx _) = ''CheckTx''"
| "response_type (Rs_Commit _) = ''Commit''"
| "response_type (Rs_ListSnapshots _) = ''ListSnapshots''"
| "response_type (Rs_OfferSnapshot _) = ''OfferSnapshot''"
| "response_type (Rs_LoadSnapshotChunk _) = ''LoadSnapshotChunk''"
| "response_type (Rs_ApplySnapshotChunk _) = ''ApplySnapshotChunk''"
| "response_type (Rs_PrepareProposal _) = ''PrepareProposal''"
| "response_type (Rs_ProcessProposal _) = ''ProcessProposal''"
| "response_type (Rs_ExtendVote _) = ''ExtendVote''"
| "response_type (Rs_VerifyVoteExtension _) = ''VerifyVoteExtension''"
| "response_type (Rs_FinalizeBlock _) = ''FinalizeBlock''"

definition answers :: "raw_request_value \<Rightarrow> raw_response_value \<Rightarrow> bool" where
  "answers req res \<longleftrightarrow> response_type res = request_type req"

lemma respond_Ok: "respond w m s = (s', Ok r) \<Longrightarrow> \<exists>x. m s = (s', Ok x) \<and> r = as_response (w x)"
  by (auto simp: respond_def sbind_Ok as_response_def)

lemma handle_answers: "handle A (as_request v) st = (st', Ok resp) \<Longrightarrow> \<exists>r. resp = as_response r \<and> answers v r"
  by (cases v) (auto simp: handle_def as_request_def answers_def dest!: respond_Ok)

lemma serve_answers:
  "serve A (map as_request vs) st = (st', Ok resps) \<Longrightarrow> \<exists>rs. resps = map as_response rs \<and> list_all2 answers vs rs"
proof (induction vs arbitrary: st resps)
  case (Cons v vs)
  then obtain st1 resp rest where "handle A (as_request v) st = (st1, Ok resp)" "serve A (map as_request vs) st1 = (st', Ok rest)"
    "resps = resp # rest" by (auto simp: sbind_Ok)
  with Cons.IH [OF this(2)] handle_answers [OF this(1)] obtain r rs where
    "resps = map as_response (r # rs)" "list_all2 answers (v # vs) (r # rs)" by auto
  then show ?case by blast
qed auto

section \<open>Sessions\<close>

text \<open>The call of the client for a request, with its result as a response. Two requests have none.\<close>

fun client_method :: "raw_request_value \<Rightarrow> (varint \<Rightarrow> abci_wire \<Rightarrow> raw_response_value client_call) option" where
  "client_method (Rq_Echo r) = Some (\<lambda>V W. sbind (client_echo V W r) (\<lambda>x. lift (Ok (Rs_Echo x))))"
| "client_method Rq_Flush = Some (\<lambda>V W. sbind (client_flush V W) (\<lambda>_. lift (Ok Rs_Flush)))"
| "client_method (Rq_Info r) = Some (\<lambda>V W. sbind (client_info V W r) (\<lambda>x. lift (Ok (Rs_Info x))))"
| "client_method (Rq_InitChain r) = Some (\<lambda>V W. sbind (client_init_chain V W r) (\<lambda>x. lift (Ok (Rs_InitChain x))))"
| "client_method (Rq_Query r) = Some (\<lambda>V W. sbind (client_query V W r) (\<lambda>x. lift (Ok (Rs_Query x))))"
| "client_method (Rq_CheckTx r) = Some (\<lambda>V W. sbind (client_check_tx V W r) (\<lambda>x. lift (Ok (Rs_CheckTx x))))"
| "client_method Rq_Commit = Some (\<lambda>V W. sbind (client_commit V W) (\<lambda>x. lift (Ok (Rs_Commit x))))"
| "client_method Rq_ListSnapshots = Some (\<lambda>V W. sbind (client_list_snapshots V W) (\<lambda>x. lift (Ok (Rs_ListSnapshots x))))"
| "client_method (Rq_OfferSnapshot r) =
     Some (\<lambda>V W. sbind (client_offer_snapshot V W r) (\<lambda>x. lift (Ok (Rs_OfferSnapshot x))))"
| "client_method (Rq_LoadSnapshotChunk r) =
     Some (\<lambda>V W. sbind (client_load_snapshot_chunk V W r) (\<lambda>x. lift (Ok (Rs_LoadSnapshotChunk x))))"
| "client_method (Rq_ApplySnapshotChunk r) =
     Some (\<lambda>V W. sbind (client_apply_snapshot_chunk V W r) (\<lambda>x. lift (Ok (Rs_ApplySnapshotChunk x))))"
| "client_method (Rq_PrepareProposal r) = None"
| "client_method (Rq_ProcessProposal r) = None"
| "client_method (Rq_ExtendVote r) = Some (\<lambda>V W. sbind (client_extend_vote V W r) (\<lambda>x. lift (Ok (Rs_ExtendVote x))))"
| "client_method (Rq_VerifyVoteExtension r) =
     Some (\<lambda>V W. sbind (client_verify_vote_extension V W r) (\<lambda>x. lift (Ok (Rs_VerifyVoteExtension x))))"
| "client_method (Rq_FinalizeBlock r) =
     Some (\<lambda>V W. sbind (client_finalize_block V W r) (\<lambda>x. lift (Ok (Rs_FinalizeBlock x))))"

lemmas client_calls =
  client_echo_def client_flush_def client_info_def client_init_chain_def client_query_def client_check_tx_def
  client_commit_def client_list_snapshots_def client_offer_snapshot_def client_load_snapshot_chunk_def
  client_apply_snapshot_chunk_def client_extend_vote_def client_verify_vote_extension_def client_finalize_block_def

text \<open>A call returns the response of the server that is of its type.\<close>

lemma client_method_perform:
  assumes "client_method req = Some call" "perform V W req c = (c', Ok res)" "answers req res"
  shows "call V W c = (c', Ok res)"
  using assms by (cases req; cases res) (auto simp: client_calls perform_as_def sbind_def answers_def)

text \<open>Calls made one after the other.\<close>

fun client_session ::
  "varint \<Rightarrow> abci_wire \<Rightarrow> (varint \<Rightarrow> abci_wire \<Rightarrow> raw_response_value client_call) list \<Rightarrow> raw_response_value list client_call" where
  "client_session V W [] = lift (Ok [])"
| "client_session V W (call # calls) =
     sbind (call V W) (\<lambda>res. sbind (client_session V W calls) (\<lambda>ress. lift (Ok (res # ress))))"

abbreviation request_bytes :: "varint \<Rightarrow> abci_wire \<Rightarrow> raw_request_value list \<Rightarrow> bytes" where
  "request_bytes V W reqs \<equiv> concat (map (frame V (enc_request W)) (map as_request reqs))"

abbreviation response_bytes :: "varint \<Rightarrow> abci_wire \<Rightarrow> raw_response_value list \<Rightarrow> bytes" where
  "response_bytes V W ress \<equiv> concat (map (frame V (enc_response W)) (map as_response ress))"

lemma perform_facing:
  assumes "varint_law V" "transmissible (enc_response W) (dec_response W) (as_response res)" "enc_request W (as_request req) \<noteq> None"
    and "readable c" "writable c" "faces reply (cd_stream c)" "incoming c = []"
    and "reply (ts_written (cd_stream c) @ request_bytes V W [req]) = reply (ts_written (cd_stream c)) @ response_bytes V W [res]"
  shows "\<exists>c'. perform V W req c = (c', Ok res) \<and> readable c' \<and> writable c' \<and> faces reply (cd_stream c') \<and> incoming c' = []
    \<and> ts_written (cd_stream c') = ts_written (cd_stream c) @ request_bytes V W [req]"
proof -
  from assms(3) obtain b where b: "enc_request W (as_request req) = Some b" by auto
  from codec_send_frame [of c "client_codec W" "as_request req" b V] assms(5) b obtain c1
    where s: "codec_send V (client_codec W) (as_request req) c = (c1, Ok () :: (abci_err, _) result)" "writable c1"
      "ts_written (cd_stream c1) = ts_written (cd_stream c) @ request_bytes V W [req]"
    by (auto simp: client_codec_def)
  have "plain_reads (ts_arrivals (cd_stream c) (ts_written (cd_stream c)) (ts_written (cd_stream c1)))"
    using assms(6) by (simp add: faces_def)
  note reads = codec_send_reads [OF s(1) assms(4) this]
  have "incoming c1 = response_bytes V W [res] @ []"
    using assms(6-8) reads(3) by (simp add: faces_def s(3))
  with codec_next_frame [OF assms(1), of "enc_response W" "client_codec W" "as_response res" c1 "[]"] reads(1) assms(2) obtain c2
    where n: "codec_next V (client_codec W) c1 = (c2, Ok (Some (as_response res)) :: (abci_err, _) result)" "readable c2"
      "incoming c2 = []" by (auto simp: client_codec_def)
  have "perform V W req c = (c2, Ok res)"
    using s(1) n(1) by (simp add: perform_def sbind_def as_request_def as_response_def)
  moreover have "faces reply (cd_stream c2)" using assms(6) codec_next_writes [OF n(1)] reads(2) by (simp add: faces_def)
  ultimately show ?thesis using n(2,3) codec_next_writes [OF n(1)] s(2,3) by simp
qed

lemma client_session_facing:
  assumes "varint_law V" "list_all2 answers reqs ress"
    and "list_all (transmissible (enc_response W) (dec_response W)) (map as_response ress)"
    and "list_all (\<lambda>req. enc_request W (as_request req) \<noteq> None) reqs" "map client_method reqs = map Some calls"
    and "\<forall>k \<le> length reqs. reply (w @ request_bytes V W (take k reqs)) = r @ response_bytes V W (take k ress)"
    and "readable c" "writable c" "faces reply (cd_stream c)" "incoming c = []" "ts_written (cd_stream c) = w"
  shows "\<exists>c'. client_session V W calls c = (c', Ok ress) \<and> ts_written (cd_stream c') = w @ request_bytes V W reqs"
  using assms(2-)
proof (induction reqs ress arbitrary: calls w r c rule: list_all2_induct)
  case (Cons req reqs res ress)
  from Cons.prems(3) obtain call rest where calls: "calls = call # rest" "client_method req = Some call"
    "map client_method reqs = map Some rest" by (cases calls) auto
  have reply: "reply (w @ request_bytes V W (take k (req # reqs))) = r @ response_bytes V W (take k (res # ress))"
    if "k \<le> Suc (length reqs)" for k using Cons.prems(4) that by simp
  have now: "reply (w @ request_bytes V W [req]) = reply w @ response_bytes V W [res]"
    using reply [of 0] reply [of 1] by simp
  with perform_facing [OF assms(1), of W res req c reply] Cons.prems obtain c1
    where p: "perform V W req c = (c1, Ok res)" "readable c1" "writable c1" "faces reply (cd_stream c1)" "incoming c1 = []"
      "ts_written (cd_stream c1) = w @ request_bytes V W [req]" by auto
  have m: "call V W c = (c1, Ok res)" using client_method_perform [OF calls(2) p(1)] Cons.hyps(1) by simp
  have "\<forall>k \<le> length reqs. reply ((w @ request_bytes V W [req]) @ request_bytes V W (take k reqs))
      = (r @ response_bytes V W [res]) @ response_bytes V W (take k ress)" using reply [of "Suc _"] by simp
  from Cons.IH [OF _ _ calls(3) this p(2-6)] Cons.prems(1,2) obtain c2 where
      "client_session V W rest c1 = (c2, Ok ress)" "ts_written (cd_stream c2) = w @ request_bytes V W (req # reqs)" by auto
  then show ?case by (simp add: calls(1) sbind_def m)
qed (auto simp: list_all2_Nil)

text \<open>What the server has sent once it has received the bytes of a stream.\<close>

definition server_output :: "varint \<Rightarrow> abci_wire \<Rightarrow> 'st application \<Rightarrow> nat \<Rightarrow> tcp_stream \<Rightarrow> 'st \<Rightarrow> bytes" where
  "server_output V W A m s st =
     (case handle_client V W A m s st of Some ((codec, _), _) \<Rightarrow> ts_written (cd_stream codec) | None \<Rightarrow> [])"

lemma serve_take: "serve A reqs st = (st', Ok resps) \<Longrightarrow> \<exists>st''. serve A (take k reqs) st = (st'', Ok (take k resps))"
proof (induction reqs arbitrary: st resps k)
  case (Cons req reqs)
  then obtain st1 resp rest where h: "handle A req st = (st1, Ok resp)" "serve A reqs st1 = (st', Ok rest)" "resps = resp # rest"
    by (auto simp: sbind_Ok)
  show ?case
  proof (cases k)
    case (Suc j)
    with Cons.IH [OF h(2), of j] h show ?thesis by (auto simp: sbind_def)
  qed simp
qed simp

lemma handle_client_brings:
  assumes "varint_law V" "list_all (transmissible (enc_request W) (dec_request W)) (map as_request reqs)"
    and "transmissible (enc_request W) (dec_request W) m"
    and "serve A (map as_request reqs) st = (st', Ok resps)" "list_all (\<lambda>resp. enc_response W resp \<noteq> None) resps"
    and "0 < n" "brings (request_bytes V W reqs) later s" "after_bytes later"
  shows "\<exists>codec. handle_client V W A n s st = Some ((codec, st'), Ok ())
    \<and> ts_written (cd_stream codec) = concat (map (frame V (enc_response W)) resps)"
proof -
  have "strict_prefix [] (frame V (enc_request W) m)" using frame_nonempty [OF assms(1,3)] by (simp add: strict_prefix_def)
  moreover have "readable_until later (concat (map (frame V (enc_request W)) (map as_request reqs)) @ []) (codec_new s n)"
    "writable (codec_new s n)" "ts_arrivals (cd_stream (codec_new s n)) = (\<lambda>_ _. [])" "ts_written (cd_stream (codec_new s n)) = []"
    using assms(6,7) by (simp_all add: codec_new_def readable_until_def writable_def brings_def)
  ultimately show ?thesis
    using serve_loop_frames [OF assms(1,3) _ assms(8,2) _ _ _ assms(4,5), of "[]" "codec_new s n"]
    by (simp add: handle_client_def)
qed

end
