(* ===== verification/Abci_Properties.thy ===== *)
theory Abci_Properties
  imports Abci_Server_Lemmas
begin

text \<open>
  The properties of the application interface: the framing of messages, a connection between a client
  and a server, the default proposal, and the key/value application. The witnesses run a session over
  a table of encodings.
\<close>

section \<open>A sample session\<close>

definition sample_tx :: bytes where
  "sample_tx = [0x6B, 0x3D, 0x76]"

definition sample_tx_block :: raw_request_finalize_block where
  "sample_tx_block = \<lparr>rqfb_txs = [sample_tx], rqfb_decided_last_commit = None, rqfb_misbehavior = [], rqfb_hash = [],
     rqfb_height = 1, rqfb_time = None, rqfb_next_validators_hash = [], rqfb_proposer_address = []\<rparr>"

definition sample_query :: raw_request_query where
  "sample_query = \<lparr>rqqu_data = [0x6B], rqqu_path = [], rqqu_height = 0, rqqu_prove = False\<rparr>"

definition sample_requests :: "raw_request_value list" where
  "sample_requests = [Rq_FinalizeBlock sample_tx_block, Rq_Commit, Rq_Query sample_query]"

definition sample_responses :: "raw_response_value list" where
  "sample_responses =
     [Rs_FinalizeBlock \<lparr>rsfb_events = [tx_event ''k''], rsfb_tx_results = [], rsfb_validator_updates = [],
        rsfb_consensus_param_updates = None, rsfb_app_hash = []\<rparr>,
      Rs_Commit \<lparr>rsco_retain_height = 0\<rparr>,
      Rs_Query \<lparr>rsqu_code = 0, rsqu_log = ''exists'', rsqu_info = [], rsqu_index = 0, rsqu_key = [0x6B],
        rsqu_value = [0x76], rsqu_proof_ops = None, rsqu_height = 1, rsqu_codespace = []\<rparr>]"

definition sample_proposal :: raw_request_prepare_proposal where
  "sample_proposal = \<lparr>rqpp_max_tx_bytes = 4, rqpp_txs = [[1, 2], [3], [], [4, 5], [6]], rqpp_local_last_commit = None,
     rqpp_misbehavior = [], rqpp_height = 1, rqpp_time = None, rqpp_next_validators_hash = [], rqpp_proposer_address = []\<rparr>"

text \<open>Messages encoded by the name of their type.\<close>

definition sample_wire :: abci_wire where
  "sample_wire =
     \<lparr>enc_request = (\<lambda>r. map_option (\<lambda>v. into_bytes (request_type v)) (rq_value r)),
      dec_request = (\<lambda>bs. map_option as_request (find (\<lambda>v. into_bytes (request_type v) = bs) sample_requests)),
      enc_response = (\<lambda>r. map_option (\<lambda>v. into_bytes (response_type v)) (rs_value r)),
      dec_response = (\<lambda>bs. map_option as_response (find (\<lambda>v. into_bytes (response_type v) = bs) sample_responses))\<rparr>"

lemma sample_wire_requests:
  "list_all (transmissible (enc_request sample_wire) (dec_request sample_wire)) (map as_request sample_requests)"
  by (simp add: sample_requests_def transmissible_def sample_wire_def as_request_def into_bytes_def)

lemma sample_wire_responses:
  "list_all (transmissible (enc_response sample_wire) (dec_response sample_wire)) (map as_response sample_responses)"
  by (simp add: sample_responses_def transmissible_def sample_wire_def as_response_def into_bytes_def)

lemma sample_serve:
  "serve (kvstore_app leb128) (map as_request sample_requests) (Some driver_new)
     = (Some \<lparr>kv_store = [(''k'', ''v'')], kv_height = 1, kv_app_hash = [1]\<rparr>, Ok (map as_response sample_responses))"
  by (simp add: sample_requests_def sample_responses_def as_request_def as_response_def handle_def kvstore_app_def
      respond_def sbind_def kv_finalize_block_def sample_tx_block_def sample_tx_def from_utf8_def byte_between_def
      byte_char_def tx_entry_def kv_set_def kv_request_def unwrap_def driver_new_def kv_commit_def driver_commit_def
      leb128_def leb128_encode.simps kv_query_def kv_get_def sample_query_def into_bytes_def char_of_def bit_Suc_0_iff)

text \<open>A stream on which bytes arrive in pieces of three, and leave in pieces of four.\<close>

fun in_threes :: "bytes \<Rightarrow> read_event list" where
  "in_threes (a # b # c # d # bs) = Read_Bytes [a, b, c] # in_threes (d # bs)"
| "in_threes [] = []"
| "in_threes bs = [Read_Bytes bs]"

definition sample_stream :: "bytes \<Rightarrow> tcp_stream" where
  "sample_stream bs = \<lparr>ts_reads = in_threes bs, ts_writes = replicate 5 (Write_Some 4), ts_written = [],
     ts_arrivals = (\<lambda>_ _. []), ts_flush_error = None\<rparr>"

text \<open>The calls of the sample session, and a stream to a server that has received what was written on it.\<close>

definition sample_calls :: "(varint \<Rightarrow> abci_wire \<Rightarrow> raw_response_value client_call) list" where
  "sample_calls = map (the \<circ> client_method) sample_requests"

definition sample_waiting :: "bytes \<Rightarrow> tcp_stream" where
  "sample_waiting w = (sample_stream w)\<lparr>ts_reads := in_threes w @ [Read_Error ''would block'']\<rparr>"

definition sample_output :: "bytes \<Rightarrow> bytes" where
  "sample_output w = server_output leb128 sample_wire (kvstore_app leb128) 2 (sample_waiting w) (Some driver_new)"

definition sample_facing :: tcp_stream where
  "sample_facing = (sample_stream (sample_output []))
     \<lparr>ts_arrivals := \<lambda>w w'. in_threes (drop (length (sample_output w)) (sample_output w'))\<rparr>"

lemma in_threes_bytes [simp]: "read_bytes (in_threes bs) = bs" "plain_reads (in_threes bs)"
  by (induction bs rule: in_threes.induct) simp_all

lemma plain_writes_sample [simp]: "plain_writes (replicate 5 (Write_Some 4))"
  by (simp add: plain_writes_def eval_nat_numeral)

section \<open>Framing\<close>

text \<open>
  C14. What one codec sends, however its writes are cut, another codec receives in order, however its
  reads are cut: every message once, and nothing after the last one.
\<close>

theorem codec_delivers:
  assumes "varint_law V" "list_all (transmissible (ms_encode MA) (ms_decode MB)) ms"
    and "writable a" "ts_written (cd_stream a) = []" "codec_sends V MA ms a = (a', r :: ('r abci_error, unit) result)"
    and "readable b" "incoming b = ts_written (cd_stream a')"
  shows "r = Ok () \<and> (\<exists>b'. codec_take V MB (length ms) b = (b', Ok (map Some ms) :: ('r abci_error, _) result) \<and> incoming b' = [])"
proof -
  have "list_all (\<lambda>m. ms_encode MA m \<noteq> None) ms"
    using assms(2) by (auto simp: list_all_iff transmissible_def)
  from codec_sends_frames [OF assms(3) this, of V, where 'r = 'r] assms(4,5)
  have r: "r = Ok ()" "ts_written (cd_stream a') = concat (map (frame V (ms_encode MA)) ms)" by auto
  with codec_take_frames [OF assms(1,2,6), of "[]", where 'r = 'r] assms(7) show ?thesis by auto
qed

theorem codec_delivers_witness:
  "\<exists>a b a' b' ms. ms = map as_request sample_requests
     \<and> codec_sends leb128 (client_codec sample_wire) ms a = (a', Ok () :: (abci_err, unit) result)
     \<and> incoming b = ts_written (cd_stream a')
     \<and> codec_take leb128 (server_codec sample_wire) 3 b = (b', Ok (map Some ms) :: (abci_err, _) result)"
proof -
  define a where "a = codec_new (sample_stream []) 1"
  obtain a' r where s: "codec_sends leb128 (client_codec sample_wire) (map as_request sample_requests) a
      = (a', r :: (abci_err, unit) result)" by force
  define b where "b = codec_new (sample_stream (ts_written (cd_stream a'))) 2"
  have "r = Ok () \<and> (\<exists>b'. codec_take leb128 (server_codec sample_wire) (length (map as_request sample_requests)) b
      = (b', Ok (map Some (map as_request sample_requests)) :: (abci_err, _) result) \<and> incoming b' = [])"
    by (rule codec_delivers [OF leb128_law _ _ _ s])
      (use sample_wire_requests in \<open>simp_all add: client_codec_def server_codec_def a_def b_def codec_new_def sample_stream_def
         writable_def readable_def incoming_def\<close>)
  moreover have "incoming b = ts_written (cd_stream a')" by (simp add: b_def codec_new_def incoming_def sample_stream_def)
  moreover have "length (map as_request sample_requests) = 3" by (simp add: sample_requests_def)
  ultimately show ?thesis using s by metis
qed

section \<open>A connection\<close>

text \<open>
  C13. A client that makes its typed calls one after the other, on a connection to a server of any
  application where it can read only what the server has sent by then, having received what the client
  has written so far: every call returns, with the application's response, which is of the type its
  request calls for, the client writes the requests, one frame each, and the server's handler, given these
  bytes and the end of the stream, executes the requests in order, writes the responses and returns.
  What the server has sent is its own output on a stream that stays open after the bytes received. The
  sizes of the read buffers and the boundaries of reads and writes do not matter.
\<close>

theorem abci_session:
  assumes "varint_law V"
    and "list_all (transmissible (enc_request W) (dec_request W)) (map as_request reqs)" "reqs \<noteq> []"
    and "serve A (map as_request reqs) st = (st', Ok resps)"
    and "list_all (transmissible (enc_response W) (dec_response W)) resps"
    and "map client_method reqs = map Some calls"
    and "0 < m" "\<And>w. brings w [Read_Error waiting] (s w)" "brings (request_bytes V W reqs) [] ended"
    and "0 < n" "starts_facing (\<lambda>w. server_output V W A m (s w) st) t"
  shows "\<exists>server client ress. client_session V W calls (codec_new t n) = (client, Ok ress)
    \<and> map as_response ress = resps \<and> list_all2 answers reqs ress
    \<and> ts_written (cd_stream client) = request_bytes V W reqs
    \<and> handle_client V W A m ended st = Some ((server, st'), Ok ())
    \<and> ts_written (cd_stream server) = response_bytes V W ress"
proof -
  let ?reply = "\<lambda>w. server_output V W A m (s w) st"
  obtain ress where r: "resps = map as_response ress" "list_all2 answers reqs ress"
    using serve_answers [OF assms(4)] by blast
  obtain req where req: "transmissible (enc_request W) (dec_request W) req" using assms(2,3) by (cases reqs) auto
  have enc: "list_all (\<lambda>resp. enc_response W resp \<noteq> None) resps"
      "list_all (\<lambda>v. enc_request W (as_request v) \<noteq> None) reqs"
    using assms(2,5) by (auto simp: list_all_iff transmissible_def)
  have reply: "?reply (request_bytes V W (take k reqs)) = response_bytes V W (take k ress)" for k
  proof -
    obtain st'' where "serve A (map as_request (take k reqs)) st = (st'', Ok (take k resps))"
      using serve_take [OF assms(4)] by (auto simp: take_map)
    with handle_client_brings [OF assms(1) _ req this _ assms(7) assms(8)] assms(2) enc(1) show ?thesis
      by (fastforce simp: server_output_def after_bytes_def r(1) take_map list_all_iff dest: in_set_takeD)
  qed
  have "\<exists>client. client_session V W calls (codec_new t n) = (client, Ok ress)
      \<and> ts_written (cd_stream client) = [] @ request_bytes V W reqs"
    by (rule client_session_facing [OF assms(1) r(2) _ enc(2) assms(6), where reply = ?reply and r = "[]"])
      (use assms(5,10,11) r(1) reply reply [of 0] in
        \<open>simp_all add: starts_facing_def codec_new_def readable_def writable_def incoming_def\<close>)
  moreover have "\<exists>server. handle_client V W A m ended st = Some ((server, st'), Ok ())
      \<and> ts_written (cd_stream server) = response_bytes V W ress"
    using handle_client_brings [OF assms(1,2) req assms(4) enc(1) assms(7,9)] by (simp add: after_bytes_def r(1))
  ultimately show ?thesis using r by auto
qed

theorem abci_session_witness:
  "\<exists>server client. client_session leb128 sample_wire sample_calls (codec_new sample_facing 1) = (client, Ok sample_responses)
     \<and> handle_client leb128 sample_wire (kvstore_app leb128) 2
         (sample_stream (request_bytes leb128 sample_wire sample_requests)) (Some driver_new)
       = Some ((server, Some \<lparr>kv_store = [(''k'', ''v'')], kv_height = 1, kv_app_hash = [1]\<rparr>), Ok ())
     \<and> ts_written (cd_stream client) = request_bytes leb128 sample_wire sample_requests
     \<and> ts_written (cd_stream server) = response_bytes leb128 sample_wire sample_responses"
proof -
  have waiting: "brings w [Read_Error ''would block''] (sample_waiting w)" for w
    by (auto simp: brings_def sample_waiting_def sample_stream_def intro!: exI [of _ "in_threes w"])
  have ended: "brings w [] (sample_stream w)" for w by (simp add: brings_def sample_stream_def)
  have facing: "starts_facing (\<lambda>w. server_output leb128 sample_wire (kvstore_app leb128) 2 (sample_waiting w) (Some driver_new))
      sample_facing" unfolding sample_output_def [symmetric]
    by (simp add: starts_facing_def faces_def sample_facing_def sample_stream_def)
  have "inj as_response" by (auto intro!: injI simp: as_response_def)
  moreover have "sample_requests \<noteq> []" "map client_method sample_requests = map Some sample_calls"
    by (simp_all add: sample_requests_def sample_calls_def)
  ultimately show ?thesis
    using abci_session [OF leb128_law sample_wire_requests _ sample_serve sample_wire_responses _ _ waiting ended _ facing,
        of sample_calls 1]
    by (auto simp: inj_map_eq_map)
qed

section \<open>The default proposal\<close>

text \<open>
  C32. The default \<open>prepare_proposal\<close> returns the longest prefix of the proposed transactions whose
  total size is within the limit of the request, and the empty limit for a negative one.
\<close>

theorem prepare_proposal_longest_prefix:
  assumes "sizes (rqpp_txs request) \<le> usize_max"
  shows "\<exists>n \<le> length (rqpp_txs request). rspp_txs (prepare_proposal request) = take n (rqpp_txs request)
    \<and> int (sizes (take n (rqpp_txs request))) \<le> max 0 (sint (rqpp_max_tx_bytes request))
    \<and> (\<forall>k. n < k \<longrightarrow> k \<le> length (rqpp_txs request) \<longrightarrow>
         max 0 (sint (rqpp_max_tx_bytes request)) < int (sizes (take k (rqpp_txs request))))"
proof -
  let ?m = "if sint (rqpp_max_tx_bytes request) < 0 then 0 else nat (sint (rqpp_max_tx_bytes request))"
  have m: "int ?m = max 0 (sint (rqpp_max_tx_bytes request))" by simp
  from drop_txs_longest [of "rqpp_txs request" ?m] show ?thesis
    unfolding prepare_proposal_def Let_def total_size_exact [OF assms] m [symmetric] of_nat_le_iff of_nat_less_iff
    by auto
qed

theorem prepare_proposal_longest_prefix_witness:
  "\<exists>n \<le> 5. rspp_txs (prepare_proposal sample_proposal) = take n [[1, 2], [3], [], [4, 5], [6]]
     \<and> sizes (take n [[1, 2], [3], [], [4, 5], [6]]) \<le> 4"
proof -
  have "sizes (rqpp_txs sample_proposal) \<le> usize_max" by (simp add: sample_proposal_def sizes_def usize_max_def)
  from prepare_proposal_longest_prefix [OF this] obtain n where n: "n \<le> length (rqpp_txs sample_proposal)"
    "rspp_txs (prepare_proposal sample_proposal) = take n (rqpp_txs sample_proposal)"
    "int (sizes (take n (rqpp_txs sample_proposal))) \<le> max 0 (sint (rqpp_max_tx_bytes sample_proposal))" by blast
  then show ?thesis by (intro exI [of _ n]) (simp add: sample_proposal_def)
qed

section \<open>The key/value application\<close>

text \<open>
  C31. Whatever commands reach the driver, in whatever interleaving of the connections that send them,
  it executes them in the order they arrive: a read returns the last value written before it and the
  number of commits before it, a write returns the value it replaces, the commits are numbered
  consecutively, and the application hash is the number of keys at the last commit. The driver ends
  only when no sender is left.
\<close>

theorem driver_executes_in_order:
  "\<exists>d. driver_run V (map (\<lambda>c. (c, True)) cmds) driver_new
     = (d, map (\<lambda>i. expected V (take i cmds) (cmds ! i)) [0..<length cmds], Err AE_ChannelRecv)
     \<and> map_of (kv_store d) = map_of (written cmds) \<and> kv_height d = of_nat (commits cmds)
     \<and> kv_app_hash d = hash_after V cmds"
  using driver_run_history [OF history_new, of V cmds] by (auto simp: history_def)

text \<open>
  C30. A session of requests to the key/value application panics exactly when one of them is empty,
  queries a key or delivers a transaction that is not text. Otherwise a query after it finds the value
  of the last transaction delivered for its key, and the number of commits as the height.
\<close>

theorem kvstore_query_latest:
  assumes "from_utf8 (rqqu_data q) = Some key"
  shows "(snd (serve (kvstore_app V) reqs (Some driver_new)) = Panic) = (\<exists>req. req \<in> set reqs \<and> \<not> answerable req)
    \<and> (\<exists>s' r. serve (kvstore_app V) reqs (Some driver_new) = (s', r)
         \<and> (r = Panic \<or> kv_query V q s' = (s', Ok \<lparr>rsqu_code = 0,
              rsqu_log = (case map_of (written (concat (map changes reqs))) key of Some _ \<Rightarrow> ''exists'' | None \<Rightarrow> ''does not exist''),
              rsqu_info = [], rsqu_index = 0, rsqu_key = rqqu_data q,
              rsqu_value = (case map_of (written (concat (map changes reqs))) key of Some v \<Rightarrow> into_bytes v | None \<Rightarrow> []),
              rsqu_proof_ops = None, rsqu_height = of_nat (commits (concat (map changes reqs))), rsqu_codespace = []\<rparr>)))"
proof (cases "list_all answerable reqs")
  case True
  from kv.serve_answered [of "Some driver_new" V "[]" reqs] True history_new obtain d' resps where
    d: "serve (kvstore_app V) reqs (Some driver_new) = (Some d', Ok resps)" "history V (concat (map changes reqs)) d'" by auto
  have "kv_get V key (Some d') = (Some d', Ok (of_nat (commits (concat (map changes reqs))),
      map_of (written (concat (map changes reqs))) key))"
    using d(2) by (simp add: kv_get_def kv_request_def sbind_def history_def)
  with True d(1) assms show ?thesis by (auto simp: kv_query_def unwrap_def sbind_def list_all_iff)
next
  case False
  with kv.serve_refused [of "Some driver_new" V "[]" reqs] history_new show ?thesis
    by (auto simp: list_all_iff simp del: answerable.simps) (metis snd_conv surj_pair)
qed

theorem kvstore_query_latest_witness:
  "from_utf8 (rqqu_data sample_query) = Some ''k''
   \<and> (\<exists>s' r. serve (kvstore_app leb128) (map as_request sample_requests) (Some driver_new) = (s', Ok r)
        \<and> rsqu_value (the (case kv_query leb128 sample_query s' of (_, Ok x) \<Rightarrow> Some x | _ \<Rightarrow> None)) = [0x76])"
proof -
  have k: "from_utf8 (rqqu_data sample_query) = Some ''k''"
    by (simp add: sample_query_def from_utf8_def byte_char_def char_of_def bit_Suc_0_iff)
  have w: "map_of (written (concat (map changes (map as_request sample_requests)))) ''k'' = Some ''v''"
    by (simp add: sample_requests_def as_request_def tx_entries_def sample_tx_block_def sample_tx_def tx_entry_def
        byte_char_def char_of_def bit_Suc_0_iff)
  from kvstore_query_latest [OF k, of leb128 "map as_request sample_requests"] w k show ?thesis
    by (auto simp: sample_serve into_bytes_def)
qed

text \<open>
  The key/value application accepts every transaction into the mempool, also one that is not text;
  a block that holds such a transaction ends the thread of the connection with a panic, and the
  transactions before it have been applied.
\<close>

theorem accepted_tx_panics:
  assumes "list_all utf8_valid before" "\<not> utf8_valid tx" "rqct_tx check = tx" "rqfb_txs block = before @ tx # after"
  shows "\<exists>d resp. kv_check_tx check (Some driver_new) = (Some driver_new, Ok resp) \<and> rsct_code resp = 0
    \<and> kv_finalize_block V block (Some driver_new) = (Some d, Panic)
    \<and> map_of (kv_store d) = map_of (rev (tx_entries before))"
proof -
  obtain d where d: "deliver_txs V before [] (Some driver_new) = (Some d, Ok (map (\<lambda>e. tx_event (fst e)) (tx_entries before)))"
    "history V (map (\<lambda>(key, val). Set key val) (tx_entries before)) d"
    using deliver_txs_running [OF history_new assms(1), of V "[]"] by auto
  have "deliver_txs V (before @ tx # after) [] (Some driver_new) = (Some d, Panic)"
    using deliver_txs_append [OF d(1)] assms(2) by (simp add: from_utf8_def)
  moreover have "map_of (kv_store d) = map_of (rev (tx_entries before))"
    using d(2) by (simp add: history_def written_sets)
  ultimately show ?thesis using assms(4) by (simp add: kv_check_tx_def kv_finalize_block_def sbind_def)
qed

theorem accepted_tx_panics_witness:
  "\<exists>d. kv_finalize_block leb128 (sample_tx_block\<lparr>rqfb_txs := [sample_tx, [0xFF]]\<rparr>) (Some driver_new) = (Some d, Panic)
     \<and> map_of (kv_store d) ''k'' = Some ''v''"
proof -
  have v: "list_all utf8_valid [sample_tx]" "\<not> utf8_valid [0xFF]" by (simp_all add: sample_tx_def byte_between_def)
  from accepted_tx_panics [OF v, of "\<lparr>rqct_tx = [0xFF], rqct_type = 0\<rparr>" "sample_tx_block\<lparr>rqfb_txs := [sample_tx, [0xFF]]\<rparr>" "[]" leb128]
  show ?thesis
    by (auto simp: tx_entries_def sample_tx_def tx_entry_def byte_char_def char_of_def bit_Suc_0_iff)
qed

end
