(* ===== verification/Rpc_Query.thy ===== *)
theory Rpc_Query
  imports Decimal Prelude
begin

text \<open>
  \<open>rpc/src/query.rs\<close>: the queries of the event subscriptions, their text, and the grammar that reads
  the text back. The grammar is a parsing expression grammar: alternatives are tried in order, and a
  repetition takes all it can. Floating point numbers are opaque; their texts, and the parsers of dates
  and times of the \<open>time\<close> crate, are parameters.
\<close>

section \<open>Queries\<close>

datatype event_type = ET_NewBlock | ET_Tx

record date =
  d_year :: int
  d_month :: nat
  d_day :: nat

text \<open>A date and time in UTC, by its fields.\<close>

record datetime =
  dt_date :: date
  dt_hour :: nat
  dt_minute :: nat
  dt_second :: nat
  dt_nanosecond :: nat

datatype 'f operand =
    Op_String string
  | Op_Signed i64
  | Op_Unsigned u64
  | Op_Float 'f
  | Op_Date date
  | Op_DateTime datetime

datatype 'f operation =
    Eq "'f operand"
  | Lt "'f operand"
  | Lte "'f operand"
  | Gt "'f operand"
  | Gte "'f operand"
  | Contains string
  | Exists

record 'f condition =
  cn_key :: string
  cn_operation :: "'f operation"

record 'f query =
  qy_event_type :: "event_type option"
  qy_conditions :: "'f condition list"

record 'f query_ext =
  qx_f64_from_str :: "string \<Rightarrow> 'f option"
  qx_f64_fmt :: "'f \<Rightarrow> string"
  qx_parse_date :: "string \<Rightarrow> date option"
  qx_parse_rfc3339 :: "string \<Rightarrow> datetime option"

text \<open>The constructors of a query from one condition, and the methods that add one.\<close>

definition query_of :: "'f condition \<Rightarrow> 'f query" where
  "query_of c = \<lparr>qy_event_type = None, qy_conditions = [c]\<rparr>"

definition query_and :: "'f query \<Rightarrow> 'f condition \<Rightarrow> 'f query" where
  "query_and q c = q\<lparr>qy_conditions := qy_conditions q @ [c]\<rparr>"

definition query_default :: "'f query" where
  "query_default = \<lparr>qy_event_type = None, qy_conditions = []\<rparr>"

definition query_from_event_type :: "event_type \<Rightarrow> 'f query" where
  "query_from_event_type t = \<lparr>qy_event_type = Some t, qy_conditions = []\<rparr>"

section \<open>Printing\<close>

fun event_type_to_string :: "event_type \<Rightarrow> string" where
  "event_type_to_string ET_NewBlock = ''NewBlock''"
| "event_type_to_string ET_Tx = ''Tx''"

definition backslash :: char where
  "backslash = CHR 0x5C"

definition quote :: char where
  "quote = CHR 0x27"

definition escape :: "string \<Rightarrow> string" where
  "escape s = quote # concat (map (\<lambda>ch. if ch = backslash \<or> ch = quote then [backslash, ch] else [ch]) s) @ [quote]"

text \<open>The format directives \<open>{:0w}\<close> of unsigned and signed numbers.\<close>

definition padded :: "nat \<Rightarrow> nat \<Rightarrow> string" where
  "padded w n = replicate (w - length (nat_to_string n)) (CHR ''0'') @ nat_to_string n"

definition padded_int :: "nat \<Rightarrow> int \<Rightarrow> string" where
  "padded_int w k = (if k < 0 then CHR ''-'' # padded (w - 1) (nat (- k)) else padded w (nat k))"

definition fmt_date :: "date \<Rightarrow> string" where
  "fmt_date d = padded_int 4 (d_year d) @ ''-'' @ padded 2 (d_month d) @ ''-'' @ padded 2 (d_day d)"

text \<open>\<open>proto/src/serializers/timestamp.rs\<close>. The loop drops trailing zeros of a number that is not zero.\<close>

fun secfrac_loop :: "nat \<Rightarrow> nat \<Rightarrow> nat \<times> nat" where
  "secfrac_loop secfrac secfrac_width =
     (if secfrac \<noteq> 0 \<and> secfrac mod 10 = 0 then secfrac_loop (secfrac div 10) (secfrac_width - 1)
      else (secfrac, secfrac_width))"

declare secfrac_loop.simps [simp del]

definition fmt_as_rfc3339_nanos :: "datetime \<Rightarrow> string" where
  "fmt_as_rfc3339_nanos t =
     (let start = padded_int 4 (d_year (dt_date t)) @ ''-'' @ padded 2 (d_month (dt_date t)) @ ''-'' @ padded 2 (d_day (dt_date t))
            @ ''T'' @ padded 2 (dt_hour t) @ '':'' @ padded 2 (dt_minute t) @ '':'' @ padded 2 (dt_second t)
      in if dt_nanosecond t = 0 then start @ ''Z''
         else (case secfrac_loop (dt_nanosecond t) 9 of
                 (secfrac, secfrac_width) \<Rightarrow> start @ ''.'' @ padded secfrac_width secfrac @ ''Z''))"

fun operand_to_string :: "'f query_ext \<Rightarrow> 'f operand \<Rightarrow> string" where
  "operand_to_string Q (Op_String s) = escape s"
| "operand_to_string Q (Op_Signed i) = int_to_string (sint i)"
| "operand_to_string Q (Op_Unsigned u) = nat_to_string (unat u)"
| "operand_to_string Q (Op_Float h) = qx_f64_fmt Q h"
| "operand_to_string Q (Op_Date d) = ''DATE '' @ fmt_date d"
| "operand_to_string Q (Op_DateTime dt) = ''TIME '' @ fmt_as_rfc3339_nanos dt"

definition condition_to_string :: "'f query_ext \<Rightarrow> 'f condition \<Rightarrow> string" where
  "condition_to_string Q c =
     (case cn_operation c of
        Eq op \<Rightarrow> cn_key c @ '' = '' @ operand_to_string Q op
      | Lt op \<Rightarrow> cn_key c @ '' < '' @ operand_to_string Q op
      | Lte op \<Rightarrow> cn_key c @ '' <= '' @ operand_to_string Q op
      | Gt op \<Rightarrow> cn_key c @ '' > '' @ operand_to_string Q op
      | Gte op \<Rightarrow> cn_key c @ '' >= '' @ operand_to_string Q op
      | Contains op \<Rightarrow> cn_key c @ '' CONTAINS '' @ escape op
      | Exists \<Rightarrow> cn_key c @ '' EXISTS'')"

fun join :: "string \<Rightarrow> string list \<Rightarrow> string" where
  "join separator [] = []"
| "join separator (first # iter) = first @ concat (map (\<lambda>item. separator @ item) iter)"

definition query_to_string :: "'f query_ext \<Rightarrow> 'f query \<Rightarrow> string" where
  "query_to_string Q q =
     (case qy_event_type q of
        Some t \<Rightarrow> ''tm.event = '' @ [quote] @ event_type_to_string t @ [quote]
          @ (if qy_conditions q \<noteq> [] then '' AND '' else [])
      | None \<Rightarrow> [])
     @ join '' AND '' (map (condition_to_string Q) (qy_conditions q))"

section \<open>Parsing expressions\<close>

text \<open>A recogniser returns what is left after a match; a rule also returns a value.\<close>

type_synonym recogniser = "string \<Rightarrow> string option"
type_synonym 'a rule = "string \<Rightarrow> ('a \<times> string) option"

definition one :: "(char \<Rightarrow> bool) \<Rightarrow> recogniser" where
  "one P s = (case s of c # r \<Rightarrow> if P c then Some r else None | [] \<Rightarrow> None)"

fun lit :: "string \<Rightarrow> recogniser" where
  "lit [] s = Some s"
| "lit (c # cs) s = Option.bind (one (\<lambda>x. x = c) s) (lit cs)"

definition many :: "(char \<Rightarrow> bool) \<Rightarrow> recogniser" where
  "many P s = Some (dropWhile P s)"

definition many1 :: "(char \<Rightarrow> bool) \<Rightarrow> recogniser" where
  "many1 P s = Option.bind (one P s) (many P)"

definition optional :: "recogniser \<Rightarrow> recogniser" where
  "optional p s = (case p s of Some r \<Rightarrow> Some r | None \<Rightarrow> Some s)"

fun sequence :: "recogniser list \<Rightarrow> recogniser" where
  "sequence [] s = Some s"
| "sequence (p # ps) s = Option.bind (p s) (sequence ps)"

definition slice :: "recogniser \<Rightarrow> string rule" where
  "slice p s = map_option (\<lambda>r. (take (length s - length r) s, r)) (p s)"

definition choice :: "'a rule \<Rightarrow> 'a rule \<Rightarrow> 'a rule" where
  "choice p q s = (case p s of Some x \<Rightarrow> Some x | None \<Rightarrow> q s)"

definition act :: "'a rule \<Rightarrow> ('a \<Rightarrow> 'b option) \<Rightarrow> 'b rule" where
  "act p f s = Option.bind (p s) (\<lambda>(a, r). map_option (\<lambda>b. (b, r)) (f a))"

definition between :: "char \<Rightarrow> char \<Rightarrow> char \<Rightarrow> bool" where
  "between lo hi c \<longleftrightarrow> (of_char lo :: nat) \<le> of_char c \<and> (of_char c :: nat) \<le> of_char hi"

section \<open>The grammar\<close>

abbreviation digit :: "char \<Rightarrow> bool" where
  "digit \<equiv> between (CHR ''0'') (CHR ''9'')"

definition ws0 :: recogniser where
  "ws0 = many (\<lambda>c. c = CHR '' '')"

definition ws1 :: recogniser where
  "ws1 = many1 (\<lambda>c. c = CHR '' '')"

definition string_rule :: "string rule" where
  "string_rule s = Option.bind (lit [quote] s) (\<lambda>s. Option.bind (slice (many (\<lambda>c. c \<noteq> quote)) s)
     (\<lambda>(v, s). map_option (\<lambda>s. (v, s)) (lit [quote] s)))"

definition unsigned_rule :: "u64 rule" where
  "unsigned_rule = act (slice (many1 digit)) (\<lambda>s. case parse_unsigned (2 ^ 64 - 1) s of Ok n \<Rightarrow> Some (of_nat n) | _ \<Rightarrow> None)"

definition signed_rule :: "i64 rule" where
  "signed_rule = act (slice (sequence [lit ''-'', one (between (CHR ''1'') (CHR ''9'')), many digit]))
     (\<lambda>s. case parse_signed 64 s of Ok k \<Rightarrow> Some (of_int k) | _ \<Rightarrow> None)"

definition date_rule :: recogniser where
  "date_rule = sequence
     [one digit, one digit, one digit, one digit, lit ''-'',
      one (\<lambda>c. c = CHR ''0'' \<or> c = CHR ''1''), one digit, lit ''-'',
      one (between (CHR ''0'') (CHR ''3'')), one digit]"

definition min_sec_rule :: recogniser where
  "min_sec_rule = sequence [one (between (CHR ''0'') (CHR ''5'')), one digit]"

definition time_rule :: recogniser where
  "time_rule = sequence
     [one (between (CHR ''0'') (CHR ''2'')), one digit, lit '':'', min_sec_rule, lit '':'', min_sec_rule,
      optional (sequence [lit ''.'', many1 digit]), lit ''Z'']"

definition datetime_rule :: recogniser where
  "datetime_rule = sequence [date_rule, lit ''T'', time_rule]"

definition float_rule :: "'f query_ext \<Rightarrow> 'f rule" where
  "float_rule Q = act (slice (sequence [optional (lit ''-''), many1 digit, lit ''.'', many1 digit])) (qx_f64_from_str Q)"

definition datetime_op :: "'f query_ext \<Rightarrow> 'f operand rule" where
  "datetime_op Q s = Option.bind (sequence [lit ''TIME'', ws1] s)
     (act (slice datetime_rule) (\<lambda>dt. map_option Op_DateTime (qx_parse_rfc3339 Q dt)))"

definition date_op :: "'f query_ext \<Rightarrow> 'f operand rule" where
  "date_op Q s = Option.bind (sequence [lit ''DATE'', ws1] s)
     (act (slice date_rule) (\<lambda>dt. map_option Op_Date (qx_parse_date Q dt)))"

definition tag_char :: "char \<Rightarrow> bool" where
  "tag_char c \<longleftrightarrow> between (CHR ''a'') (CHR ''z'') c \<or> between (CHR ''A'') (CHR ''Z'') c \<or> digit c
     \<or> c = CHR ''_'' \<or> c = CHR ''.''"

definition tag_rule :: "string rule" where
  "tag_rule = slice (sequence
     [one (\<lambda>c. between (CHR ''a'') (CHR ''z'') c \<or> between (CHR ''A'') (CHR ''Z'') c), many tag_char])"

definition operand_rule :: "'f query_ext \<Rightarrow> 'f operand rule" where
  "operand_rule Q =
     choice (datetime_op Q) (choice (date_op Q) (choice (act string_rule (\<lambda>s. Some (Op_String s)))
       (choice (act (float_rule Q) (\<lambda>f. Some (Op_Float f))) (choice (act signed_rule (\<lambda>i. Some (Op_Signed i)))
         (act unsigned_rule (\<lambda>u. Some (Op_Unsigned u)))))))"

text \<open>The rules \<open>eq\<close>, \<open>lte\<close>, \<open>lt\<close>, \<open>gte\<close> and \<open>gt\<close> differ in the sign and the operation.\<close>

definition compare_rule :: "'f query_ext \<Rightarrow> string \<Rightarrow> ('f operand \<Rightarrow> 'f operation) \<Rightarrow> 'f condition rule" where
  "compare_rule Q sign mk s = Option.bind (tag_rule s) (\<lambda>(t, s). Option.bind (sequence [ws0, lit sign, ws0] s)
     (act (operand_rule Q) (\<lambda>op. Some \<lparr>cn_key = t, cn_operation = mk op\<rparr>)))"

definition contains_rule :: "'f condition rule" where
  "contains_rule s = Option.bind (tag_rule s) (\<lambda>(t, s). Option.bind (sequence [ws1, lit ''CONTAINS'', ws1] s)
     (act string_rule (\<lambda>op. Some \<lparr>cn_key = t, cn_operation = Contains op\<rparr>)))"

definition exists_rule :: "'f condition rule" where
  "exists_rule s = Option.bind (tag_rule s) (\<lambda>(t, s). map_option (\<lambda>s. (\<lparr>cn_key = t, cn_operation = Exists\<rparr>, s))
     (sequence [ws1, lit ''EXISTS''] s))"

datatype 'f query_term = Term_EventType event_type | Term_Condition "'f condition"

fun event_type_from_str :: "string \<Rightarrow> event_type option" where
  "event_type_from_str s = (if s = ''NewBlock'' then Some ET_NewBlock else if s = ''Tx'' then Some ET_Tx else None)"

definition event_type_rule :: "'f query_term rule" where
  "event_type_rule s = Option.bind (sequence [lit ''tm.event'', ws0, lit ''='', ws0, lit [quote]] s)
     (\<lambda>s. Option.bind (choice (slice (lit ''NewBlock'')) (slice (lit ''Tx'')) s)
       (\<lambda>(et, s). Option.bind (lit [quote] s)
         (\<lambda>s. map_option (\<lambda>t. (Term_EventType t, s)) (event_type_from_str et))))"

definition condition_rule :: "'f query_ext \<Rightarrow> 'f query_term rule" where
  "condition_rule Q = act (choice (compare_rule Q ''='' Eq) (choice (compare_rule Q ''<='' Lte)
     (choice (compare_rule Q ''<'' Lt) (choice (compare_rule Q ''>='' Gte) (choice (compare_rule Q ''>'' Gt)
       (choice contains_rule exists_rule)))))) (\<lambda>c. Some (Term_Condition c))"

definition term_rule :: "'f query_ext \<Rightarrow> 'f query_term rule" where
  "term_rule Q = choice event_type_rule (condition_rule Q)"

definition and_term :: "'f query_ext \<Rightarrow> 'f query_term rule" where
  "and_term Q s = Option.bind (sequence [ws1, lit ''AND'', ws1] s) (term_rule Q)"

text \<open>Every match of the separator takes something off the input, so the repetition ends.\<close>

definition shrinks :: "recogniser \<Rightarrow> bool" where
  "shrinks p \<longleftrightarrow> (\<forall>s r. p s = Some r \<longrightarrow> length r \<le> length s)"

lemma one_length: "one P s = Some r \<Longrightarrow> length s = Suc (length r)"
  by (auto simp: one_def split: list.splits if_splits)

lemma shrinks_basic [intro, simp]:
  "shrinks (one P)" "shrinks (many P)" "shrinks (many1 P)" "shrinks (lit cs)" "shrinks p \<Longrightarrow> shrinks (optional p)"
proof -
  show one: "shrinks (one P)" by (auto simp: shrinks_def dest: one_length)
  show "shrinks (many P)" by (auto simp: shrinks_def many_def length_dropWhile_le)
  with one show "shrinks (many1 P)" by (fastforce simp: shrinks_def many1_def Option.bind_eq_Some_conv)
  show "shrinks (lit cs)"
    by (induction cs) (fastforce simp: shrinks_def Option.bind_eq_Some_conv dest: one_length)+
  show "shrinks p \<Longrightarrow> shrinks (optional p)" by (auto simp: shrinks_def optional_def split: option.splits)
qed

lemma shrinks_sequence [intro]: "list_all shrinks ps \<Longrightarrow> shrinks (sequence ps)"
  by (induction ps) (fastforce simp: shrinks_def Option.bind_eq_Some_conv)+

text \<open>The same for the rules that return a value.\<close>

definition shrinking :: "'a rule \<Rightarrow> bool" where
  "shrinking p \<longleftrightarrow> (\<forall>s a r. p s = Some (a, r) \<longrightarrow> length r \<le> length s)"

lemma shrinking_slice [intro]: "shrinks p \<Longrightarrow> shrinking (slice p)"
  by (auto simp: shrinking_def shrinks_def slice_def)

lemma shrinking_choice [intro]: "shrinking p \<Longrightarrow> shrinking q \<Longrightarrow> shrinking (choice p q)"
  by (auto simp: shrinking_def choice_def split: option.splits)

lemma shrinking_act [intro]: "shrinking p \<Longrightarrow> shrinking (act p f)"
  by (auto simp: shrinking_def act_def Option.bind_eq_Some_conv)

lemma shrinking_after [intro]: "shrinks p \<Longrightarrow> shrinking q \<Longrightarrow> shrinking (\<lambda>s. Option.bind (p s) q)"
  unfolding shrinking_def shrinks_def by (auto simp: Option.bind_eq_Some_conv) (meson le_trans)

lemma shrinking_bind [intro]:
  "shrinking p \<Longrightarrow> (\<And>a. shrinking (q a)) \<Longrightarrow> shrinking (\<lambda>s. Option.bind (p s) (\<lambda>(a, s). q a s))"
  unfolding shrinking_def by (auto simp: Option.bind_eq_Some_conv) (meson le_trans)

lemma shrinking_end [intro]: "shrinks p \<Longrightarrow> shrinking (\<lambda>s. map_option (\<lambda>s. (v, s)) (p s))"
  by (auto simp: shrinking_def shrinks_def)

lemma shrinking_const [intro]: "shrinking (\<lambda>s. map_option (\<lambda>t. (f t, s)) x)"
  by (auto simp: shrinking_def)

lemmas grammar_defs = string_rule_def unsigned_rule_def signed_rule_def date_rule_def min_sec_rule_def time_rule_def
  datetime_rule_def float_rule_def datetime_op_def date_op_def tag_rule_def operand_rule_def compare_rule_def
  contains_rule_def exists_rule_def event_type_rule_def condition_rule_def term_rule_def ws0_def ws1_def

lemma shrinking_string: "shrinking string_rule"
  unfolding string_rule_def by (intro shrinking_after shrinking_bind shrinking_end shrinking_slice shrinks_basic)

lemma shrinks_date: "shrinks date_rule"
  unfolding date_rule_def by (intro shrinks_sequence) simp

lemma shrinks_min_sec: "shrinks min_sec_rule"
  unfolding min_sec_rule_def by (intro shrinks_sequence) simp

lemma shrinks_datetime: "shrinks datetime_rule"
proof -
  have "shrinks (optional (sequence [lit ''.'', many1 digit]))" by (intro shrinks_basic shrinks_sequence) simp
  then have "shrinks time_rule" unfolding time_rule_def using shrinks_min_sec by (intro shrinks_sequence) simp
  then show ?thesis unfolding datetime_rule_def using shrinks_date by (intro shrinks_sequence) simp
qed

lemma shrinking_operand: "shrinking (operand_rule Q)"
proof -
  have "shrinks (sequence [lit ''TIME'', ws1])" "shrinks (sequence [lit ''DATE'', ws1])"
    by (intro shrinks_sequence; simp add: ws1_def)+
  note starts = this
  have "shrinking (datetime_op Q)" unfolding datetime_op_def
    by (rule shrinking_after [OF starts(1)]) (intro shrinking_act shrinking_slice shrinks_datetime)
  moreover have "shrinking (date_op Q)" unfolding date_op_def
    by (rule shrinking_after [OF starts(2)]) (intro shrinking_act shrinking_slice shrinks_date)
  moreover have "shrinking (float_rule Q)" "shrinking signed_rule" "shrinking unsigned_rule"
    unfolding float_rule_def signed_rule_def unsigned_rule_def
    by (intro shrinking_act shrinking_slice shrinks_sequence shrinks_basic; simp)+
  ultimately show ?thesis
    unfolding operand_rule_def by (intro shrinking_choice shrinking_act shrinking_string)
qed

lemma shrinking_tag: "shrinking tag_rule"
  unfolding tag_rule_def by (intro shrinking_slice shrinks_sequence) simp

lemma shrinking_compare: "shrinking (compare_rule Q sign mk)"
  unfolding compare_rule_def
  by (intro shrinking_bind shrinking_tag shrinking_after shrinks_sequence shrinking_act shrinking_operand) (simp add: ws0_def)

lemma shrinking_term: "shrinking (term_rule Q)"
proof -
  have "shrinking contains_rule" unfolding contains_rule_def
    by (intro shrinking_bind shrinking_tag shrinking_after shrinks_sequence shrinking_act shrinking_string) (simp add: ws1_def)
  moreover have "shrinking exists_rule" unfolding exists_rule_def
    by (intro shrinking_bind shrinking_tag shrinking_end shrinks_sequence) (simp add: ws1_def)
  moreover have "shrinking event_type_rule" unfolding event_type_rule_def
    by (intro shrinking_bind shrinking_after shrinks_sequence shrinking_choice shrinking_slice shrinks_basic shrinking_const)
      (simp add: ws0_def)
  ultimately show ?thesis unfolding term_rule_def condition_rule_def
    by (intro shrinking_choice shrinking_act shrinking_compare)
qed

lemma and_term_length: "and_term Q s = Some (t, r) \<Longrightarrow> length r < length s"
proof -
  assume "and_term Q s = Some (t, r)"
  then obtain s1 s2 s3 where s: "ws1 s = Some s1" "lit ''AND'' s1 = Some s2" "ws1 s2 = Some s3" "term_rule Q s3 = Some (t, r)"
    by (auto simp: and_term_def Option.bind_eq_Some_conv)
  have w: "ws1 x = Some y \<Longrightarrow> length y < length x" for x y
    unfolding ws1_def many1_def many_def
    by (auto simp: Option.bind_eq_Some_conv less_Suc_eq_le length_dropWhile_le dest!: one_length)
  have "length s2 \<le> length s1" using s(2) shrinks_basic(4) unfolding shrinks_def by blast
  moreover have "length r \<le> length s3" using s(4) shrinking_term unfolding shrinking_def by blast
  ultimately show ?thesis using w [OF s(1)] w [OF s(3)] by simp
qed

function more_terms :: "'f query_ext \<Rightarrow> string \<Rightarrow> 'f query_term list \<times> string" where
  "more_terms Q s =
     (case and_term Q s of
        None \<Rightarrow> ([], s)
      | Some (t, r) \<Rightarrow> (case more_terms Q r of (ts, r') \<Rightarrow> (t # ts, r')))"
  by pat_completeness auto
termination
  by (relation "measure (\<lambda>(_, s). length s)") (auto dest: and_term_length)

declare more_terms.simps [simp del]

definition query_rule :: "'f query_ext \<Rightarrow> string \<Rightarrow> 'f query_term list \<times> string" where
  "query_rule Q s =
     (case term_rule Q s of
        None \<Rightarrow> ([], s)
      | Some (t, r) \<Rightarrow> (case more_terms Q r of (ts, r') \<Rightarrow> (t # ts, r')))"

section \<open>Queries from text\<close>

datatype query_error = QE_InvalidParams string

fun separate_terms :: "'f query_term list \<Rightarrow> event_type list \<times> 'f condition list" where
  "separate_terms [] = ([], [])"
| "separate_terms (Term_EventType et # ts) = (case separate_terms ts of (es, cs) \<Rightarrow> (et # es, cs))"
| "separate_terms (Term_Condition c # ts) = (case separate_terms ts of (es, cs) \<Rightarrow> (es, c # cs))"

text \<open>A text is a query when the grammar matches all of it.\<close>

definition query_from_str :: "'f query_ext \<Rightarrow> string \<Rightarrow> (query_error, 'f query) result" where
  "query_from_str Q s =
     (case query_rule Q s of
        (ts, rest) \<Rightarrow>
          if rest \<noteq> [] then Err (QE_InvalidParams ''failed to parse query'')
          else (case separate_terms ts of
                  (event_types, conditions) \<Rightarrow>
                    if 1 < length event_types
                    then Err (QE_InvalidParams ''tm.event can only be used once in a query'')
                    else Ok \<lparr>qy_event_type = (case event_types of [] \<Rightarrow> None | et # _ \<Rightarrow> Some et), qy_conditions = conditions\<rparr>))"

end
