(* ===== verification/Rpc_Query_Lemmas.thy ===== *)
theory Rpc_Query_Lemmas
  imports Rpc_Query
begin

text \<open>
  The text of a query is read back by the grammar as the same query, for the queries whose text
  determines them; and which operands do not survive.
\<close>

section \<open>What a recogniser takes\<close>

text \<open>\<open>takes p x r\<close>: before the text \<open>r\<close>, the recogniser takes exactly \<open>x\<close>.\<close>

definition takes :: "recogniser \<Rightarrow> string \<Rightarrow> string \<Rightarrow> bool" where
  "takes p x r \<longleftrightarrow> p (x @ r) = Some r"

lemma takes_one [intro]: "P c \<Longrightarrow> takes (one P) [c] r"
  by (simp add: takes_def one_def)

lemma takes_lit [intro]: "takes (lit cs) cs r"
  by (induction cs) (simp_all add: takes_def one_def)

definition stops :: "(char \<Rightarrow> bool) \<Rightarrow> string \<Rightarrow> bool" where
  "stops P r \<longleftrightarrow> (case r of [] \<Rightarrow> True | c # _ \<Rightarrow> \<not> P c)"

lemma stops_dropWhile: "stops P r \<Longrightarrow> dropWhile P r = r"
  by (auto simp: stops_def split: list.splits)

lemma takes_many [intro]: "list_all P x \<Longrightarrow> stops P r \<Longrightarrow> takes (many P) x r"
  by (simp add: takes_def many_def list_all_iff stops_dropWhile dropWhile_append2)

lemma takes_many1 [intro]: "list_all P x \<Longrightarrow> x \<noteq> [] \<Longrightarrow> stops P r \<Longrightarrow> takes (many1 P) x r"
  using takes_many [of P "tl x" r] by (cases x) (auto simp: takes_def many1_def one_def)

lemma takes_sequence_Nil [intro]: "takes (sequence []) [] r"
  by (simp add: takes_def)

lemma takes_sequence_Cons: "takes p x (y @ r) \<Longrightarrow> takes (sequence ps) y r \<Longrightarrow> takes (sequence (p # ps)) (x @ y) r"
  by (simp add: takes_def)

lemma takes_optional [intro]: "takes p x r \<Longrightarrow> takes (optional p) x r"
  by (simp add: takes_def optional_def)

lemma takes_optional_none: "p r = None \<Longrightarrow> takes (optional p) [] r"
  by (simp add: takes_def optional_def)

lemma takes_slice: "takes p x r \<Longrightarrow> slice p (x @ r) = Some (x, r)"
  by (simp add: takes_def slice_def)

lemma lit_Cons_other: "c \<noteq> d \<Longrightarrow> lit (c # cs) (d # s) = None"
  by (simp add: one_def)

section \<open>Digits\<close>

lemma digit_char_digit [simp]: "d < 10 \<Longrightarrow> digit (digit_char d)"
  by (simp add: between_def digit_char_def)

lemma nat_to_string_all_digits: "list_all digit (nat_to_string n)"
proof (induction n rule: nat_to_string.induct)
  case (1 n)
  then show ?case by (subst nat_to_string.simps) simp
qed

lemma length_nat_to_string: "n < 10 ^ Suc k \<Longrightarrow> length (nat_to_string n) \<le> Suc k"
proof (induction k arbitrary: n)
  case (Suc k)
  then have "n div 10 < 10 ^ Suc k" by (simp add: less_mult_imp_div_less mult.commute)
  then show ?case using Suc.IH by (subst nat_to_string.simps) simp
qed (simp add: nat_to_string.simps)

lemma padded_digits: "list_all digit (padded w n)"
  using nat_to_string_all_digits [of n] by (auto simp: padded_def list_all_iff between_def)

lemma length_padded: "n < 10 ^ Suc k \<Longrightarrow> length (padded (Suc k) n) = Suc k"
  using length_nat_to_string [of n k] by (simp add: padded_def)

lemma padded_2:
  assumes "n < 100"
  shows "padded 2 n = [digit_char (n div 10), digit_char (n mod 10)]"
  using assms by (auto simp: padded_def nat_to_string.simps [of n] nat_to_string.simps [of "n div 10"] digit_char_def char_of_def bit_Suc_0_iff)

lemma padded_4:
  assumes "n < 10000"
  obtains a b c d where "padded 4 n = [a, b, c, d]" "digit a" "digit b" "digit c" "digit d"
proof -
  have "length (padded 4 n) = 4" using length_padded [of n 3] assms by simp
  then obtain a b c d where "padded 4 n = [a, b, c, d]" by (auto simp: length_Suc_conv numeral_eq_Suc)
  with padded_digits [of 4 n] that show ?thesis by auto
qed

lemma hd_nat_to_string_nonzero: "0 < n \<Longrightarrow> between (CHR ''1'') (CHR ''9'') (hd (nat_to_string n))"
proof (induction n rule: nat_to_string.induct)
  case (1 n)
  then show ?case by (subst nat_to_string.simps) (auto simp: hd_append between_def digit_char_def)
qed

section \<open>Operands\<close>

text \<open>What may follow an operand: nothing, or a space.\<close>

definition ends :: "string \<Rightarrow> bool" where
  "ends r \<longleftrightarrow> r = [] \<or> hd r = CHR '' ''"

lemma ends_stops: "ends r \<Longrightarrow> \<not> P (CHR '' '') \<Longrightarrow> stops P r"
  by (cases r) (auto simp: ends_def stops_def)

lemma space_not_digit [simp]: "\<not> digit (CHR '' '')"
  by (simp add: between_def)

lemma string_rule_quoted: "quote \<notin> set v \<Longrightarrow> string_rule (quote # v @ quote # r) = Some (v, r)"
proof -
  assume "quote \<notin> set v"
  then have "takes (many (\<lambda>c. c \<noteq> quote)) v (quote # r)" by (intro takes_many) (auto simp: list_all_iff stops_def)
  from takes_slice [OF this] show ?thesis by (simp add: string_rule_def one_def)
qed

lemma escape_plain: "quote \<notin> set v \<Longrightarrow> backslash \<notin> set v \<Longrightarrow> escape v = quote # v @ [quote]"
proof -
  assume "quote \<notin> set v" "backslash \<notin> set v"
  then have "concat (map (\<lambda>ch. if ch = backslash \<or> ch = quote then [backslash, ch] else [ch]) v) = v"
    by (induction v) auto
  then show ?thesis by (simp add: escape_def)
qed

lemma not_keyword: "c \<noteq> CHR ''T'' \<Longrightarrow> datetime_op Q (c # s) = None" "c \<noteq> CHR ''D'' \<Longrightarrow> date_op Q (c # s) = None"
  by (simp_all add: datetime_op_def date_op_def one_def)

lemma not_quoted: "c \<noteq> quote \<Longrightarrow> string_rule (c # s) = None"
  by (simp add: string_rule_def one_def)

lemma digit_or_minus_other:
  assumes "digit c \<or> c = CHR ''-''"
  shows "c \<noteq> CHR ''T''" "c \<noteq> CHR ''D''" "c \<noteq> quote"
  using assms by (auto simp: between_def quote_def)

lemma not_float:
  assumes "list_all digit x" "x \<noteq> []" "ends r"
  shows "float_rule Q (x @ r) = None" "float_rule Q (CHR ''-'' # x @ r) = None"
proof -
  have "takes (many1 digit) x r" using assms by (intro takes_many1 ends_stops) simp_all
  then have t: "many1 digit (x @ r) = Some r" by (simp add: takes_def)
  have l: "lit ''.'' r = None" using assms(3) by (cases r) (auto simp: ends_def one_def)
  have "optional (lit ''-'') (x @ r) = Some (x @ r)"
    using assms(1,2) by (cases x) (auto simp: optional_def one_def between_def)
  with t l show "float_rule Q (x @ r) = None" by (simp add: float_rule_def act_def slice_def)
  have "optional (lit ''-'') (CHR ''-'' # x @ r) = Some (x @ r)" by (simp add: optional_def one_def)
  with t l show "float_rule Q (CHR ''-'' # x @ r) = None" by (simp add: float_rule_def act_def slice_def)
qed

lemma unsigned_rule_text: "ends r \<Longrightarrow> unsigned_rule (nat_to_string (unat u) @ r) = Some (u, r)"
proof -
  assume "ends r"
  then have "takes (many1 digit) (nat_to_string (unat u)) r"
    using nat_to_string_all_digits [of "unat u"] by (intro takes_many1 ends_stops) simp_all
  moreover have "parse_unsigned (2 ^ 64 - 1) (nat_to_string (unat u)) = Ok (unat u)"
    by (rule parse_unsigned_to_string) simp
  ultimately show ?thesis by (simp add: unsigned_rule_def act_def takes_slice)
qed

lemma signed_rule_text:
  assumes "ends r" "sint i < 0"
  shows "signed_rule (int_to_string (sint i) @ r) = Some (i, r)"
proof -
  let ?x = "nat_to_string (nat (- sint i))"
  obtain c cs where c: "?x = c # cs" using nat_to_string_not_Nil by (cases ?x) auto
  have first: "between (CHR ''1'') (CHR ''9'') c" "list_all digit cs"
    using hd_nat_to_string_nonzero [of "nat (- sint i)"] nat_to_string_all_digits [of "nat (- sint i)"] assms(2) c by simp_all
  have "takes (sequence [lit ''-'', one (between (CHR ''1'') (CHR ''9'')), many digit]) (''-'' @ [c] @ cs @ []) r"
    by (intro takes_sequence_Cons takes_lit takes_one takes_many first takes_sequence_Nil)
      (use assms(1) in \<open>simp add: ends_stops\<close>)
  then have "slice (sequence [lit ''-'', one (between (CHR ''1'') (CHR ''9'')), many digit]) (int_to_string (sint i) @ r)
      = Some (int_to_string (sint i), r)"
    using takes_slice assms(2) c by (fastforce simp: int_to_string_def)
  moreover have "parse_signed 64 (int_to_string (sint i)) = Ok (sint i)"
    using sint_ge [of i] sint_lt [of i] by (intro parse_signed_to_string) simp_all
  ultimately show ?thesis by (simp add: signed_rule_def act_def)
qed

text \<open>Dates and times as the grammar knows them.\<close>

definition date_in_grammar :: "date \<Rightarrow> bool" where
  "date_in_grammar d \<longleftrightarrow> 0 \<le> d_year d \<and> d_year d < 10000 \<and> d_month d < 20 \<and> d_day d < 40"

definition datetime_in_grammar :: "datetime \<Rightarrow> bool" where
  "datetime_in_grammar t \<longleftrightarrow> date_in_grammar (dt_date t) \<and> dt_hour t < 30 \<and> dt_minute t < 60 \<and> dt_second t < 60"

lemma tens:
  assumes "n < 10 * Suc k" "k < 10"
  shows "between (CHR ''0'') (digit_char k) (digit_char (n div 10))"
proof -
  have "n div 10 \<le> k" using assms(1) by (simp add: less_mult_imp_div_less less_Suc_eq_le [symmetric] mult.commute)
  with assms(2) show ?thesis by (simp add: between_def digit_char_def)
qed

lemma digit_chars: "digit_char 2 = CHR ''2''" "digit_char 3 = CHR ''3''" "digit_char 5 = CHR ''5''"
    "digit_char 0 = CHR ''0''" "digit_char 1 = CHR ''1''"
  by (simp_all add: digit_char_def char_of_def bit_Suc_0_iff)

lemma takes_date: "date_in_grammar d \<Longrightarrow> takes date_rule (fmt_date d) r"
proof -
  assume d: "date_in_grammar d"
  then have y: "padded_int 4 (d_year d) = padded 4 (nat (d_year d))" "nat (d_year d) < 10000"
    by (auto simp: date_in_grammar_def padded_int_def nat_less_iff)
  obtain a b c e where p: "padded 4 (nat (d_year d)) = [a, b, c, e]" "digit a" "digit b" "digit c" "digit e"
    by (rule padded_4 [OF y(2)])
  have m: "digit_char (d_month d div 10) = CHR ''0'' \<or> digit_char (d_month d div 10) = CHR ''1''"
  proof -
    have "d_month d div 10 = 0 \<or> d_month d div 10 = 1" using d by (auto simp: date_in_grammar_def)
    then show ?thesis using digit_chars(4,5) by metis
  qed
  have dd: "between (CHR ''0'') (CHR ''3'') (digit_char (d_day d div 10))"
    using tens [of "d_day d" 3] d digit_chars by (simp add: date_in_grammar_def)
  have "d_month d < 100" "d_day d < 100" using d by (auto simp: date_in_grammar_def)
  with p m dd show ?thesis
    by (simp add: takes_def date_rule_def fmt_date_def y(1) padded_2 one_def)
qed

lemma fmt_date_starts: "date_in_grammar d \<Longrightarrow> stops (\<lambda>c. c = CHR '' '') (fmt_date d @ r)"
proof -
  assume d: "date_in_grammar d"
  then have y: "padded_int 4 (d_year d) = padded 4 (nat (d_year d))" "nat (d_year d) < 10000"
    by (auto simp: date_in_grammar_def padded_int_def nat_less_iff)
  obtain a b c e where "padded 4 (nat (d_year d)) = [a, b, c, e]" "digit a" by (rule padded_4 [OF y(2)])
  then show ?thesis by (auto simp: fmt_date_def y(1) stops_def between_def)
qed

lemma takes_min_sec: "n < 60 \<Longrightarrow> takes min_sec_rule (padded 2 n) r"
  using tens [of n 5] by (simp add: takes_def min_sec_rule_def padded_2 one_def digit_chars)

lemma takes_time:
  assumes "h < 30" "m < 60" "s < 60" "f = [] \<or> (\<exists>x. f = CHR ''.'' # x \<and> x \<noteq> [] \<and> list_all digit x)"
  shows "takes time_rule (padded 2 h @ '':'' @ padded 2 m @ '':'' @ padded 2 s @ f @ ''Z'') r"
proof -
  have h: "between (CHR ''0'') (CHR ''2'') (digit_char (h div 10))" "h < 100"
    using tens [of h 2] assms(1) by (simp_all add: digit_chars)
  have "takes (optional (sequence [lit ''.'', many1 digit])) f (''Z'' @ r)"
  proof (cases "f = []")
    case True
    then show ?thesis by (auto intro!: takes_optional_none simp: one_def)
  next
    case False
    then obtain x where x: "f = CHR ''.'' # x" "x \<noteq> []" "list_all digit x" using assms(4) by auto
    have "takes (sequence [lit ''.'', many1 digit]) (''.'' @ x @ []) (''Z'' @ r)"
      by (intro takes_sequence_Cons takes_lit takes_many1 x takes_sequence_Nil) (simp add: stops_def between_def)
    with x(1) show ?thesis by (auto intro: takes_optional)
  qed
  then have "takes (sequence
     [one (between (CHR ''0'') (CHR ''2'')), one digit, lit '':'', min_sec_rule, lit '':'', min_sec_rule,
      optional (sequence [lit ''.'', many1 digit]), lit ''Z''])
     ([digit_char (h div 10)] @ [digit_char (h mod 10)] @ '':'' @ padded 2 m @ '':'' @ padded 2 s @ f @ ''Z'' @ []) r"
    using assms h by (intro takes_sequence_Cons takes_one takes_lit takes_min_sec takes_sequence_Nil) simp_all
  then show ?thesis using h(2) by (simp add: time_rule_def padded_2)
qed

lemma takes_datetime:
  assumes "datetime_in_grammar t"
  shows "takes datetime_rule (fmt_as_rfc3339_nanos t) r"
proof -
  define f where "f = (if dt_nanosecond t = 0 then [] else
     (case secfrac_loop (dt_nanosecond t) 9 of (secfrac, w) \<Rightarrow> CHR ''.'' # padded w secfrac))"
  have nz: "padded w n \<noteq> []" for w n by (simp add: padded_def)
  have f: "f = [] \<or> (\<exists>x. f = CHR ''.'' # x \<and> x \<noteq> [] \<and> list_all digit x)"
    by (auto simp: f_def padded_digits nz split: prod.splits)
  have shape: "fmt_as_rfc3339_nanos t = fmt_date (dt_date t) @ ''T''
      @ (padded 2 (dt_hour t) @ '':'' @ padded 2 (dt_minute t) @ '':'' @ padded 2 (dt_second t) @ f @ ''Z'') @ []"
    by (simp add: fmt_as_rfc3339_nanos_def f_def fmt_date_def Let_def split: prod.splits)
  show ?thesis unfolding shape datetime_rule_def
    using assms f by (intro takes_sequence_Cons takes_lit takes_date takes_time takes_sequence_Nil)
      (simp_all add: datetime_in_grammar_def)
qed

text \<open>
  The operands whose text determines them: text without quotes and backslashes, negative signed and all
  unsigned integers, floating point numbers printed with a fraction, dates and times in the range of
  the grammar. What the \<open>time\<close> crate and the standard library read from a text they printed is asked
  of the operand at hand.
\<close>

fun readable_operand :: "'f query_ext \<Rightarrow> 'f operand \<Rightarrow> bool" where
  "readable_operand Q (Op_String v) \<longleftrightarrow> quote \<notin> set v \<and> backslash \<notin> set v"
| "readable_operand Q (Op_Signed i) \<longleftrightarrow> sint i < 0"
| "readable_operand Q (Op_Unsigned u) \<longleftrightarrow> True"
| "readable_operand Q (Op_Float h) \<longleftrightarrow>
     (\<exists>sign a b. (sign = [] \<or> sign = ''-'') \<and> qx_f64_fmt Q h = sign @ a @ ''.'' @ b
        \<and> a \<noteq> [] \<and> b \<noteq> [] \<and> list_all digit a \<and> list_all digit b)
     \<and> qx_f64_from_str Q (qx_f64_fmt Q h) = Some h"
| "readable_operand Q (Op_Date d) \<longleftrightarrow> date_in_grammar d \<and> qx_parse_date Q (fmt_date d) = Some d"
| "readable_operand Q (Op_DateTime t) \<longleftrightarrow>
     datetime_in_grammar t \<and> qx_parse_rfc3339 Q (fmt_as_rfc3339_nanos t) = Some t"

lemma operand_choices:
  assumes "x = c # cs" "digit c \<or> c = CHR ''-''"
  shows "operand_rule Q (x @ r) = choice (act (float_rule Q) (\<lambda>f. Some (Op_Float f)))
    (choice (act signed_rule (\<lambda>i. Some (Op_Signed i))) (act unsigned_rule (\<lambda>u. Some (Op_Unsigned u)))) (x @ r)"
proof -
  have "datetime_op Q (x @ r) = None" "date_op Q (x @ r) = None" "string_rule (x @ r) = None"
    using digit_or_minus_other [OF assms(2)] by (simp_all add: assms(1) not_keyword not_quoted)
  then show ?thesis by (simp add: operand_rule_def choice_def act_def)
qed

lemma readable_floatE:
  assumes "readable_operand Q op" "op = Op_Float h"
  obtains sign a b where "sign = [] \<or> sign = ''-''" "qx_f64_fmt Q h = sign @ a @ ''.'' @ b" "a \<noteq> []" "b \<noteq> []"
    "list_all digit a" "list_all digit b" "qx_f64_from_str Q (qx_f64_fmt Q h) = Some h"
  using assms(1) unfolding assms(2) readable_operand.simps by blast

lemma float_rule_text:
  assumes "readable_operand Q (Op_Float h)" "ends r"
  shows "float_rule Q (qx_f64_fmt Q h @ r) = Some (h, r)"
proof -
  obtain sign a b where f: "sign = [] \<or> sign = ''-''" "qx_f64_fmt Q h = sign @ a @ ''.'' @ b"
    "a \<noteq> []" "b \<noteq> []" "list_all digit a" "list_all digit b" "qx_f64_from_str Q (qx_f64_fmt Q h) = Some h"
    by (rule readable_floatE [OF assms(1) refl])
  have "takes (optional (lit ''-'')) sign (a @ ''.'' @ b @ [] @ r)"
  proof (cases "sign = []")
    case True
    have "lit ''-'' (a @ ''.'' @ b @ [] @ r) = None" using f(3,5) by (cases a) (auto simp: one_def between_def)
    with True show ?thesis by (auto intro: takes_optional_none)
  qed (use f(1) in auto)
  then have "takes (sequence [optional (lit ''-''), many1 digit, lit ''.'', many1 digit]) (sign @ a @ ''.'' @ b @ []) r"
    using f ends_stops [OF assms(2), of digit]
    by (intro takes_sequence_Cons takes_many1 takes_lit takes_sequence_Nil) (simp_all add: stops_def between_def)
  then have "slice (sequence [optional (lit ''-''), many1 digit, lit ''.'', many1 digit]) (qx_f64_fmt Q h @ r)
      = Some (qx_f64_fmt Q h, r)" using takes_slice f(2) by fastforce
  with f(7) show ?thesis by (simp add: float_rule_def act_def)
qed

lemma ws1_one: "stops (\<lambda>c. c = CHR '' '') r \<Longrightarrow> ws1 (CHR '' '' # r) = Some r"
  by (simp add: ws1_def many1_def many_def one_def stops_dropWhile)

lemma ws0_one: "stops (\<lambda>c. c = CHR '' '') r \<Longrightarrow> ws0 (CHR '' '' # r) = Some r"
  by (simp add: ws0_def many_def stops_dropWhile)

lemma operand_rule_text:
  assumes "readable_operand Q op" "ends r"
  shows "operand_rule Q (operand_to_string Q op @ r) = Some (op, r)"
proof (cases op)
  case (Op_String v)
  then have "operand_to_string Q op @ r = quote # v @ quote # r" using assms(1) by (simp add: escape_plain)
  moreover have "datetime_op Q (quote # v @ quote # r) = None" "date_op Q (quote # v @ quote # r) = None"
    by (simp_all add: not_keyword quote_def)
  ultimately show ?thesis
    using string_rule_quoted [of v r] assms(1) Op_String by (simp add: operand_rule_def choice_def act_def)
next
  case (Op_Signed i)
  let ?x = "nat_to_string (nat (- sint i))"
  have i: "int_to_string (sint i) = CHR ''-'' # ?x" using assms(1) Op_Signed by (simp add: int_to_string_def)
  have "float_rule Q (int_to_string (sint i) @ r) = None"
    unfolding i using not_float(2) [OF nat_to_string_all_digits nat_to_string_not_Nil assms(2)] by simp
  with operand_choices [OF i, of Q r] signed_rule_text [OF assms(2), of i] assms(1) Op_Signed show ?thesis
    by (simp add: choice_def act_def)
next
  case (Op_Unsigned u)
  obtain c cs where c: "nat_to_string (unat u) = c # cs" "digit c"
    using nat_to_string_not_Nil nat_to_string_all_digits [of "unat u"] by (cases "nat_to_string (unat u)") auto
  have "signed_rule (nat_to_string (unat u) @ r) = None"
    using c by (auto simp: signed_rule_def act_def slice_def one_def between_def)
  with operand_choices [OF c(1), of Q r] c(2) not_float(1) [OF nat_to_string_all_digits nat_to_string_not_Nil assms(2), of Q]
    unsigned_rule_text [OF assms(2), of u] Op_Unsigned show ?thesis by (simp add: choice_def act_def)
next
  case (Op_Float h)
  obtain sign a b where f: "sign = [] \<or> sign = ''-''" "qx_f64_fmt Q h = sign @ a @ ''.'' @ b" "a \<noteq> []" "list_all digit a"
    by (rule readable_floatE [OF assms(1) Op_Float])
  then obtain c cs where c: "qx_f64_fmt Q h = c # cs" "digit c \<or> c = CHR ''-''" by (cases a) auto
  show ?thesis
    using operand_choices [OF c, of Q r] float_rule_text [OF _ assms(2), of Q h] assms(1) Op_Float
    by (simp add: choice_def act_def del: readable_operand.simps)
next
  case (Op_Date d)
  then have d: "date_in_grammar d" "qx_parse_date Q (fmt_date d) = Some d" using assms(1) by simp_all
  note s = fmt_date_starts [OF d(1), of r]
  show ?thesis
    using Op_Date d(2) takes_slice [OF takes_date [OF d(1)]] ws1_one [OF s]
    by (simp add: operand_rule_def choice_def not_keyword date_op_def one_def act_def)
next
  case (Op_DateTime t)
  then have t: "datetime_in_grammar t" "qx_parse_rfc3339 Q (fmt_as_rfc3339_nanos t) = Some t" using assms(1) by simp_all
  have s: "stops (\<lambda>c. c = CHR '' '') (fmt_as_rfc3339_nanos t @ r)"
    using fmt_date_starts [of "dt_date t"] t(1)
    by (simp add: fmt_as_rfc3339_nanos_def datetime_in_grammar_def fmt_date_def Let_def split: prod.splits)
  show ?thesis
    using Op_DateTime t(2) takes_slice [OF takes_datetime [OF t(1)]] ws1_one [OF s]
    by (simp add: operand_rule_def choice_def datetime_op_def one_def act_def)
qed

section \<open>Conditions\<close>

text \<open>A key the grammar reads whole.\<close>

definition tag :: "string \<Rightarrow> bool" where
  "tag t \<longleftrightarrow> (case t of [] \<Rightarrow> False
     | c # cs \<Rightarrow> (between (CHR ''a'') (CHR ''z'') c \<or> between (CHR ''A'') (CHR ''Z'') c) \<and> list_all tag_char cs)"

lemma tag_rule_text: "tag t \<Longrightarrow> tag_rule (t @ CHR '' '' # r) = Some (t, CHR '' '' # r)"
proof -
  assume "tag t"
  then obtain c cs where t: "t = c # cs" "between (CHR ''a'') (CHR ''z'') c \<or> between (CHR ''A'') (CHR ''Z'') c" "list_all tag_char cs"
    by (auto simp: tag_def split: list.splits)
  have "takes (sequence [one (\<lambda>c. between (CHR ''a'') (CHR ''z'') c \<or> between (CHR ''A'') (CHR ''Z'') c), many tag_char])
      ([c] @ cs @ []) (CHR '' '' # r)"
    using t by (intro takes_sequence_Cons takes_one takes_many takes_sequence_Nil) (simp_all add: stops_def tag_char_def between_def)
  with t(1) show ?thesis using takes_slice by (fastforce simp: tag_rule_def)
qed

text \<open>The first character of an operand's text is not a space and not a sign.\<close>

definition starts :: "string \<Rightarrow> bool" where
  "starts x \<longleftrightarrow> (case x of [] \<Rightarrow> False | c # _ \<Rightarrow> c \<noteq> CHR '' '' \<and> c \<noteq> CHR ''='')"

lemma starts_Cons: "starts (c # cs) \<longleftrightarrow> c \<noteq> CHR '' '' \<and> c \<noteq> CHR ''=''"
  by (simp add: starts_def)

lemma starts_digits: "list_all digit x \<Longrightarrow> x \<noteq> [] \<Longrightarrow> starts (x @ y)"
  by (cases x) (auto simp: starts_def between_def)

lemma operand_starts: "readable_operand Q op \<Longrightarrow> starts (operand_to_string Q op @ r)"
proof (cases op)
  case (Op_Float h)
  assume "readable_operand Q op"
  then obtain sign a b where "sign = [] \<or> sign = ''-''" "qx_f64_fmt Q h = sign @ a @ ''.'' @ b" "a \<noteq> []" "list_all digit a"
    using Op_Float by (rule readable_floatE)
  with Op_Float show ?thesis using starts_digits [of a] by (auto simp: starts_Cons)
qed (use starts_digits [OF nat_to_string_all_digits nat_to_string_not_Nil] in
    \<open>auto simp: escape_def quote_def starts_Cons int_to_string_def\<close>)

lemma starts_stops: "starts x \<Longrightarrow> stops (\<lambda>c. c = CHR '' '') x"
  by (auto simp: starts_def stops_def split: list.splits)

lemma compare_rule_text:
  assumes "tag t" "readable_operand Q op" "ends r" "stops (\<lambda>c. c = CHR '' '') sign" "sign \<noteq> []"
  shows "compare_rule Q sign mk (t @ '' '' @ sign @ '' '' @ operand_to_string Q op @ r) = Some (\<lparr>cn_key = t, cn_operation = mk op\<rparr>, r)"
proof -
  let ?o = "operand_to_string Q op @ r"
  have "stops (\<lambda>c. c = CHR '' '') (sign @ '' '' @ ?o)" using assms(4,5) by (cases sign) (auto simp: stops_def)
  from ws0_one [OF this] have "ws0 ('' '' @ sign @ '' '' @ ?o) = Some (sign @ '' '' @ ?o)" by simp
  moreover have "lit sign (sign @ '' '' @ ?o) = Some ('' '' @ ?o)" using takes_lit [of sign] by (simp add: takes_def)
  moreover have "ws0 ('' '' @ ?o) = Some ?o" using ws0_one [OF starts_stops [OF operand_starts [OF assms(2)]]] by simp
  ultimately show ?thesis
    using tag_rule_text [OF assms(1), of "sign @ '' '' @ ?o"] operand_rule_text [OF assms(2,3)]
    by (simp add: compare_rule_def act_def)
qed

text \<open>A comparison with another sign does not match.\<close>

lemma compare_rule_other:
  assumes "tag t" "lit sign (c # s) = None" "c \<noteq> CHR '' ''"
  shows "compare_rule Q sign mk (t @ CHR '' '' # c # s) = None"
proof -
  have "ws0 (CHR '' '' # c # s) = Some (c # s)" using assms(3) by (intro ws0_one) (simp add: stops_def)
  with assms(2) tag_rule_text [OF assms(1), of "c # s"] show ?thesis by (simp add: compare_rule_def)
qed

lemma contains_rule_text:
  assumes "tag t" "quote \<notin> set v"
  shows "contains_rule (t @ '' CONTAINS '' @ quote # v @ quote # r) = Some (\<lparr>cn_key = t, cn_operation = Contains v\<rparr> :: 'f condition, r)"
proof -
  have "ws1 ('' CONTAINS '' @ quote # v @ quote # r) = Some (''CONTAINS '' @ quote # v @ quote # r)"
    using ws1_one [of "''CONTAINS '' @ quote # v @ quote # r"] by (simp add: stops_def)
  moreover have "ws1 ('' '' @ quote # v @ quote # r) = Some (quote # v @ quote # r)"
    using ws1_one [of "quote # v @ quote # r"] by (simp add: stops_def quote_def)
  ultimately show ?thesis
    using tag_rule_text [OF assms(1), of "''CONTAINS '' @ quote # v @ quote # r"] string_rule_quoted [OF assms(2), of r]
    by (simp add: contains_rule_def one_def act_def)
qed

lemma exists_rule_text: "tag t \<Longrightarrow> exists_rule (t @ '' EXISTS'' @ r) = Some (\<lparr>cn_key = t, cn_operation = Exists\<rparr> :: 'f condition, r)"
proof -
  assume t: "tag t"
  have "ws1 ('' EXISTS'' @ r) = Some (''EXISTS'' @ r)" using ws1_one [of "''EXISTS'' @ r"] by (simp add: stops_def)
  then show ?thesis using tag_rule_text [OF t, of "''EXISTS'' @ r"] by (simp add: exists_rule_def one_def)
qed

lemma contains_rule_exists: "tag t \<Longrightarrow> contains_rule (t @ '' EXISTS'' @ r) = (None :: ('f condition \<times> string) option)"
proof -
  assume t: "tag t"
  have "ws1 ('' EXISTS'' @ r) = Some (''EXISTS'' @ r)" using ws1_one [of "''EXISTS'' @ r"] by (simp add: stops_def)
  then show ?thesis using tag_rule_text [OF t, of "''EXISTS'' @ r"] by (simp add: contains_rule_def one_def)
qed

text \<open>
  A condition whose text determines it. The text of an equation of \<open>tm.event\<close> with the name of an event
  type is read as an event type.
\<close>

definition readable_condition :: "'f query_ext \<Rightarrow> 'f condition \<Rightarrow> bool" where
  "readable_condition Q c \<longleftrightarrow> tag (cn_key c)
     \<and> (case cn_operation c of
          Eq op \<Rightarrow> readable_operand Q op
            \<and> \<not> (cn_key c = ''tm.event'' \<and> (op = Op_String ''NewBlock'' \<or> op = Op_String ''Tx''))
        | Lt op \<Rightarrow> readable_operand Q op | Lte op \<Rightarrow> readable_operand Q op
        | Gt op \<Rightarrow> readable_operand Q op | Gte op \<Rightarrow> readable_operand Q op
        | Contains v \<Rightarrow> quote \<notin> set v \<and> backslash \<notin> set v
        | Exists \<Rightarrow> True)"

lemma condition_rule_text:
  fixes c :: "'f condition"
  assumes "readable_condition Q c" "ends r"
  shows "condition_rule Q (condition_to_string Q c @ r) = Some (Term_Condition c, r)"
proof -
  obtain t oper where c: "c = \<lparr>cn_key = t, cn_operation = oper\<rparr>" by (cases c)
  have t: "tag t" using assms(1) by (simp add: readable_condition_def c)
  note other = compare_rule_other [OF t]
  show ?thesis
  proof (cases oper)
    case (Eq op)
    with compare_rule_text [OF t _ assms(2), of Q op "''=''" Eq] assms(1) c show ?thesis
      by (simp add: condition_rule_def choice_def act_def condition_to_string_def readable_condition_def stops_def)
  next
    case (Lt op)
    with compare_rule_text [OF t _ assms(2), of Q op "''<''" Lt] assms(1) c show ?thesis
      by (simp add: condition_rule_def choice_def act_def condition_to_string_def readable_condition_def stops_def other one_def)
  next
    case (Lte op)
    with compare_rule_text [OF t _ assms(2), of Q op "''<=''" Lte] assms(1) c show ?thesis
      by (simp add: condition_rule_def choice_def act_def condition_to_string_def readable_condition_def stops_def other one_def)
  next
    case (Gt op)
    with compare_rule_text [OF t _ assms(2), of Q op "''>''" Gt] assms(1) c show ?thesis
      by (simp add: condition_rule_def choice_def act_def condition_to_string_def readable_condition_def stops_def other one_def)
  next
    case (Gte op)
    with compare_rule_text [OF t _ assms(2), of Q op "''>=''" Gte] assms(1) c show ?thesis
      by (simp add: condition_rule_def choice_def act_def condition_to_string_def readable_condition_def stops_def other one_def)
  next
    case (Contains v)
    with contains_rule_text [OF t, of v r, where 'f = 'f] assms(1) c show ?thesis
      by (simp add: condition_rule_def choice_def act_def condition_to_string_def readable_condition_def other one_def escape_plain)
  next
    case Exists
    with exists_rule_text [OF t, of r, where 'f = 'f] contains_rule_exists [OF t, of r, where 'f = 'f] c show ?thesis
      by (simp add: condition_rule_def choice_def act_def condition_to_string_def other one_def)
  qed
qed

section \<open>Terms and queries\<close>

lemma lit_before:
  "d \<notin> set cs \<Longrightarrow> lit cs (k @ d # s) = Some r \<Longrightarrow> \<exists>x. k = cs @ x \<and> r = x @ d # s"
proof (induction cs arbitrary: k)
  case (Cons c cs)
  from Cons.prems obtain k' where "k = c # k'" "lit cs (k' @ d # s) = Some r"
    by (cases k) (auto simp: one_def Option.bind_eq_Some_conv split: if_splits)
  with Cons.IH [of k'] Cons.prems(1) show ?case by auto
qed simp

lemma tag_no_equals: "tag k \<Longrightarrow> CHR ''='' \<notin> set k \<and> CHR '' '' \<notin> set k"
  by (cases k) (auto simp: tag_def tag_char_def between_def list_all_iff)

lemma operand_not_quote:
  "readable_operand Q op \<Longrightarrow> \<nexists>v. op = Op_String v \<Longrightarrow> lit [quote] (operand_to_string Q op @ r) = None"
proof (cases op)
  case (Op_Float h)
  assume "readable_operand Q op"
  then obtain sign a b where "sign = [] \<or> sign = ''-''" "qx_f64_fmt Q h = sign @ a @ ''.'' @ b" "a \<noteq> []" "list_all digit a"
    using Op_Float by (rule readable_floatE)
  with Op_Float show ?thesis by (cases a) (auto simp: one_def quote_def between_def)
next
  case (Op_Signed i)
  assume "readable_operand Q op"
  with Op_Signed show ?thesis by (simp add: int_to_string_def one_def quote_def)
next
  case (Op_Unsigned u)
  obtain c cs where "nat_to_string (unat u) = c # cs" "digit c"
    using nat_to_string_not_Nil nat_to_string_all_digits [of "unat u"] by (cases "nat_to_string (unat u)") auto
  with Op_Unsigned show ?thesis by (auto simp: one_def quote_def between_def)
qed (auto simp: one_def quote_def)

lemma not_event_value:
  assumes "quote \<notin> set v" "v \<noteq> ''NewBlock''" "v \<noteq> ''Tx''"
  shows "Option.bind (choice (slice (lit ''NewBlock'')) (slice (lit ''Tx'')) (v @ quote # r))
    (\<lambda>(et, s). Option.bind (lit [quote] s) (f et)) = None"
proof -
  have no: "lit [quote] s = None" if "lit w (v @ quote # r) = Some s" "quote \<notin> set w" "v \<noteq> w" for w s
  proof -
    from lit_before [OF that(2,1)] obtain x where x: "v = w @ x" "s = x @ quote # r" by blast
    with that(3) obtain d x' where "x = d # x'" by (cases x) auto
    with x assms(1) show ?thesis by (auto simp: one_def)
  qed
  have q: "quote \<notin> set ''NewBlock''" "quote \<notin> set ''Tx''" by (simp_all add: quote_def)
  show ?thesis
  proof (cases "lit ''NewBlock'' (v @ quote # r)")
    case (Some s)
    with no [OF Some q(1) assms(2)] show ?thesis by (simp add: choice_def slice_def del: lit.simps)
  next
    case None
    note first = this
    show ?thesis
    proof (cases "lit ''Tx'' (v @ quote # r)")
      case (Some s)
      with first no [OF Some q(2) assms(3)] show ?thesis by (simp add: choice_def slice_def del: lit.simps)
    qed (use first in \<open>simp add: choice_def slice_def del: lit.simps\<close>)
  qed
qed

lemma event_type_rule_other_key:
  assumes "tag k" "k \<noteq> ''tm.event''"
  shows "event_type_rule (k @ CHR '' '' # s) = None"
proof (cases "lit ''tm.event'' (k @ CHR '' '' # s)")
  case (Some r)
  from lit_before [OF _ Some] obtain x where x: "k = ''tm.event'' @ x" "r = x @ CHR '' '' # s" by auto
  with assms(2) obtain d x' where d: "x = d # x'" by (cases x) auto
  with x tag_no_equals [OF assms(1)] have "d \<noteq> CHR '' ''" "d \<noteq> CHR ''=''" by auto
  then have "ws0 r = Some r" "lit ''='' r = None" using x(2) d by (simp_all add: ws0_def many_def one_def)
  with Some show ?thesis by (simp add: event_type_rule_def del: lit.simps)
qed (simp add: event_type_rule_def del: lit.simps)

lemma ws0_none: "c \<noteq> CHR '' '' \<Longrightarrow> ws0 (c # s) = Some (c # s)"
  by (simp add: ws0_def many_def)

lemma event_type_rule_other_sign:
  assumes "c \<noteq> CHR '' ''" "c \<noteq> CHR ''=''"
  shows "event_type_rule (''tm.event'' @ CHR '' '' # c # s) = None"
proof -
  have "ws0 (CHR '' '' # c # s) = Some (c # s)" using assms(1) by (intro ws0_one) (simp add: stops_def)
  then show ?thesis using assms(2) by (simp add: event_type_rule_def one_def)
qed

lemma event_type_rule_value:
  assumes "starts x"
  shows "event_type_rule (''tm.event = '' @ x) = Option.bind (lit [quote] x)
     (\<lambda>s. Option.bind (choice (slice (lit ''NewBlock'')) (slice (lit ''Tx'')) s)
       (\<lambda>(et, s). Option.bind (lit [quote] s)
         (\<lambda>s. map_option (\<lambda>t. (Term_EventType t, s)) (event_type_from_str et))))"
proof -
  have "ws0 ('' = '' @ x) = Some (''= '' @ x)" using ws0_one [of "''= '' @ x"] by (simp add: stops_def)
  moreover have "ws0 ('' '' @ x) = Some x" using ws0_one [OF starts_stops [OF assms]] by simp
  ultimately show ?thesis by (simp add: event_type_rule_def one_def del: event_type_from_str.simps)
qed

lemma condition_not_event:
  assumes "readable_condition Q c"
  shows "event_type_rule (condition_to_string Q c @ r) = None"
proof (cases "cn_key c = ''tm.event''")
  case False
  have "\<exists>s. condition_to_string Q c @ r = cn_key c @ CHR '' '' # s"
    by (cases "cn_operation c") (auto simp: condition_to_string_def)
  then show ?thesis using event_type_rule_other_key [OF _ False] assms by (auto simp: readable_condition_def)
next
  case True
  show ?thesis
  proof (cases "\<exists>op. cn_operation c = Eq op")
    case False
    then have "\<exists>d s. condition_to_string Q c @ r = ''tm.event'' @ CHR '' '' # d # s \<and> d \<noteq> CHR '' '' \<and> d \<noteq> CHR ''=''"
      using True by (cases "cn_operation c") (auto simp: condition_to_string_def)
    then show ?thesis using event_type_rule_other_sign by force
  next
    case eq: True
    then obtain op where op: "cn_operation c = Eq op" "readable_operand Q op" "op \<noteq> Op_String ''NewBlock''" "op \<noteq> Op_String ''Tx''"
      using assms True by (auto simp: readable_condition_def)
    note value_rule = event_type_rule_value [OF operand_starts [OF op(2), of r]]
    have c: "condition_to_string Q c @ r = ''tm.event = '' @ operand_to_string Q op @ r"
      using True op(1) by (simp add: condition_to_string_def)
    show ?thesis
    proof (cases "\<exists>v. op = Op_String v")
      case False
      show ?thesis unfolding c value_rule using operand_not_quote [OF op(2) False] by (simp del: lit.simps)
    next
      case True
      then obtain v where v: "op = Op_String v" by blast
      then have e: "operand_to_string Q op @ r = quote # v @ quote # r" "quote \<notin> set v" using op(2) by (simp_all add: escape_plain)
      have "lit [quote] (quote # v @ quote # r) = Some (v @ quote # r)" by (simp add: one_def)
      then show ?thesis unfolding c value_rule unfolding e(1) using not_event_value [OF e(2)] op(3,4) v
        by (simp del: lit.simps event_type_from_str.simps)
    qed
  qed
qed

lemma term_rule_condition:
  "readable_condition Q c \<Longrightarrow> ends r \<Longrightarrow> term_rule Q (condition_to_string Q c @ r) = Some (Term_Condition c, r)"
  by (simp add: term_rule_def choice_def condition_not_event condition_rule_text)

lemma term_rule_event:
  fixes Q :: "'f query_ext"
  shows "term_rule Q (''tm.event = '' @ quote # event_type_to_string t @ quote # r) = Some (Term_EventType t, r)"
proof -
  have "event_type_rule (''tm.event = '' @ quote # event_type_to_string t @ quote # r) = Some (Term_EventType t :: 'f query_term, r)"
    by (subst event_type_rule_value) (cases t; simp add: starts_def quote_def choice_def slice_def one_def)+
  then show ?thesis by (simp add: term_rule_def choice_def)
qed

lemma condition_starts: "readable_condition Q c \<Longrightarrow> stops (\<lambda>c. c = CHR '' '') (condition_to_string Q c @ r)"
  by (cases "cn_operation c"; cases "cn_key c")
    (auto simp: readable_condition_def tag_def condition_to_string_def stops_def between_def)

abbreviation and_texts :: "'f query_ext \<Rightarrow> 'f condition list \<Rightarrow> string" where
  "and_texts Q cs \<equiv> concat (map (\<lambda>c. '' AND '' @ condition_to_string Q c) cs)"

lemma and_texts_ends: "ends (and_texts Q cs)"
  by (cases cs) (simp_all add: ends_def)

lemma more_terms_text: "list_all (readable_condition Q) cs \<Longrightarrow> more_terms Q (and_texts Q cs) = (map Term_Condition cs, [])"
proof (induction cs)
  case Nil
  have "and_term Q [] = None" by (simp add: and_term_def ws1_def many1_def one_def)
  then show ?case by (subst more_terms.simps) simp
next
  case (Cons c cs)
  let ?r = "and_texts Q cs"
  have "ws1 ('' AND '' @ condition_to_string Q c @ ?r) = Some (''AND '' @ condition_to_string Q c @ ?r)"
    using ws1_one [of "''AND '' @ condition_to_string Q c @ ?r"] by (simp add: stops_def)
  moreover have "ws1 ('' '' @ condition_to_string Q c @ ?r) = Some (condition_to_string Q c @ ?r)"
    using ws1_one [OF condition_starts [of Q c]] Cons.prems by simp
  ultimately have "and_term Q (and_texts Q (c # cs)) = Some (Term_Condition c, ?r)"
    using term_rule_condition [OF _ and_texts_ends [of Q cs], of Q c] Cons.prems by (simp add: and_term_def one_def)
  with Cons show ?case by (subst more_terms.simps) simp
qed

lemma separate_conditions: "separate_terms (map Term_Condition cs) = ([], cs)"
  by (induction cs) simp_all

definition readable_query :: "'f query_ext \<Rightarrow> 'f query \<Rightarrow> bool" where
  "readable_query Q q \<longleftrightarrow> list_all (readable_condition Q) (qy_conditions q)"

lemma query_from_to_string:
  fixes q :: "'f query"
  assumes "readable_query Q q"
  shows "query_from_str Q (query_to_string Q q) = Ok q"
proof -
  obtain et cs where q: "q = \<lparr>qy_event_type = et, qy_conditions = cs\<rparr>" by (cases q)
  have cs: "list_all (readable_condition Q) cs" using assms by (simp add: readable_query_def q)
  show ?thesis
  proof (cases et)
    case (Some t)
    have "query_to_string Q q = ''tm.event = '' @ quote # event_type_to_string t @ quote # and_texts Q cs"
      by (cases cs) (simp_all add: query_to_string_def q Some comp_def)
    with term_rule_event [of Q t "and_texts Q cs"] more_terms_text [OF cs] show ?thesis
      by (simp add: query_from_str_def query_rule_def separate_conditions q Some)
  next
    case None
    show ?thesis
    proof (cases cs)
      case Nil
      have "term_rule Q [] = None"
        by (simp add: grammar_defs choice_def act_def slice_def one_def)
      with None Nil q show ?thesis
        by (simp add: query_from_str_def query_rule_def query_to_string_def)
    next
      case (Cons c rest)
      have "query_to_string Q q = condition_to_string Q c @ and_texts Q rest" by (simp add: query_to_string_def q None Cons comp_def)
      with term_rule_condition [OF _ and_texts_ends [of Q rest], of Q c] more_terms_text [of Q rest] cs show ?thesis
        by (simp add: query_from_str_def query_rule_def separate_conditions q None Cons)
    qed
  qed
qed

section \<open>Operands that do not survive\<close>

definition escaped :: "string \<Rightarrow> string" where
  "escaped v = concat (map (\<lambda>ch. if ch = backslash \<or> ch = quote then [backslash, ch] else [ch]) v)"

lemma length_escaped: "quote \<in> set v \<or> backslash \<in> set v \<Longrightarrow> length v < length (escaped v)"
proof -
  have "length w \<le> length (escaped w)" for w by (induction w) (auto simp: escaped_def)
  then show "quote \<in> set v \<or> backslash \<in> set v \<Longrightarrow> ?thesis"
    by (induction v) (auto simp: escaped_def less_Suc_eq_le intro: le_SucI)
qed

lemma string_rule_no_quote: "string_rule s = Some (w, r) \<Longrightarrow> quote \<notin> set w"
proof -
  assume "string_rule s = Some (w, r)"
  then obtain s1 where "slice (many (\<lambda>c. c \<noteq> quote)) s1 = Some (w, dropWhile (\<lambda>c. c \<noteq> quote) s1)"
    by (auto simp: string_rule_def slice_def many_def Option.bind_eq_Some_conv)
  then have "w @ dropWhile (\<lambda>c. c \<noteq> quote) s1 = takeWhile (\<lambda>c. c \<noteq> quote) s1 @ dropWhile (\<lambda>c. c \<noteq> quote) s1"
    by (auto simp: slice_def many_def length_dropWhile_le) (metis append_take_drop_id dropWhile_eq_drop length_takeWhile_le
        add_diff_cancel_right' length_append takeWhile_dropWhile_id append_eq_conv_conj)
  then show ?thesis using set_takeWhileD by (metis append_same_eq)
qed

lemma string_rule_escaped:
  assumes "string_rule (escape v @ r) = Some (w, s)" "quote \<in> set v \<or> backslash \<in> set v"
  shows "w \<noteq> v"
proof (cases "quote \<in> set v")
  case True
  then show ?thesis using string_rule_no_quote [OF assms(1)] by auto
next
  case False
  then have "quote \<notin> set (escaped v)" by (auto simp: escaped_def backslash_def quote_def split: if_splits)
  from string_rule_quoted [OF this, of r] assms(1) have "w = escaped v" by (simp add: escape_def escaped_def)
  then show ?thesis using length_escaped [OF assms(2)] by auto
qed

end
