(* ===== verification/Rpc_Websocket.thy ===== *)
theory Rpc_Websocket
  imports Effects "HOL-Library.List_Lexorder" "HOL-Library.Char_ord"
begin

text \<open>
  \<open>rpc/src/client/transport/router.rs\<close> and the driver of \<open>rpc/src/client/transport/websocket.rs\<close>: event
  subscriptions and requests multiplexed over one WebSocket connection. Channels are numbered; the
  world of the driver records which receivers are still held, what was sent on which channel, and what
  was written to the connection. The JSON forms of messages and the request identifiers are parameters.
\<close>

section \<open>Channels and the connection\<close>

type_synonym chan = nat

datatype rpc_error =
    RE_Response string
  | RE_WebSocket string
  | RE_WebSocketTimeout
  | RE_ChannelSend
  | RE_ClientInternal string

record 'd rpc_event =
  ev_query :: string
  ev_data :: 'd

text \<open>What is sent on the channels: events and errors to subscriptions, outcomes to waiting callers.\<close>

datatype 'd payload =
    P_Event "'d rpc_event"
  | P_EventError rpc_error
  | P_Done
  | P_Text string
  | P_Failed rpc_error

datatype ws_out =
    Out_Text string
  | Out_Subscribe string string
  | Out_Unsubscribe string string
  | Out_Ping
  | Out_Pong bytes
  | Out_Close

text \<open>Writes fail as the list says; beyond its end they succeed.\<close>

record 'd world =
  wo_open :: "chan list"
  wo_delivered :: "(chan \<times> 'd payload) list"
  wo_write_errors :: "bool list"
  wo_sent :: "ws_out list"
  wo_ids :: nat

record 'd ws_ext =
  wx_parse_event :: "string \<Rightarrow> 'd rpc_event option"
  wx_parse_wrapper :: "string \<Rightarrow> (string \<times> rpc_error option) option"
  wx_uuid :: "nat \<Rightarrow> string"

definition channel_tx_send :: "chan \<Rightarrow> 'd payload \<Rightarrow> ('d world, rpc_error, unit) call" where
  "channel_tx_send tx p w =
     (if tx \<in> set (wo_open w) then (w\<lparr>wo_delivered := wo_delivered w @ [(tx, p)]\<rparr>, Ok ())
      else (w, Err RE_ChannelSend))"

definition send_msg :: "ws_out \<Rightarrow> ('d world, rpc_error, unit) call" where
  "send_msg m w =
     (case wo_write_errors w of
        True # rest \<Rightarrow> (w\<lparr>wo_write_errors := rest\<rparr>, Err (RE_WebSocket ''failed to write to WebSocket connection''))
      | False # rest \<Rightarrow> (w\<lparr>wo_write_errors := rest, wo_sent := wo_sent w @ [m]\<rparr>, Ok ())
      | [] \<Rightarrow> (w\<lparr>wo_sent := wo_sent w @ [m]\<rparr>, Ok ()))"

section \<open>The router\<close>

type_synonym subscriptions = "(string, (string, chan) btree) btree"

datatype publish_result = PR_Success | PR_NoSubscribers | PR_AllDisconnected string

text \<open>The loop of \<open>publish\<close>: one copy to each subscription; the ones that fail are collected.\<close>

fun publish_loop :: "(string \<times> chan) list \<Rightarrow> 'd payload \<Rightarrow> 'd world \<Rightarrow> 'd world \<times> string list" where
  "publish_loop [] p w = (w, [])"
| "publish_loop ((sid, tx) # subs) p w =
     (case (channel_tx_send tx p w :: 'd world \<times> (rpc_error, unit) result) of
        (w1, Ok _) \<Rightarrow> publish_loop subs p w1
      | (w1, _) \<Rightarrow> (case publish_loop subs p w1 of (w2, disconnected) \<Rightarrow> (w2, sid # disconnected)))"

definition publish :: "string \<Rightarrow> 'd payload \<Rightarrow> subscriptions \<Rightarrow> 'd world \<Rightarrow> (subscriptions \<times> 'd world) \<times> publish_result" where
  "publish query p subscriptions w =
     (case map_of subscriptions query of
        None \<Rightarrow> ((subscriptions, w), PR_NoSubscribers)
      | Some subs_for_query \<Rightarrow>
          (case publish_loop subs_for_query p w of
             (w1, disconnected) \<Rightarrow>
               let remaining = fold bt_remove disconnected subs_for_query in
               ((bt_insert query remaining subscriptions, w1),
                if remaining = [] then PR_AllDisconnected query else PR_Success)))"

fun subscription_query :: "string \<Rightarrow> subscriptions \<Rightarrow> string option" where
  "subscription_query sid [] = None"
| "subscription_query sid ((query, subs) # rest) =
     (if map_of subs sid \<noteq> None then Some query else subscription_query sid rest)"

definition router_publish_error ::
  "string \<Rightarrow> rpc_error \<Rightarrow> subscriptions \<Rightarrow> 'd world \<Rightarrow> (subscriptions \<times> 'd world) \<times> publish_result" where
  "router_publish_error sid err subscriptions w =
     (case subscription_query sid subscriptions of
        Some query \<Rightarrow> publish query (P_EventError err) subscriptions w
      | None \<Rightarrow> ((subscriptions, w), PR_NoSubscribers))"

definition router_publish_event ::
  "'d rpc_event \<Rightarrow> subscriptions \<Rightarrow> 'd world \<Rightarrow> (subscriptions \<times> 'd world) \<times> publish_result" where
  "router_publish_event ev = publish (ev_query ev) (P_Event ev)"

definition router_add :: "string \<Rightarrow> string \<Rightarrow> chan \<Rightarrow> subscriptions \<Rightarrow> subscriptions" where
  "router_add sid query tx subscriptions =
     (let subs_for_query = (case map_of subscriptions query of Some s \<Rightarrow> s | None \<Rightarrow> [])
      in bt_insert query (bt_insert sid tx subs_for_query) subscriptions)"

definition remove_by_query :: "string \<Rightarrow> subscriptions \<Rightarrow> subscriptions \<times> nat" where
  "remove_by_query query subscriptions =
     (bt_remove query subscriptions, case map_of subscriptions query of Some s \<Rightarrow> length s | None \<Rightarrow> 0)"

definition num_subscriptions_for_query :: "string \<Rightarrow> subscriptions \<Rightarrow> nat" where
  "num_subscriptions_for_query query subscriptions =
     (case map_of subscriptions query of Some s \<Rightarrow> length s | None \<Rightarrow> 0)"

section \<open>The driver\<close>

datatype driver_command =
    Subscribe (cmd_id: string) (cmd_query: string) (subscription_tx: chan) (response_tx: chan)
  | Unsubscribe (cmd_query: string) (response_tx: chan)
  | SimpleRequest (cmd_id: string) (wrapped_request: string) (response_tx: chan)
  | Terminate

record 'd ws_driver =
  wd_world :: "'d world"
  wd_router :: subscriptions
  wd_pending :: "(string, driver_command) btree"

type_synonym ('d, 'a) ws_call = "('d ws_driver, rpc_error, 'a) call"

definition in_world :: "('d world, rpc_error, 'a) call \<Rightarrow> ('d, 'a) ws_call" where
  "in_world m d = (case m (wd_world d) of (w, r) \<Rightarrow> (d\<lparr>wd_world := w\<rparr>, r))"

definition add_pending :: "string \<Rightarrow> driver_command \<Rightarrow> ('d, unit) ws_call" where
  "add_pending sid cmd = modify (\<lambda>d. Ok (d\<lparr>wd_pending := bt_insert sid cmd (wd_pending d)\<rparr>))"

text \<open>
  A request is written; when that fails the caller is told, and the driver ends. When the caller is gone
  too, the driver ends with that error instead.
\<close>

definition write_request :: "ws_out \<Rightarrow> chan \<Rightarrow> ('d, unit) ws_call" where
  "write_request m tx d =
     (case in_world (send_msg m) d of
        (d1, Err e) \<Rightarrow> sbind (in_world (channel_tx_send tx (P_Failed e))) (\<lambda>_. lift (Err e)) d1
      | r \<Rightarrow> r)"

definition simple_request :: "string \<Rightarrow> string \<Rightarrow> chan \<Rightarrow> ('d, unit) ws_call" where
  "simple_request sid request tx =
     sbind (write_request (Out_Text request) tx) (\<lambda>_. add_pending sid (SimpleRequest sid request tx))"

definition subscribe :: "string \<Rightarrow> string \<Rightarrow> chan \<Rightarrow> chan \<Rightarrow> ('d, unit) ws_call" where
  "subscribe sid query sub_tx tx d =
     (if 0 < num_subscriptions_for_query query (wd_router d)
      then in_world (channel_tx_send tx P_Done) (d\<lparr>wd_router := router_add sid query sub_tx (wd_router d)\<rparr>)
      else sbind (write_request (Out_Subscribe sid query) tx) (\<lambda>_. add_pending sid (Subscribe sid query sub_tx tx)) d)"

text \<open>\<open>Wrapper::new\<close> draws a fresh identifier.\<close>

definition fresh_id :: "'d ws_ext \<Rightarrow> ('d, string) ws_call" where
  "fresh_id X d = (d\<lparr>wd_world := (wd_world d)\<lparr>wo_ids := Suc (wo_ids (wd_world d))\<rparr>\<rparr>, Ok (wx_uuid X (wo_ids (wd_world d))))"

definition unsubscribe :: "'d ws_ext \<Rightarrow> string \<Rightarrow> chan \<Rightarrow> ('d, unit) ws_call" where
  "unsubscribe X query tx d =
     (case remove_by_query query (wd_router d) of
        (router, n) \<Rightarrow>
          let d1 = d\<lparr>wd_router := router\<rparr> in
          if n = 0 then in_world (channel_tx_send tx P_Done) d1
          else sbind (fresh_id X) (\<lambda>req_id.
               sbind (write_request (Out_Unsubscribe req_id query) tx) (\<lambda>_.
               add_pending req_id (Unsubscribe query tx))) d1)"

text \<open>After publishing, the server is told when nobody listens to a query any more; a failure is only logged.\<close>

definition after_publish :: "'d ws_ext \<Rightarrow> (subscriptions \<times> 'd world) \<times> publish_result \<Rightarrow> ('d, unit) ws_call" where
  "after_publish X outcome d =
     (case outcome of
        ((router, w), r) \<Rightarrow>
          let d1 = d\<lparr>wd_router := router, wd_world := w\<rparr> in
          (case r of
             PR_AllDisconnected query \<Rightarrow>
               (case sbind (fresh_id X) (\<lambda>sid. in_world (send_msg (Out_Unsubscribe sid query))) d1 of (d2, _) \<Rightarrow> (d2, Ok ()))
           | _ \<Rightarrow> (d1, Ok ())))"

definition publish_error :: "'d ws_ext \<Rightarrow> string \<Rightarrow> rpc_error \<Rightarrow> ('d, unit) ws_call" where
  "publish_error X sid err d = after_publish X (router_publish_error sid err (wd_router d) (wd_world d)) d"

definition publish_event :: "'d ws_ext \<Rightarrow> 'd rpc_event \<Rightarrow> ('d, unit) ws_call" where
  "publish_event X ev d = after_publish X (router_publish_event ev (wd_router d) (wd_world d)) d"

fun respond_to_pending_command :: "driver_command \<Rightarrow> string \<Rightarrow> ('d, unit) ws_call" where
  "respond_to_pending_command (Subscribe sid query sub_tx tx) response d =
     in_world (channel_tx_send tx P_Done) (d\<lparr>wd_router := router_add sid query sub_tx (wd_router d)\<rparr>)"
| "respond_to_pending_command (Unsubscribe query tx) response d = in_world (channel_tx_send tx P_Done) d"
| "respond_to_pending_command (SimpleRequest sid request tx) response d = in_world (channel_tx_send tx (P_Text response)) d"
| "respond_to_pending_command Terminate response d = (d, Ok ())"

definition handle_text_msg :: "'d ws_ext \<Rightarrow> string \<Rightarrow> ('d, unit) ws_call" where
  "handle_text_msg X msg =
     (case wx_parse_event X msg of
        Some ev \<Rightarrow> publish_event X ev
      | None \<Rightarrow>
          (case wx_parse_wrapper X msg of
             None \<Rightarrow> lift (Ok ())
           | Some (sid, error) \<Rightarrow>
               sbind (case error of Some e \<Rightarrow> publish_error X sid e | None \<Rightarrow> lift (Ok ())) (\<lambda>_ d.
                 case map_of (wd_pending d) sid of
                   Some pending_cmd \<Rightarrow>
                     respond_to_pending_command pending_cmd msg (d\<lparr>wd_pending := bt_remove sid (wd_pending d)\<rparr>)
                 | None \<Rightarrow> (d, Ok ()))))"

datatype ws_in = In_Text string | In_Ping bytes | In_Other

definition handle_incoming_msg :: "'d ws_ext \<Rightarrow> ws_in \<Rightarrow> ('d, unit) ws_call" where
  "handle_incoming_msg X m =
     (case m of In_Text s \<Rightarrow> handle_text_msg X s | In_Ping v \<Rightarrow> in_world (send_msg (Out_Pong v)) | In_Other \<Rightarrow> lift (Ok ()))"

section \<open>The loop\<close>

text \<open>What the branches of \<open>select!\<close> bring, in the order they become ready.\<close>

datatype ws_event =
    Received ws_in
  | Read_Failed string
  | Commanded driver_command
  | Ping_Tick
  | Recv_Timeout

text \<open>
  One turn of the loop, and whether it goes on. After the close frame the source discards what the stream still
  brings and returns well, whether the stream ends or fails; nothing of the state depends on it.
\<close>

definition driver_step :: "'d ws_ext \<Rightarrow> ws_event \<Rightarrow> 'd ws_driver \<Rightarrow> 'd ws_driver \<times> (rpc_error, bool) result" where
  "driver_step X e d =
     (let go_on = (\<lambda>m. sbind m (\<lambda>_. lift (Ok True))); stop = (\<lambda>m. sbind m (\<lambda>_. lift (Ok False))) in
      case e of
        Received m \<Rightarrow> go_on (handle_incoming_msg X m) d
      | Read_Failed s \<Rightarrow> (d, Err (RE_WebSocket s))
      | Commanded (Subscribe sid query sub_tx tx) \<Rightarrow> go_on (subscribe sid query sub_tx tx) d
      | Commanded (Unsubscribe query tx) \<Rightarrow> go_on (unsubscribe X query tx) d
      | Commanded (SimpleRequest sid request tx) \<Rightarrow> go_on (simple_request sid request tx) d
      | Commanded Terminate \<Rightarrow> stop (in_world (send_msg Out_Close)) d
      | Ping_Tick \<Rightarrow> go_on (in_world (send_msg Out_Ping)) d
      | Recv_Timeout \<Rightarrow> (d, Err RE_WebSocketTimeout))"

text \<open>The driver over a sequence of events: its outcome, or \<open>None\<close> while it is still running.\<close>

fun driver_events :: "'d ws_ext \<Rightarrow> ws_event list \<Rightarrow> 'd ws_driver \<Rightarrow> 'd ws_driver \<times> (rpc_error, unit) result option" where
  "driver_events X [] d = (d, None)"
| "driver_events X (e # es) d =
     (case driver_step X e d of
        (d1, Ok True) \<Rightarrow> driver_events X es d1
      | (d1, Ok False) \<Rightarrow> (d1, Some (Ok ()))
      | (d1, Err er) \<Rightarrow> (d1, Some (Err er))
      | (d1, Panic) \<Rightarrow> (d1, Some Panic))"

definition ws_driver_new :: "'d world \<Rightarrow> 'd ws_driver" where
  "ws_driver_new w = \<lparr>wd_world = w, wd_router = [], wd_pending = []\<rparr>"

end
