(* ===== verification/Rpc_Websocket_Lemmas.thy ===== *)
theory Rpc_Websocket_Lemmas
  imports Rpc_Websocket
begin

text \<open>
  Routing delivers to the subscriptions of a query and to no other; a response goes to the caller whose
  request it answers, once.
\<close>

section \<open>Publishing\<close>

lemma channel_tx_send_cases:
  "channel_tx_send tx p w = (w', r) \<Longrightarrow>
     (tx \<in> set (wo_open w) \<and> r = Ok () \<and> w' = w\<lparr>wo_delivered := wo_delivered w @ [(tx, p)]\<rparr>)
     \<or> (tx \<notin> set (wo_open w) \<and> r = Err RE_ChannelSend \<and> w' = w)"
  by (auto simp: channel_tx_send_def split: if_splits)

definition listening :: "'d world \<Rightarrow> (string \<times> chan) list \<Rightarrow> (string \<times> chan) list" where
  "listening w subs = filter (\<lambda>(_, tx). tx \<in> set (wo_open w)) subs"

lemma publish_loop_eq:
  "publish_loop subs p w =
     (w\<lparr>wo_delivered := wo_delivered w @ map (\<lambda>(_, tx). (tx, p)) (listening w subs)\<rparr>,
      map fst (filter (\<lambda>(_, tx). tx \<notin> set (wo_open w)) subs))"
  by (induction subs p w rule: publish_loop.induct) (auto simp: channel_tx_send_def listening_def)

lemma fold_bt_remove: "fold bt_remove ids m = filter (\<lambda>(k, _). k \<notin> set ids) m"
proof (induction ids arbitrary: m)
  case (Cons i ids)
  then show ?case by (auto simp: bt_remove_def intro!: filter_cong)
qed simp

lemma remaining_eq:
  assumes "bt_inv subs"
  shows "fold bt_remove (map fst (filter (\<lambda>(_, tx). tx \<notin> set (wo_open w)) subs)) subs = listening w subs"
  unfolding fold_bt_remove listening_def
proof (rule filter_cong [OF refl])
  fix e assume e: "e \<in> set subs"
  obtain k tx where [simp]: "e = (k, tx)" by force
  have same: "tx' = tx" if "(k, tx') \<in> set subs" for tx'
    by (rule eq_key_imp_eq_value [OF bt_inv_distinct [OF assms] that]) (use e in simp)
  have "k \<in> fst ` {e \<in> set subs. snd e \<notin> set (wo_open w)} \<longleftrightarrow> tx \<notin> set (wo_open w)"
  proof
    assume "k \<in> fst ` {e \<in> set subs. snd e \<notin> set (wo_open w)}"
    then obtain tx' where "(k, tx') \<in> set subs" "tx' \<notin> set (wo_open w)" by auto
    with same [of tx'] show "tx \<notin> set (wo_open w)" by blast
  qed (use e in force)
  then show "(case e of (k, _) \<Rightarrow> k \<notin> set (map fst (filter (\<lambda>(_, tx). tx \<notin> set (wo_open w)) subs)))
      = (case e of (_, tx) \<Rightarrow> tx \<in> set (wo_open w))" by (simp add: case_prod_beta)
qed

definition wf_router :: "subscriptions \<Rightarrow> bool" where
  "wf_router subs \<longleftrightarrow> bt_inv subs \<and> (\<forall>q s. map_of subs q = Some s \<longrightarrow> bt_inv s)"

lemma publish_eq:
  assumes "wf_router subs" "map_of subs query = Some s"
  shows "publish query p subs w =
    ((bt_insert query (listening w s) subs, w\<lparr>wo_delivered := wo_delivered w @ map (\<lambda>(_, tx). (tx, p)) (listening w s)\<rparr>),
     if listening w s = [] then PR_AllDisconnected query else PR_Success)"
  using assms by (simp add: publish_def publish_loop_eq remaining_eq wf_router_def Let_def)

lemma bt_inv_filter: "bt_inv m \<Longrightarrow> bt_inv (filter P m)"
  by (induction m) (auto simp: bt_inv_def)

lemma wf_router_publish: "wf_router subs \<Longrightarrow> publish query p subs w = ((subs', w'), r) \<Longrightarrow> wf_router subs'"
proof (cases "map_of subs query")
  case (Some s)
  assume a: "wf_router subs" "publish query p subs w = ((subs', w'), r)"
  then have "subs' = bt_insert query (listening w s) subs" using publish_eq [OF a(1) Some, of p w] by simp
  with a(1) Some show ?thesis by (auto simp: wf_router_def listening_def bt_inv_filter split: if_splits)
qed (auto simp: publish_def)

lemma bt_inv_single [simp]: "bt_inv [e]"
  by (simp add: bt_inv_def)

lemma wf_router_add: "wf_router subs \<Longrightarrow> wf_router (router_add i q tx subs)"
  by (auto simp: router_add_def wf_router_def Let_def split: option.splits if_splits)

lemma wf_router_remove: "wf_router subs \<Longrightarrow> wf_router (fst (remove_by_query q subs))"
  by (auto simp: remove_by_query_def wf_router_def split: if_splits)

section \<open>Invariants of the driver\<close>

text \<open>
  A property of the driver that every allowed event keeps, up to a cost it adds, is kept by a run of the
  driver over such events, wherever the driver stops.
\<close>

locale driver_invariant =
  fixes X :: "'d ws_ext"
    and allowed :: "ws_event \<Rightarrow> bool"
    and cost :: "ws_event \<Rightarrow> nat"
    and inv :: "nat \<Rightarrow> 'd ws_driver \<Rightarrow> bool"
  assumes step: "inv n d \<Longrightarrow> allowed e \<Longrightarrow> inv (n + cost e) (fst (driver_step X e d))"
    and relax: "inv n d \<Longrightarrow> n \<le> m \<Longrightarrow> inv m d"
begin

lemma events: "inv n d \<Longrightarrow> list_all allowed es \<Longrightarrow> inv (n + sum_list (map cost es)) (fst (driver_events X es d))"
proof (induction es arbitrary: d n)
  case (Cons e es)
  obtain d1 r where s: "driver_step X e d = (d1, r)" by force
  have l: "inv (n + cost e) d1" using step [OF Cons.prems(1), of e] Cons.prems(2) s by simp
  moreover from l have "inv (n + sum_list (map cost (e # es))) d1" by (rule relax) simp
  moreover from Cons.IH [OF l] Cons.prems(2)
  have "inv (n + sum_list (map cost (e # es))) (fst (driver_events X es d1))" by (simp add: add.assoc)
  ultimately show ?case by (auto simp: s split: result.splits bool.splits)
qed simp

end

section \<open>Channels of waiting callers\<close>

fun replies_to :: "chan \<Rightarrow> driver_command \<Rightarrow> bool" where
  "replies_to tx (Subscribe _ _ _ t) = (t = tx)"
| "replies_to tx (Unsubscribe _ t) = (t = tx)"
| "replies_to tx (SimpleRequest _ _ t) = (t = tx)"
| "replies_to tx Terminate = False"

fun subscribes_on :: "chan \<Rightarrow> driver_command \<Rightarrow> bool" where
  "subscribes_on tx (Subscribe _ _ t _) = (t = tx)"
| "subscribes_on tx _ = False"

definition sent_to :: "chan \<Rightarrow> 'd ws_driver \<Rightarrow> nat" where
  "sent_to tx d = length (filter (\<lambda>(c, _). c = tx) (wo_delivered (wd_world d)))"

definition awaiting :: "chan \<Rightarrow> (string, driver_command) btree \<Rightarrow> nat" where
  "awaiting tx pending = length (filter (\<lambda>(_, c). replies_to tx c) pending)"

text \<open>The channel carries no subscription.\<close>

definition unsubscribed :: "chan \<Rightarrow> 'd ws_driver \<Rightarrow> bool" where
  "unsubscribed tx d \<longleftrightarrow> (\<forall>q s i. map_of (wd_router d) q = Some s \<longrightarrow> (i, tx) \<notin> set s)
     \<and> (\<forall>k c. (k, c) \<in> set (wd_pending d) \<longrightarrow> \<not> subscribes_on tx c)"

text \<open>At most \<open>n\<close> responses have gone or can still go to the channel.\<close>

definition load :: "chan \<Rightarrow> nat \<Rightarrow> 'd ws_driver \<Rightarrow> bool" where
  "load tx n d \<longleftrightarrow> wf_router (wd_router d) \<and> unsubscribed tx d \<and> sent_to tx d + awaiting tx (wd_pending d) \<le> n"

lemma awaiting_insert: "awaiting tx (bt_insert k c m) \<le> awaiting tx m + (if replies_to tx c then 1 else 0)"
  by (induction k c m rule: bt_insert.induct) (auto simp: awaiting_def)

lemma awaiting_remove_le: "awaiting tx (bt_remove k m) \<le> awaiting tx m"
  by (induction m) (auto simp: awaiting_def bt_remove_def)

lemma awaiting_remove:
  "map_of m k = Some c \<Longrightarrow> awaiting tx (bt_remove k m) + (if replies_to tx c then 1 else 0) \<le> awaiting tx m"
proof (induction m)
  case (Cons e m)
  then show ?case
    using awaiting_remove_le [of tx k m] by (cases "fst e = k") (auto simp: awaiting_def bt_remove_def split: if_splits)
qed simp

lemma set_bt_insert_le: "set (bt_insert k v m) \<subseteq> insert (k, v) (set m)"
  by (induction k v m rule: bt_insert.induct) auto

lemma set_bt_remove_le: "set (bt_remove k m) \<subseteq> set m"
  by (auto simp: bt_remove_def)

text \<open>The calls that leave the load of a channel alone.\<close>

lemma load_world:
  "wo_delivered w = wo_delivered (wd_world d) \<Longrightarrow> load tx n (d\<lparr>wd_world := w\<rparr>) = load tx n d"
  by (simp add: load_def unsubscribed_def sent_to_def)

lemma send_msg_delivered: "wo_delivered (fst (send_msg m w)) = wo_delivered w"
  by (simp add: send_msg_def split: list.splits bool.splits)

lemma load_send_msg: "preserves (load tx n) (in_world (send_msg m))"
  by (simp add: preserves_def in_world_def case_prod_beta load_world send_msg_delivered)

lemma load_fresh_id: "preserves (load tx n) (fresh_id X)"
  by (simp add: preserves_def fresh_id_def load_def unsubscribed_def sent_to_def)

lemma load_channel_other: "t \<noteq> tx \<Longrightarrow> preserves (load tx n) (in_world (channel_tx_send t p))"
  by (simp add: preserves_def in_world_def channel_tx_send_def load_def unsubscribed_def sent_to_def)

lemma load_channel: "load tx n d \<Longrightarrow> load tx (Suc n) (fst (in_world (channel_tx_send t p) d))"
  by (auto simp: in_world_def channel_tx_send_def load_def unsubscribed_def sent_to_def)

lemma load_Suc: "load tx n d \<Longrightarrow> load tx (Suc n) d"
  by (simp add: load_def)

lemma load_add_pending:
  assumes "load tx n d" "\<not> subscribes_on tx c"
  shows "load tx (if replies_to tx c then Suc n else n) (fst (add_pending k c d))"
proof -
  have "\<not> subscribes_on tx c'" if "(k', c') \<in> set (bt_insert k c (wd_pending d))" for k' c'
    using subsetD [OF set_bt_insert_le that] assms by (auto simp: load_def unsubscribed_def)
  then show ?thesis
    using assms(1) awaiting_insert [of tx k c "wd_pending d"]
    by (cases "replies_to tx c") (simp_all add: add_pending_def modify_def load_def unsubscribed_def sent_to_def)
qed

lemma load_publish:
  assumes "load tx n d" "publish q p (wd_router d) (wd_world d) = ((router, w), r)"
  shows "load tx n (d\<lparr>wd_router := router, wd_world := w\<rparr>)"
proof (cases "map_of (wd_router d) q")
  case (Some s)
  have wf: "wf_router (wd_router d)" using assms(1) by (simp add: load_def)
  from publish_eq [OF wf Some, of p "wd_world d"] assms(2)
  have e: "router = bt_insert q (listening (wd_world d) s) (wd_router d)"
    "w = (wd_world d)\<lparr>wo_delivered := wo_delivered (wd_world d) @ map (\<lambda>(_, tx). (tx, p)) (listening (wd_world d) s)\<rparr>"
    by simp_all
  have none: "(i, tx) \<notin> set s" for i using assms(1) Some by (auto simp: load_def unsubscribed_def)
  then have "filter (\<lambda>(c, _). c = tx) (map (\<lambda>(_, tx). (tx, p)) (listening (wd_world d) s)) = []"
    by (auto simp: filter_empty_conv listening_def)
  moreover have "wf_router router" by (rule wf_router_publish [OF wf assms(2)])
  moreover have "(i, tx) \<notin> set s'" if "map_of router q' = Some s'" for i q' s'
    using that assms(1) none by (cases "q' = q") (auto simp: e(1) listening_def load_def unsubscribed_def)
  ultimately show ?thesis
    using assms(1) by (simp add: load_def unsubscribed_def sent_to_def e(2))
qed (use assms in \<open>auto simp: publish_def\<close>)

lemma load_after_publish:
  assumes "load tx n (d\<lparr>wd_router := router, wd_world := w\<rparr>)"
  shows "load tx n (fst (after_publish X ((router, w), r) d))"
proof -
  have p: "preserves (load tx n) (sbind (fresh_id X) (\<lambda>i. in_world (send_msg (Out_Unsubscribe i q))))" for q
    by (intro preserves_sbind load_fresh_id load_send_msg)
  show ?thesis
  proof (cases r)
    case (PR_AllDisconnected q)
    with preservesD [OF p _ assms, of q] show ?thesis by (auto simp: after_publish_def Let_def split: prod.splits)
  qed (use assms in \<open>simp_all add: after_publish_def\<close>)
qed

lemma load_published:
  "load tx n d \<Longrightarrow> load tx n (fst (after_publish X (publish q p (wd_router d) (wd_world d)) d))"
proof -
  assume l: "load tx n d"
  obtain router w r where e: "publish q p (wd_router d) (wd_world d) = ((router, w), r)" by (metis surj_pair)
  show ?thesis unfolding e by (rule load_after_publish [OF load_publish [OF l e]])
qed

lemma load_publish_event: "preserves (load tx n) (publish_event X ev)"
  by (simp add: preserves_def publish_event_def router_publish_event_def load_published)

lemma load_publish_error: "preserves (load tx n) (publish_error X i e)"
proof -
  have "load tx n d \<Longrightarrow> load tx n (fst (publish_error X i e d))" for d
  proof (cases "subscription_query i (wd_router d)")
    case None
    assume "load tx n d"
    then have "load tx n (d\<lparr>wd_router := wd_router d, wd_world := wd_world d\<rparr>)" by simp
    from load_after_publish [OF this] None show ?thesis by (simp add: publish_error_def router_publish_error_def)
  qed (simp add: publish_error_def router_publish_error_def load_published)
  then show ?thesis by (simp add: preserves_def)
qed

lemma load_router_add:
  assumes "load tx n d" "sub \<noteq> tx"
  shows "load tx n (d\<lparr>wd_router := router_add i q sub (wd_router d)\<rparr>)"
proof -
  have "(j, tx) \<notin> set s" if "map_of (router_add i q sub (wd_router d)) q' = Some s" for j q' s
  proof (cases "q' = q")
    case True
    then have "s = bt_insert i sub (case map_of (wd_router d) q of Some s \<Rightarrow> s | None \<Rightarrow> [])"
      using that by (simp add: router_add_def Let_def)
    then have "set s \<subseteq> insert (i, sub) (set (case map_of (wd_router d) q of Some s \<Rightarrow> s | None \<Rightarrow> []))"
      using set_bt_insert_le by metis
    with assms show ?thesis by (auto simp: load_def unsubscribed_def split: option.splits)
  next
    case False
    then have "map_of (wd_router d) q' = Some s" using that by (simp add: router_add_def Let_def)
    with assms(1) show ?thesis by (auto simp: load_def unsubscribed_def)
  qed
  then show ?thesis using assms(1) wf_router_add by (simp add: load_def unsubscribed_def sent_to_def)
qed

lemma load_router_remove: "load tx n d \<Longrightarrow> load tx n (d\<lparr>wd_router := fst (remove_by_query q (wd_router d))\<rparr>)"
  using wf_router_remove [of "wd_router d" q]
  by (auto simp: load_def unsubscribed_def sent_to_def remove_by_query_def split: if_splits)

lemma load_remove_pending:
  assumes "load tx n d" "map_of (wd_pending d) i = Some c"
  shows "load tx (if replies_to tx c then n - 1 else n) (d\<lparr>wd_pending := bt_remove i (wd_pending d)\<rparr>)"
    "replies_to tx c \<Longrightarrow> 0 < n"
proof -
  note a = awaiting_remove [OF assms(2), of tx]
  have "\<not> subscribes_on tx c'" if "(k, c') \<in> set (bt_remove i (wd_pending d))" for k c'
    using subsetD [OF set_bt_remove_le that] assms(1) by (auto simp: load_def unsubscribed_def)
  then show "load tx (if replies_to tx c then n - 1 else n) (d\<lparr>wd_pending := bt_remove i (wd_pending d)\<rparr>)"
    using assms(1) a by (cases "replies_to tx c"; cases n) (simp_all add: load_def unsubscribed_def sent_to_def)
  show "0 < n" if "replies_to tx c" using that assms(1) a by (simp add: load_def)
qed

lemma load_respond:
  assumes "load tx n d" "map_of (wd_pending d) i = Some c"
  shows "load tx n (fst (respond_to_pending_command c msg (d\<lparr>wd_pending := bt_remove i (wd_pending d)\<rparr>)))"
proof -
  let ?d = "d\<lparr>wd_pending := bt_remove i (wd_pending d)\<rparr>"
  note r = load_remove_pending [OF assms]
  have send: "load tx n (fst (in_world (channel_tx_send t p) e))"
    if "load tx (if replies_to tx c then n - 1 else n) e" "replies_to tx c \<longleftrightarrow> t = tx" for e :: "'a ws_driver" and t p
  proof (cases "replies_to tx c")
    case True
    then have "Suc (n - 1) = n" using r(2) by simp
    with load_channel [of tx "n - 1" e t p] that(1) True show ?thesis by simp
  next
    case False
    with that load_channel_other [of t tx n p] show ?thesis by (simp add: preserves_def)
  qed
  have "(i, c) \<in> set (wd_pending d)" using map_of_SomeD [OF assms(2)] .
  then have s: "\<not> subscribes_on tx c" using assms(1) by (auto simp: load_def unsubscribed_def)
  show ?thesis
  proof (cases c)
    case (Subscribe i' q sub t)
    with s have "load tx (if replies_to tx c then n - 1 else n) (?d\<lparr>wd_router := router_add i' q sub (wd_router ?d)\<rparr>)"
      by (intro load_router_add r(1)) simp
    from send [OF this] Subscribe show ?thesis by simp
  qed (use send r(1) in simp_all)
qed

lemma load_handle_text_msg: "preserves (load tx n) (handle_text_msg X msg)"
proof -
  have "preserves (load tx n) (\<lambda>d. case map_of (wd_pending d) i of
       Some c \<Rightarrow> respond_to_pending_command c msg (d\<lparr>wd_pending := bt_remove i (wd_pending d)\<rparr>)
     | None \<Rightarrow> (d, Ok ()))" for i
    by (auto simp: preserves_def load_respond split: option.splits)
  then show ?thesis
    unfolding handle_text_msg_def
    by (auto split: option.splits prod.splits intro!: preserves_sbind load_publish_event load_publish_error)
qed

lemma load_write_request:
  assumes "load tx n d" "write_request m t d = (d', r)"
  shows "(r = Ok () \<and> load tx n d') \<or> (\<not> is_ok r \<and> load tx (if t = tx then Suc n else n) d')"
proof -
  obtain d1 r1 where s: "in_world (send_msg m) d = (d1, r1)" by force
  have l: "load tx n d1" using preservesD [OF load_send_msg s assms(1)] .
  show ?thesis
  proof (cases r1)
    case (Err e)
    obtain d2 r2 where c: "in_world (channel_tx_send t (P_Failed e)) d1 = (d2, r2)" by force
    have "load tx (if t = tx then Suc n else n) d2"
      using load_channel [OF l, of t "P_Failed e"] preservesD [OF load_channel_other c l] c by auto
    moreover have "write_request m t d = (d2, case r2 of Ok _ \<Rightarrow> Err e | Err e' \<Rightarrow> Err e' | Panic \<Rightarrow> Panic)"
      using s c Err by (simp add: write_request_def sbind_def split: result.splits)
    ultimately show ?thesis using assms(2) by (auto split: result.splits)
  qed (use s l assms(2) load_Suc in \<open>auto simp: write_request_def\<close>)
qed

lemma load_request:
  assumes "load tx n d" "\<not> subscribes_on tx c" "replies_to tx c \<longleftrightarrow> t = tx"
  shows "load tx (if replies_to tx c then Suc n else n) (fst (sbind (write_request m t) (\<lambda>_. add_pending k c) d))"
proof -
  obtain d1 r where w: "write_request m t d = (d1, r)" by force
  from load_write_request [OF assms(1) w] show ?thesis
  proof
    assume "r = Ok () \<and> load tx n d1"
    with w load_add_pending [OF _ assms(2), of n d1 k] show ?thesis by (auto simp: sbind_def)
  next
    assume r: "\<not> is_ok r \<and> load tx (if t = tx then Suc n else n) d1"
    then have "fst (sbind (write_request m t) (\<lambda>_. add_pending k c) d) = d1" using w by (cases r) (auto simp: sbind_def)
    with r assms(3) show ?thesis by simp
  qed
qed

definition added_load :: "chan \<Rightarrow> ws_event \<Rightarrow> nat" where
  "added_load tx e = (case e of Commanded c \<Rightarrow> if replies_to tx c then 1 else 0 | _ \<Rightarrow> 0)"

definition no_subscription_on :: "chan \<Rightarrow> ws_event \<Rightarrow> bool" where
  "no_subscription_on tx e \<longleftrightarrow> (case e of Commanded c \<Rightarrow> \<not> subscribes_on tx c | _ \<Rightarrow> True)"

lemma fst_go_on: "fst (sbind m (\<lambda>_. lift (Ok b)) d) = fst (m d)"
  by (simp add: sbind_def split: prod.splits result.splits)

lemma load_channel_command:
  "load tx n d \<Longrightarrow> load tx (if t = tx then Suc n else n) (fst (in_world (channel_tx_send t p) d))"
  using load_channel [of tx n d t p] load_channel_other [of t tx n p] by (auto simp: preserves_def)

lemma preserves_fst: "preserves I m \<Longrightarrow> I d \<Longrightarrow> I (fst (m d))"
  by (simp add: preserves_def)

lemma load_subscribe:
  assumes "load tx n d" "sub \<noteq> tx"
  shows "load tx (if t = tx then Suc n else n) (fst (subscribe i q sub t d))"
  using load_channel_command [OF load_router_add [OF assms, of i q], of t P_Done]
    load_request [OF assms(1), of "Subscribe i q sub t" t "Out_Subscribe i q" i] assms(2)
  by (simp add: subscribe_def split del: if_split) (simp split: if_splits)

lemma load_unsubscribe:
  assumes "load tx n d"
  shows "load tx (if t = tx then Suc n else n) (fst (unsubscribe X q t d))"
proof -
  let ?d = "d\<lparr>wd_router := fst (remove_by_query q (wd_router d))\<rparr>"
  have l: "load tx n ?d" by (rule load_router_remove [OF assms])
  show ?thesis
  proof (cases "snd (remove_by_query q (wd_router d)) = 0")
    case True
    then show ?thesis
      using load_channel_command [OF l, of t P_Done] by (simp add: unsubscribe_def case_prod_beta Let_def)
  next
    case False
    obtain d1 where f: "fresh_id X ?d = (d1, Ok (wx_uuid X (wo_ids (wd_world ?d))))" by (simp add: fresh_id_def)
    have "load tx n d1" using preservesD [OF load_fresh_id f l] .
    from load_request [OF this, of "Unsubscribe q t" t] False f show ?thesis
      by (simp add: unsubscribe_def case_prod_beta Let_def sbind_run)
  qed
qed

lemma load_driver_step:
  assumes "load tx n d" "no_subscription_on tx e"
  shows "load tx (n + added_load tx e) (fst (driver_step X e d))"
proof (cases e)
  case (Received m)
  then show ?thesis
    using assms(1)
    by (cases m) (auto simp: driver_step_def fst_go_on handle_incoming_msg_def added_load_def
        intro!: preserves_fst [OF load_handle_text_msg] preserves_fst [OF load_send_msg])
next
  case (Commanded c)
  show ?thesis
  proof (cases c)
    case (Subscribe i q sub t)
    with Commanded assms load_subscribe [OF assms(1), of sub t i q] show ?thesis
      by (auto simp: driver_step_def fst_go_on added_load_def no_subscription_on_def split: if_splits)
  next
    case (Unsubscribe q t)
    with Commanded load_unsubscribe [OF assms(1), of t X q] show ?thesis
      by (auto simp: driver_step_def fst_go_on added_load_def split: if_splits)
  next
    case (SimpleRequest i req t)
    with Commanded load_request [OF assms(1), of "SimpleRequest i req t" t "Out_Text req" i] show ?thesis
      by (auto simp: driver_step_def fst_go_on added_load_def simple_request_def split: if_splits)
  next
    case Terminate
    with Commanded assms(1) show ?thesis
      by (simp add: driver_step_def fst_go_on added_load_def preserves_fst [OF load_send_msg])
  qed
qed (use assms(1) in \<open>simp_all add: driver_step_def fst_go_on added_load_def preserves_fst [OF load_send_msg]\<close>)

interpretation loads: driver_invariant X "no_subscription_on tx" "added_load tx" "load tx" for X tx
  by unfold_locales (rule load_driver_step, assumption+, simp add: load_def)

section \<open>Responses and their requests\<close>

text \<open>
  Every text that went to a caller has the identifier of a request that caller made, and the requests
  still waiting are filed under their identifiers.
\<close>

definition honest :: "'d ws_ext \<Rightarrow> driver_command set \<Rightarrow> 'd ws_driver \<Rightarrow> bool" where
  "honest X cs d \<longleftrightarrow>
     (\<forall>c m. (c, P_Text m) \<in> set (wo_delivered (wd_world d)) \<longrightarrow>
        (\<exists>i req e. SimpleRequest i req c \<in> cs \<and> wx_parse_wrapper X m = Some (i, e)))
     \<and> (\<forall>k i req c. (k, SimpleRequest i req c) \<in> set (wd_pending d) \<longrightarrow> k = i \<and> SimpleRequest i req c \<in> cs)"

lemma honest_world:
  assumes "honest X cs d" "\<And>c m. (c, P_Text m) \<in> set (wo_delivered w) \<Longrightarrow> (c, P_Text m) \<in> set (wo_delivered (wd_world d))"
  shows "honest X cs (d\<lparr>wd_world := w\<rparr>)"
  using assms unfolding honest_def by simp

lemma honest_router: "honest X cs (d\<lparr>wd_router := r\<rparr>) = honest X cs d"
  by (simp add: honest_def)

lemma honest_send_msg: "preserves (honest X cs) (in_world (send_msg m))"
  by (auto simp: preserves_def in_world_def case_prod_beta send_msg_delivered intro!: honest_world)

lemma honest_fresh_id: "preserves (honest X cs) (fresh_id Y)"
  by (simp add: preserves_def fresh_id_def honest_def)

lemma honest_channel: "\<nexists>m. p = P_Text m \<Longrightarrow> preserves (honest X cs) (in_world (channel_tx_send t p))"
  by (auto simp: preserves_def in_world_def channel_tx_send_def intro!: honest_world)

lemma honest_add_pending:
  "\<nexists>i req c'. c = SimpleRequest i req c' \<and> (k \<noteq> i \<or> c \<notin> cs) \<Longrightarrow> preserves (honest X cs) (add_pending k c)"
proof -
  assume a: "\<nexists>i req c'. c = SimpleRequest i req c' \<and> (k \<noteq> i \<or> c \<notin> cs)"
  have "honest X cs (d\<lparr>wd_pending := bt_insert k c (wd_pending d)\<rparr>)" if "honest X cs d" for d :: "'a ws_driver"
  proof -
    have "k' = i \<and> SimpleRequest i req c' \<in> cs"
      if "(k', SimpleRequest i req c') \<in> set (bt_insert k c (wd_pending d))" for k' i req c'
      using subsetD [OF set_bt_insert_le that] a \<open>honest X cs d\<close> by (auto simp: honest_def)
    with that show ?thesis by (simp add: honest_def)
  qed
  then show ?thesis by (simp add: preserves_def add_pending_def modify_def)
qed

lemma honest_write_request: "preserves (honest X cs) (write_request m t)"
  unfolding preserves_def write_request_def
proof (intro allI impI)
  fix d :: "'a ws_driver" assume h: "honest X cs d"
  obtain d1 r where s: "in_world (send_msg m) d = (d1, r)" by force
  have d1: "honest X cs d1" using preservesD [OF honest_send_msg s h] .
  have "preserves (honest X cs) (sbind (in_world (channel_tx_send t (P_Failed e))) (\<lambda>_. lift (Err e)))" for e
    by (intro preserves_sbind honest_channel) auto
  then show "honest X cs (fst (case in_world (send_msg m) d of
      (d1, Err e) \<Rightarrow> sbind (in_world (channel_tx_send t (P_Failed e))) (\<lambda>_. lift (Err e)) d1 | r \<Rightarrow> r))"
    using d1 by (cases r) (auto simp: s intro: preserves_fst)
qed

lemma publish_delivered:
  assumes "publish q p subs w = ((subs', w'), r)"
  shows "\<exists>txs. wo_delivered w' = wo_delivered w @ map (\<lambda>tx. (tx, p)) txs"
proof (cases "map_of subs q")
  case None
  with assms show ?thesis by (auto simp: publish_def)
next
  case (Some s)
  with assms have "w' = fst (publish_loop s p w)" by (auto simp: publish_def case_prod_beta Let_def)
  then have "wo_delivered w' = wo_delivered w @ map (\<lambda>tx. (tx, p)) (map snd (listening w s))"
    by (simp add: publish_loop_eq comp_def case_prod_beta)
  then show ?thesis by blast
qed

lemma honest_after_publish:
  assumes "honest X cs d" "\<nexists>m. p = P_Text m"
  shows "honest X cs (fst (after_publish Y (publish q p (wd_router d) (wd_world d)) d))"
proof -
  obtain router w r where e: "publish q p (wd_router d) (wd_world d) = ((router, w), r)" by (metis surj_pair)
  have "honest X cs ((d\<lparr>wd_world := w\<rparr>)\<lparr>wd_router := router\<rparr>)"
    unfolding honest_router by (rule honest_world [OF assms(1)]) (use publish_delivered [OF e] assms(2) in auto)
  then have h: "honest X cs (d\<lparr>wd_router := router, wd_world := w\<rparr>)" by (simp add: honest_def)
  have p: "preserves (honest X cs) (sbind (fresh_id Y) (\<lambda>i. in_world (send_msg (Out_Unsubscribe i q'))))" for q'
    by (intro preserves_sbind honest_fresh_id honest_send_msg)
  show ?thesis
    unfolding e using h preserves_fst [OF p h] by (cases r) (simp_all add: after_publish_def Let_def case_prod_beta)
qed

lemma honest_publish_event: "preserves (honest X cs) (publish_event Y ev)"
  by (simp add: preserves_def publish_event_def router_publish_event_def honest_after_publish)

lemma honest_publish_error: "preserves (honest X cs) (publish_error Y i e)"
proof -
  have "honest X cs (fst (publish_error Y i e d))" if "honest X cs d" for d :: "'a ws_driver"
  proof (cases "subscription_query i (wd_router d)")
    case None
    with that show ?thesis by (simp add: publish_error_def router_publish_error_def after_publish_def)
  qed (use that in \<open>simp add: publish_error_def router_publish_error_def honest_after_publish\<close>)
  then show ?thesis by (simp add: preserves_def)
qed

lemma honest_respond:
  assumes "honest X cs d" "map_of (wd_pending d) i = Some c" "wx_parse_wrapper X msg = Some (i, e)"
  shows "honest X cs (fst (respond_to_pending_command c msg (d\<lparr>wd_pending := bt_remove i (wd_pending d)\<rparr>)))"
proof -
  let ?d = "d\<lparr>wd_pending := bt_remove i (wd_pending d)\<rparr>"
  have h: "honest X cs ?d" using assms(1) set_bt_remove_le [of i "wd_pending d"] by (auto simp: honest_def)
  have done': "honest X cs (fst (in_world (channel_tx_send t P_Done) e))" if "honest X cs e" for t and e :: "'a ws_driver"
    by (rule preserves_fst [OF honest_channel that]) simp
  show ?thesis
  proof (cases c)
    case (SimpleRequest i' req t)
    have "(i, c) \<in> set (wd_pending d)" using map_of_SomeD [OF assms(2)] .
    then have c: "i' = i" "SimpleRequest i req t \<in> cs" using assms(1) SimpleRequest unfolding honest_def by blast+
    then show ?thesis
      using h assms(3) SimpleRequest by (auto simp: in_world_def channel_tx_send_def honest_def)
  qed (use h done' in \<open>simp_all add: honest_router\<close>)
qed

lemma honest_handle_text_msg: "preserves (honest X cs) (handle_text_msg X msg)"
proof -
  have "preserves (honest X cs) (\<lambda>d. case map_of (wd_pending d) i of
       Some c \<Rightarrow> respond_to_pending_command c msg (d\<lparr>wd_pending := bt_remove i (wd_pending d)\<rparr>)
     | None \<Rightarrow> (d, Ok ()))" if "wx_parse_wrapper X msg = Some (i, e)" for i e
    using honest_respond [OF _ _ that] by (auto simp: preserves_def split: option.splits)
  then show ?thesis
    unfolding handle_text_msg_def
    by (auto split: option.splits prod.splits intro!: preserves_sbind honest_publish_event honest_publish_error)
qed

lemma honest_unsubscribe: "preserves (honest X cs) (unsubscribe Y q t)"
proof -
  have p: "preserves (honest X cs) (sbind (fresh_id Y) (\<lambda>i. sbind (write_request (Out_Unsubscribe i q) t)
      (\<lambda>_. add_pending i (Unsubscribe q t))))"
    by (intro preserves_sbind honest_fresh_id honest_write_request honest_add_pending) simp
  show ?thesis
    using preserves_fst [OF p] preserves_fst [OF honest_channel [of P_Done X cs t]]
    by (simp add: preserves_def unsubscribe_def case_prod_beta Let_def honest_router)
qed

lemma honest_subscribe: "preserves (honest X cs) (subscribe i q sub t)"
proof -
  have p: "preserves (honest X cs) (sbind (write_request (Out_Subscribe i q) t) (\<lambda>_. add_pending i (Subscribe i q sub t)))"
    by (intro preserves_sbind honest_write_request honest_add_pending) simp
  show ?thesis
    using preserves_fst [OF p] preserves_fst [OF honest_channel [of P_Done X cs t]]
    by (simp add: preserves_def subscribe_def honest_router)
qed

lemma honest_driver_step:
  assumes "honest X cs d" "\<And>c. e = Commanded c \<Longrightarrow> c \<in> cs"
  shows "honest X cs (fst (driver_step X e d))"
proof (cases e)
  case (Received m)
  with assms(1) show ?thesis
    by (cases m) (simp_all add: driver_step_def fst_go_on handle_incoming_msg_def preserves_fst [OF honest_handle_text_msg]
        preserves_fst [OF honest_send_msg])
next
  case (Commanded c)
  show ?thesis
  proof (cases c)
    case (SimpleRequest i req t)
    have "preserves (honest X cs) (simple_request i req t)"
      unfolding simple_request_def using assms(2) [OF Commanded] SimpleRequest
      by (intro preserves_sbind honest_write_request honest_add_pending) simp
    with Commanded SimpleRequest assms(1) show ?thesis by (simp add: driver_step_def fst_go_on preserves_fst)
  qed (use Commanded assms(1) in \<open>simp_all add: driver_step_def fst_go_on preserves_fst [OF honest_subscribe]
        preserves_fst [OF honest_unsubscribe] preserves_fst [OF honest_send_msg]\<close>)
qed (use assms(1) in \<open>simp_all add: driver_step_def fst_go_on preserves_fst [OF honest_send_msg]\<close>)

interpretation honesty: driver_invariant X "\<lambda>e. \<forall>c. e = Commanded c \<longrightarrow> c \<in> cs" "\<lambda>_. 0" "\<lambda>_. honest X cs" for X cs
  by unfold_locales (simp_all add: honest_driver_step)

section \<open>Waiting requests\<close>

text \<open>A command stays filed until a response with its identifier arrives or the identifier is used again.\<close>

lemma pending_in_world [simp]: "wd_pending (fst (in_world m d)) = wd_pending d"
  by (simp add: in_world_def case_prod_beta)

lemma pending_fresh_id [simp]: "wd_pending (fst (fresh_id X d)) = wd_pending d"
  by (simp add: fresh_id_def)

lemma pending_lift_after: "wd_pending (fst (sbind m (\<lambda>a. lift (f a)) d)) = wd_pending (fst (m d))"
  by (simp add: sbind_def split: prod.splits result.splits)

lemma pending_write_request [simp]: "wd_pending (fst (write_request m t d)) = wd_pending d"
proof -
  obtain d1 r where s: "in_world (send_msg m) d = (d1, r)" by force
  then have "wd_pending d1 = wd_pending d" using pending_in_world [of "send_msg m" d] by simp
  then show ?thesis by (cases r) (simp_all add: write_request_def s pending_lift_after)
qed

lemma pending_after_publish [simp]: "wd_pending (fst (after_publish X o' d)) = wd_pending d"
  by (auto simp: after_publish_def sbind_def fresh_id_def in_world_def Let_def case_prod_beta split: prod.splits publish_result.splits)

lemma pending_publish [simp]:
  "wd_pending (fst (publish_event X ev d)) = wd_pending d" "wd_pending (fst (publish_error X i e d)) = wd_pending d"
  by (simp_all add: publish_event_def publish_error_def)

lemma pending_respond [simp]: "wd_pending (fst (respond_to_pending_command c msg d)) = wd_pending d"
  by (cases c) simp_all

definition undisturbed :: "'d ws_ext \<Rightarrow> string \<Rightarrow> ws_event \<Rightarrow> bool" where
  "undisturbed X i e \<longleftrightarrow> (case e of
      Received (In_Text m) \<Rightarrow> wx_parse_event X m \<noteq> None \<or> (\<nexists>er. wx_parse_wrapper X m = Some (i, er))
    | Commanded (Subscribe i' _ _ _) \<Rightarrow> i' \<noteq> i
    | Commanded (SimpleRequest i' _ _) \<Rightarrow> i' \<noteq> i
    | _ \<Rightarrow> True)"

lemma pending_request: "map_of (wd_pending (fst (sbind (write_request m t) (\<lambda>_. add_pending k c) d))) i
    = map_of (wd_pending d) i" if "k \<noteq> i"
proof -
  obtain d1 r where w: "write_request m t d = (d1, r)" by force
  then have "wd_pending d1 = wd_pending d" using pending_write_request [of m t d] by simp
  with that w show ?thesis by (cases r) (simp_all add: sbind_def add_pending_def modify_def)
qed

lemma pending_driver_step:
  assumes "undisturbed X i e" "\<And>n. wx_uuid X n \<noteq> i"
  shows "map_of (wd_pending (fst (driver_step X e d))) i = map_of (wd_pending d) i"
proof (cases e)
  case (Received m)
  have "map_of (wd_pending (fst (handle_text_msg X s d))) i = map_of (wd_pending d) i" if m: "m = In_Text s" for s
  proof (cases "wx_parse_event X s")
    case None
    show ?thesis
    proof (cases "wx_parse_wrapper X s")
      case (Some ie)
      obtain k er where ie: "ie = (k, er)" by force
      have k: "k \<noteq> i" using assms(1) Received m None Some ie by (auto simp: undisturbed_def)
      define p where "p = (case er of Some e \<Rightarrow> publish_error X k e | None \<Rightarrow> lift (Ok ()))"
      obtain d1 r where d1: "p d = (d1, r)" by force
      have "wd_pending (fst (p d)) = wd_pending d" by (simp add: p_def split: option.splits)
      then have "wd_pending d1 = wd_pending d" using d1 by simp
      with None Some ie k d1 show ?thesis
        by (cases r) (auto simp: handle_text_msg_def p_def [symmetric] sbind_def split: option.splits)
    qed (simp add: handle_text_msg_def None)
  qed (simp add: handle_text_msg_def)
  with Received show ?thesis by (cases m) (simp_all add: driver_step_def fst_go_on handle_incoming_msg_def)
next
  case (Commanded c)
  show ?thesis
  proof (cases c)
    case (Subscribe j q sub t)
    with Commanded assms(1) show ?thesis
      by (simp add: driver_step_def fst_go_on subscribe_def undisturbed_def pending_request)
  next
    case (Unsubscribe q t)
    obtain d1 a where f: "fresh_id X (d\<lparr>wd_router := fst (remove_by_query q (wd_router d))\<rparr>) = (d1, Ok a)" "a \<noteq> i"
        "wd_pending d1 = wd_pending d" using assms(2) by (simp add: fresh_id_def)
    have "sbind (fresh_id X) F (d\<lparr>wd_router := fst (remove_by_query q (wd_router d))\<rparr>) = F a d1"
      for F :: "string \<Rightarrow> ('a, unit) ws_call" using f(1) by (simp add: sbind_def)
    with Commanded Unsubscribe f(2,3) show ?thesis
      by (simp add: driver_step_def fst_go_on unsubscribe_def case_prod_beta Let_def pending_request)
  next
    case (SimpleRequest j req t)
    with Commanded assms(1) show ?thesis
      by (simp add: driver_step_def fst_go_on simple_request_def undisturbed_def pending_request)
  qed (simp add: Commanded driver_step_def fst_go_on)
qed (simp_all add: driver_step_def fst_go_on)

interpretation waiting: driver_invariant X "\<lambda>e. undisturbed X i e \<and> (\<forall>n. wx_uuid X n \<noteq> i)" "\<lambda>_. 0"
    "\<lambda>_ d. map_of (wd_pending d) i = Some c" for X i c
  by unfold_locales (simp_all add: pending_driver_step)

lemma driver_events_append:
  "driver_events X (es @ fs) d =
     (case driver_events X es d of (d1, None) \<Rightarrow> driver_events X fs d1 | r \<Rightarrow> r)"
  by (induction es arbitrary: d) (auto split: prod.splits result.splits bool.splits)

text \<open>Publishing leaves the receivers alone.\<close>

lemma open_publish [simp]: "wo_open (wd_world (fst (publish_error X i e d))) = wo_open (wd_world d)"
proof -
  have "wo_open (snd (fst (publish q p subs w))) = wo_open w" for q p subs and w :: "'a world"
    by (auto simp: publish_def publish_loop_eq Let_def split: option.splits)
  then have "wo_open (snd (fst (router_publish_error i e (wd_router d) (wd_world d)))) = wo_open (wd_world d)"
    by (simp add: router_publish_error_def split: option.splits)
  then show ?thesis
    by (auto simp: publish_error_def after_publish_def sbind_def fresh_id_def in_world_def send_msg_def Let_def
        split: prod.splits publish_result.splits list.splits bool.splits)
qed

lemma publish_error_Ok: "snd (publish_error X i e d) = Ok ()"
  by (auto simp: publish_error_def after_publish_def Let_def split: prod.splits publish_result.splits)

text \<open>A message with the identifier of a waiting command.\<close>

lemma response_step:
  assumes "wx_parse_event X msg = None" "wx_parse_wrapper X msg = Some (i, er)" "map_of (wd_pending d) i = Some c"
  shows "\<exists>d1. wd_pending d1 = bt_remove i (wd_pending d) \<and> wo_open (wd_world d1) = wo_open (wd_world d)
    \<and> driver_step X (Received (In_Text msg)) d = sbind (respond_to_pending_command c msg) (\<lambda>_. lift (Ok True)) d1"
proof -
  define p where "p = (case er of Some e \<Rightarrow> publish_error X i e | None \<Rightarrow> lift (Ok ()))"
  obtain d0 where d0: "p d = (d0, Ok ())" "wd_pending d0 = wd_pending d" "wo_open (wd_world d0) = wo_open (wd_world d)"
  proof (cases er)
    case (Some e)
    then show ?thesis
      using that [of "fst (p d)"] publish_error_Ok [of X i e d] by (simp add: p_def prod_eq_iff)
  qed (use that [of d] in \<open>simp add: p_def\<close>)
  have "handle_text_msg X msg d = respond_to_pending_command c msg (d0\<lparr>wd_pending := bt_remove i (wd_pending d0)\<rparr>)"
    using assms d0(2) by (simp add: handle_text_msg_def p_def [symmetric] sbind_def d0(1))
  then show ?thesis
    using d0 by (intro exI [of _ "d0\<lparr>wd_pending := bt_remove i (wd_pending d0)\<rparr>"])
      (simp add: driver_step_def handle_incoming_msg_def sbind_def)
qed

end
