(* ===== verification/Rpc_Properties.thy ===== *)
theory Rpc_Properties
  imports Rpc_Query_Lemmas Rpc_Websocket_Lemmas
begin

text \<open>
  The properties of the RPC client: the text of queries, and the requests and subscriptions that share
  a WebSocket connection.
\<close>

section \<open>Texts that are not read back\<close>

lemma query_first_term:
  assumes "query_from_str Q s = Ok q" "s \<noteq> []"
  shows "\<exists>t r. term_rule Q s = Some (t, r)
    \<and> (case t of Term_EventType et \<Rightarrow> qy_event_type q = Some et | Term_Condition c \<Rightarrow> \<exists>cs. qy_conditions q = c # cs)"
proof (cases "term_rule Q s")
  case None
  with assms show ?thesis by (simp add: query_from_str_def query_rule_def)
next
  case (Some tr)
  obtain t r where tr: "tr = (t, r)" by force
  show ?thesis
    using assms(1) Some tr
    by (cases t) (auto simp: query_from_str_def query_rule_def split: prod.splits if_splits list.splits)
qed

lemma operand_escaped:
  assumes "quote \<in> set v \<or> backslash \<in> set v"
  shows "operand_rule Q (escape v) \<noteq> Some (Op_String v, r)"
proof
  assume a: "operand_rule Q (escape v) = Some (Op_String v, r)"
  obtain cs where e: "escape v = quote # cs" by (simp add: escape_def)
  have "datetime_op Q (escape v) = None" "date_op Q (escape v) = None" unfolding e by (simp_all add: not_keyword quote_def)
  with a have "string_rule (escape v) = Some (v, r)"
    by (auto simp: operand_rule_def choice_def act_def Option.bind_eq_Some_conv split: option.splits)
  then show False using string_rule_escaped [of v "[]"] assms by simp
qed

lemma equation_escaped:
  assumes "tag key" "quote \<in> set v \<or> backslash \<in> set v"
  shows "term_rule Q (key @ '' = '' @ escape v) \<noteq> Some (Term_Condition \<lparr>cn_key = key, cn_operation = Eq (Op_String v)\<rparr>, r)"
proof
  let ?s = "key @ '' = '' @ escape v"
  assume a: "term_rule Q ?s = Some (Term_Condition \<lparr>cn_key = key, cn_operation = Eq (Op_String v)\<rparr>, r)"
  have "event_type_rule ?s \<noteq> Some (Term_Condition c, r)" for c :: "'a condition"
    by (auto simp: event_type_rule_def Option.bind_eq_Some_conv simp del: lit.simps)
  with a have "condition_rule Q ?s = Some (Term_Condition \<lparr>cn_key = key, cn_operation = Eq (Op_String v)\<rparr>, r)"
    by (auto simp: term_rule_def choice_def split: option.splits)
  moreover have "compare_rule Q sign mk ?s = None" if "lit sign (CHR ''='' # '' '' @ escape v) = None" for sign mk
    using compare_rule_other [OF assms(1) that] by simp
  moreover have "ws1 (CHR '' '' # CHR ''='' # CHR '' '' # escape v) = Some (CHR ''='' # CHR '' '' # escape v)"
    by (rule ws1_one) (simp add: stops_def)
  ultimately have c: "compare_rule Q ''='' Eq ?s = Some (\<lparr>cn_key = key, cn_operation = Eq (Op_String v)\<rparr>, r)"
    using tag_rule_text [OF assms(1), of "CHR ''='' # CHR '' '' # escape v"]
    by (auto simp: condition_rule_def act_def choice_def one_def contains_rule_def exists_rule_def
        Option.bind_eq_Some_conv split: option.splits)
  have "ws0 (CHR '' '' # CHR ''='' # CHR '' '' # escape v) = Some (CHR ''='' # CHR '' '' # escape v)"
    "ws0 (CHR '' '' # escape v) = Some (escape v)"
    by (rule ws0_one; simp add: stops_def escape_def quote_def)+
  with c tag_rule_text [OF assms(1), of "CHR ''='' # CHR '' '' # escape v"]
  have "operand_rule Q (escape v) = Some (Op_String v, r)"
    by (auto simp: compare_rule_def one_def act_def Option.bind_eq_Some_conv)
  then show False using operand_escaped [OF assms(2)] by blast
qed

section \<open>A sample\<close>

definition sample_query_ext :: "nat query_ext" where
  "sample_query_ext = \<lparr>qx_f64_from_str = (\<lambda>s. if s = ''1.5'' then Some 15 else None), qx_f64_fmt = (\<lambda>_. ''1.5''),
     qx_parse_date = (\<lambda>_. Some \<lparr>d_year = 2020, d_month = 9, d_day = 24\<rparr>), qx_parse_rfc3339 = (\<lambda>_. None)\<rparr>"

definition sample_tx_query :: "nat query" where
  "sample_tx_query = \<lparr>qy_event_type = Some ET_Tx, qy_conditions =
     [\<lparr>cn_key = ''tx.height'', cn_operation = Lte (Op_Unsigned 100)\<rparr>,
      \<lparr>cn_key = ''transfer.sender'', cn_operation = Eq (Op_String ''AddrA'')\<rparr>,
      \<lparr>cn_key = ''short.pi'', cn_operation = Gt (Op_Float 15)\<rparr>,
      \<lparr>cn_key = ''some_date'', cn_operation = Eq (Op_Date \<lparr>d_year = 2020, d_month = 9, d_day = 24\<rparr>)\<rparr>,
      \<lparr>cn_key = ''meta.attr'', cn_operation = Contains ''some''\<rparr>]\<rparr>"

lemma sample_tx_query_readable: "readable_query sample_query_ext sample_tx_query"
proof -
  have "\<exists>sign a b. (sign = [] \<or> sign = ''-'') \<and> ''1.5'' = sign @ a @ ''.'' @ b \<and> a \<noteq> [] \<and> b \<noteq> [] \<and> list_all digit a \<and> list_all digit b"
    by (intro exI [of _ "[]"] exI [of _ "''1''"] exI [of _ "''5''"]) (simp add: between_def)
  then show ?thesis
    by (simp add: readable_query_def sample_tx_query_def readable_condition_def tag_def tag_char_def between_def
        sample_query_ext_def date_in_grammar_def quote_def backslash_def)
qed

definition sample_ws_ext :: "nat ws_ext" where
  "sample_ws_ext = \<lparr>wx_parse_event = (\<lambda>m. if m = ''event'' then Some \<lparr>ev_query = ''q'', ev_data = 7\<rparr> else None),
     wx_parse_wrapper = (\<lambda>m. if m = ''ok'' then Some (''a'', None) else if m = ''rejected'' then Some (''a'', Some (RE_Response ''no'')) else None),
     wx_uuid = (\<lambda>n. ''fresh'')\<rparr>"

definition sample_world :: "chan list \<Rightarrow> nat world" where
  "sample_world open = \<lparr>wo_open = open, wo_delivered = [], wo_write_errors = [], wo_sent = [], wo_ids = 0\<rparr>"

section \<open>Queries\<close>

text \<open>
  C18. The text of a query is read back as the same query, when its keys are tags, its strings have no
  quotes or backslashes, its signed integers are negative, its numbers, dates and times are in the
  form the grammar knows and are read back by the parsers of their types, and none of its conditions
  is the equation of \<open>tm.event\<close> with the string \<open>NewBlock\<close> or \<open>Tx\<close>, the text of an event type.
\<close>

theorem query_text_roundtrip:
  assumes "readable_query Q q"
  shows "query_from_str Q (query_to_string Q q) = Ok q"
  using assms by (rule query_from_to_string)

theorem query_text_roundtrip_witness:
  "query_from_str sample_query_ext (query_to_string sample_query_ext sample_tx_query) = Ok sample_tx_query"
  by (rule query_text_roundtrip [OF sample_tx_query_readable])

lemma event_type_text:
  "query_from_str Q (query_to_string Q (query_of \<lparr>cn_key = ''tm.event'', cn_operation = Eq (Op_String (event_type_to_string t))\<rparr>))
    = Ok (query_from_event_type t)"
proof -
  have "query_to_string Q (query_of \<lparr>cn_key = ''tm.event'', cn_operation = Eq (Op_String (event_type_to_string t))\<rparr>)
      = query_to_string Q (query_from_event_type t)"
    by (cases t) (simp_all add: query_to_string_def query_of_def query_from_event_type_def condition_to_string_def
        escape_def quote_def backslash_def)
  moreover have "readable_query Q (query_from_event_type t)" by (simp add: readable_query_def query_from_event_type_def)
  ultimately show ?thesis using query_from_to_string [of Q "query_from_event_type t"] by simp
qed

text \<open>
  C37. The other operands do not survive the round trip. For a key that is a tag, the text of an equation
  with a string is read back as that equation exactly when the string has no quote and no backslash,
  since the grammar does not remove the escapes that printing adds, and the equation is not one of
  \<open>tm.event\<close> with \<open>NewBlock\<close> or \<open>Tx\<close>: such an equation comes back as a query for that event type. A
  signed integer that is not negative comes back unsigned.
\<close>

theorem query_text_losses:
  assumes "tag key"
  shows "(query_from_str Q (query_to_string Q (query_of \<lparr>cn_key = key, cn_operation = Eq (Op_String v)\<rparr>))
      = Ok (query_of \<lparr>cn_key = key, cn_operation = Eq (Op_String v)\<rparr>))
      = (quote \<notin> set v \<and> backslash \<notin> set v \<and> \<not> (key = ''tm.event'' \<and> v \<in> {''NewBlock'', ''Tx''}))
    \<and> query_from_str Q (query_to_string Q (query_of \<lparr>cn_key = ''tm.event'', cn_operation = Eq (Op_String ''Tx'')\<rparr>))
      = Ok (query_from_event_type ET_Tx)
    \<and> query_from_str Q (query_to_string Q (query_of \<lparr>cn_key = ''tm.event'', cn_operation = Eq (Op_String ''NewBlock'')\<rparr>))
      = Ok (query_from_event_type ET_NewBlock)
    \<and> (sint i < 0 \<or> query_from_str Q (query_to_string Q (query_of \<lparr>cn_key = key, cn_operation = Eq (Op_Signed i)\<rparr>))
      = Ok (query_of \<lparr>cn_key = key, cn_operation = Eq (Op_Unsigned i)\<rparr>))"
proof (intro conjI)
  let ?q = "query_of \<lparr>cn_key = key, cn_operation = Eq (Op_String v)\<rparr> :: 'a query"
  have s: "query_to_string Q ?q = key @ '' = '' @ escape v" by (simp add: query_to_string_def query_of_def condition_to_string_def)
  show "(query_from_str Q (query_to_string Q ?q) = Ok ?q)
      = (quote \<notin> set v \<and> backslash \<notin> set v \<and> \<not> (key = ''tm.event'' \<and> v \<in> {''NewBlock'', ''Tx''}))"
  proof
    assume ok: "query_from_str Q (query_to_string Q ?q) = Ok ?q"
    have "query_to_string Q ?q \<noteq> []" by (simp add: s)
    from query_first_term [OF ok this] obtain t r where t: "term_rule Q (key @ '' = '' @ escape v) = Some (t, r)"
      "case t of Term_EventType et \<Rightarrow> qy_event_type ?q = Some et | Term_Condition c \<Rightarrow> \<exists>cs. qy_conditions ?q = c # cs"
      unfolding s by (elim exE conjE) (rule that, assumption+)
    then have "t = Term_Condition \<lparr>cn_key = key, cn_operation = Eq (Op_String v)\<rparr>" by (cases t) (auto simp: query_of_def)
    with t(1) have "quote \<notin> set v \<and> backslash \<notin> set v" using equation_escaped [OF assms, of v] by blast
    moreover have "\<not> (key = ''tm.event'' \<and> v = event_type_to_string et)" for et
      using ok event_type_text [of Q et] by (auto simp: query_of_def query_from_event_type_def)
    from this [of ET_NewBlock] this [of ET_Tx] have "\<not> (key = ''tm.event'' \<and> v \<in> {''NewBlock'', ''Tx''})" by auto
    ultimately show "quote \<notin> set v \<and> backslash \<notin> set v \<and> \<not> (key = ''tm.event'' \<and> v \<in> {''NewBlock'', ''Tx''})" by blast
  next
    assume "quote \<notin> set v \<and> backslash \<notin> set v \<and> \<not> (key = ''tm.event'' \<and> v \<in> {''NewBlock'', ''Tx''})"
    then have "readable_query Q ?q" using assms by (auto simp: readable_query_def query_of_def readable_condition_def)
    then show "query_from_str Q (query_to_string Q ?q) = Ok ?q" by (rule query_from_to_string)
  qed
  let ?u = "query_of \<lparr>cn_key = key, cn_operation = Eq (Op_Unsigned i)\<rparr>"
  have "query_to_string Q (query_of \<lparr>cn_key = key, cn_operation = Eq (Op_Signed i)\<rparr>) = query_to_string Q ?u" if "\<not> sint i < 0"
    using that by (simp add: query_to_string_def query_of_def condition_to_string_def int_to_string_def nat_sint)
  moreover have "readable_query Q ?u" using assms by (simp add: readable_query_def query_of_def readable_condition_def)
  ultimately show "sint i < 0 \<or> query_from_str Q (query_to_string Q (query_of \<lparr>cn_key = key, cn_operation = Eq (Op_Signed i)\<rparr>)) = Ok ?u"
    using query_from_to_string by metis
qed (use event_type_text [of Q ET_Tx] event_type_text [of Q ET_NewBlock] in simp_all)

theorem query_text_losses_witness:
  "query_from_str sample_query_ext (query_to_string sample_query_ext (query_of \<lparr>cn_key = ''k'', cn_operation = Eq (Op_String [backslash])\<rparr>))
     \<noteq> Ok (query_of \<lparr>cn_key = ''k'', cn_operation = Eq (Op_String [backslash])\<rparr>)
   \<and> query_from_str sample_query_ext (query_to_string sample_query_ext (query_of \<lparr>cn_key = ''k'', cn_operation = Eq (Op_Signed 3)\<rparr>))
     = Ok (query_of \<lparr>cn_key = ''k'', cn_operation = Eq (Op_Unsigned 3)\<rparr>)"
  using query_text_losses [of "''k''" sample_query_ext "[backslash]" 3] by (simp add: tag_def between_def)

section \<open>The WebSocket connection\<close>

text \<open>
  C17. An event goes to every subscription of its query whose receiver is still held, once and in the
  order of the identifiers, and to nobody else; the subscriptions whose receivers are gone are forgotten,
  those of other queries are untouched, and the server is asked to stop when none is left.
\<close>

theorem event_reaches_subscribers:
  assumes "wf_router (wd_router d)" "wx_parse_event X msg = Some ev" "map_of (wd_router d) (ev_query ev) = Some subs"
    and "wo_write_errors (wd_world d) = []"
  shows "\<exists>d'. driver_events X [Received (In_Text msg)] d = (d', None)
    \<and> wo_delivered (wd_world d') = wo_delivered (wd_world d) @ map (\<lambda>(_, tx). (tx, P_Event ev)) (listening (wd_world d) subs)
    \<and> map_of (wd_router d') = (map_of (wd_router d))(ev_query ev \<mapsto> listening (wd_world d) subs)
    \<and> wd_pending d' = wd_pending d
    \<and> wo_sent (wd_world d') = wo_sent (wd_world d) @
        (if listening (wd_world d) subs = [] then [Out_Unsubscribe (wx_uuid X (wo_ids (wd_world d))) (ev_query ev)] else [])"
  using publish_eq [OF assms(1,3), of "P_Event ev" "wd_world d"] assms(2,4)
  by (auto simp: driver_step_def handle_incoming_msg_def handle_text_msg_def publish_event_def router_publish_event_def
      after_publish_def sbind_def fresh_id_def in_world_def send_msg_def Let_def)

theorem event_reaches_subscribers_witness:
  "\<exists>d'. driver_events sample_ws_ext [Received (In_Text ''event'')]
       \<lparr>wd_world = sample_world [1, 3], wd_router = [(''q'', [(''a'', 1), (''b'', 2)]), (''r'', [(''c'', 3)])], wd_pending = []\<rparr> = (d', None)
     \<and> wo_delivered (wd_world d') = [(1, P_Event \<lparr>ev_query = ''q'', ev_data = 7\<rparr>)]"
proof -
  let ?d = "\<lparr>wd_world = sample_world [1, 3], wd_router = [(''q'', [(''a'', 1), (''b'', 2)]), (''r'', [(''c'', 3)])], wd_pending = []\<rparr>"
  have "wf_router (wd_router ?d)" by (auto simp: wf_router_def bt_inv_def less_char_def split: if_splits)
  moreover have "wx_parse_event sample_ws_ext ''event'' = Some \<lparr>ev_query = ''q'', ev_data = 7\<rparr>" by (simp add: sample_ws_ext_def)
  moreover have "map_of (wd_router ?d) (ev_query \<lparr>ev_query = ''q'', ev_data = 7\<rparr>) = Some [(''a'', 1), (''b'', 2)]" by simp
  moreover have "wo_write_errors (wd_world ?d) = []" by (simp add: sample_world_def)
  ultimately obtain d' where "driver_events sample_ws_ext [Received (In_Text ''event'')] ?d = (d', None)"
    "wo_delivered (wd_world d') = wo_delivered (wd_world ?d)
       @ map (\<lambda>(_, tx). (tx, P_Event \<lparr>ev_query = ''q'', ev_data = 7\<rparr>)) (listening (wd_world ?d) [(''a'', 1), (''b'', 2)])"
    using event_reaches_subscribers by blast
  then show ?thesis by (intro exI [of _ d']) (simp add: listening_def sample_world_def)
qed

text \<open>
  C15. Over any sequence of messages, commands, ticks and failures, a channel on which a caller waits for
  an outcome gets at most as many as the commands that name it, and never an event; and a response text
  it gets carries the identifier of a request that named it.
\<close>

theorem responses_match_requests:
  assumes "\<forall>c. Commanded c \<in> set es \<longrightarrow> \<not> subscribes_on tx c" "wo_delivered w = []"
  shows "\<exists>d r. driver_events X es (ws_driver_new w) = (d, r)
    \<and> length (filter (\<lambda>(c, _). c = tx) (wo_delivered (wd_world d))) \<le> length (filter (\<lambda>e. \<exists>c. e = Commanded c \<and> replies_to tx c) es)
    \<and> (\<forall>m. (tx, P_Text m) \<in> set (wo_delivered (wd_world d)) \<longrightarrow>
         (\<exists>i req e. Commanded (SimpleRequest i req tx) \<in> set es \<and> wx_parse_wrapper X m = Some (i, e)))"
proof -
  obtain d r where d: "driver_events X es (ws_driver_new w) = (d, r)" by force
  have "load tx 0 (ws_driver_new w)"
    using assms(2) by (simp add: load_def ws_driver_new_def wf_router_def unsubscribed_def sent_to_def awaiting_def)
  moreover have "list_all (no_subscription_on tx) es"
    using assms(1) by (auto simp: list_all_iff no_subscription_on_def split: ws_event.splits)
  ultimately have l: "load tx (sum_list (map (added_load tx) es)) d"
    using loads.events [of tx 0 "ws_driver_new w" es X] d by simp
  have "sum_list (map (added_load tx) es) = length (filter (\<lambda>e. \<exists>c. e = Commanded c \<and> replies_to tx c) es)"
    by (induction es) (auto simp: added_load_def split: ws_event.splits)
  with l have n: "length (filter (\<lambda>(c, _). c = tx) (wo_delivered (wd_world d)))
      \<le> length (filter (\<lambda>e. \<exists>c. e = Commanded c \<and> replies_to tx c) es)" by (simp add: load_def sent_to_def)
  have "honest X {c. Commanded c \<in> set es} (ws_driver_new w)" using assms(2) by (simp add: honest_def ws_driver_new_def)
  from honesty.events [OF this, of es] d have "honest X {c. Commanded c \<in> set es} d" by (auto simp: list_all_iff)
  then have "\<forall>m. (tx, P_Text m) \<in> set (wo_delivered (wd_world d)) \<longrightarrow>
      (\<exists>i req e. Commanded (SimpleRequest i req tx) \<in> set es \<and> wx_parse_wrapper X m = Some (i, e))"
    by (simp add: honest_def)
  with n d show ?thesis by blast
qed

theorem responses_match_requests_witness:
  "\<exists>d r. driver_events sample_ws_ext [Commanded (SimpleRequest ''a'' ''req'' 1), Received (In_Text ''ok''), Received (In_Text ''ok'')]
       (ws_driver_new (sample_world [1])) = (d, r)
     \<and> length (filter (\<lambda>(c, _). c = 1) (wo_delivered (wd_world d))) \<le> 1"
  using responses_match_requests [of "[Commanded (SimpleRequest ''a'' ''req'' 1), Received (In_Text ''ok''), Received (In_Text ''ok'')]"
      1 "sample_world [1]" sample_ws_ext]
  by (auto simp: sample_world_def)

text \<open>
  C16. A request that was written is answered: whatever happens in between, as long as the driver runs and
  the identifier is not used again, the message with its identifier goes to the caller, and the driver
  goes on.
\<close>

theorem request_answered:
  assumes "map_of (wd_pending d) i = Some (SimpleRequest i req tx)"
    and "list_all (undisturbed X i) es" "\<forall>n. wx_uuid X n \<noteq> i" "driver_events X es d = (d1, None)"
    and "wx_parse_event X msg = None" "wx_parse_wrapper X msg = Some (i, er)" "tx \<in> set (wo_open (wd_world d1))"
  shows "\<exists>d'. driver_events X (es @ [Received (In_Text msg)]) d = (d', None)
    \<and> last (wo_delivered (wd_world d')) = (tx, P_Text msg) \<and> map_of (wd_pending d') i = None"
proof -
  have "map_of (wd_pending d1) i = Some (SimpleRequest i req tx)"
    using waiting.events [OF assms(1), of X es] assms(2,3,4) by (simp add: list_all_iff)
  from response_step [OF assms(5,6) this] assms(7) obtain d2 where
    "wd_pending d2 = bt_remove i (wd_pending d1)" "tx \<in> set (wo_open (wd_world d2))"
    "driver_step X (Received (In_Text msg)) d1 = sbind (respond_to_pending_command (SimpleRequest i req tx) msg) (\<lambda>_. lift (Ok True)) d2"
    by auto
  then show ?thesis by (simp add: driver_events_append assms(4) sbind_def in_world_def channel_tx_send_def)
qed

theorem request_answered_witness:
  "\<exists>d'. driver_events sample_ws_ext [Ping_Tick, Received (In_Text ''ok'')]
       \<lparr>wd_world = sample_world [1], wd_router = [], wd_pending = [(''a'', SimpleRequest ''a'' ''req'' 1)]\<rparr> = (d', None)
     \<and> last (wo_delivered (wd_world d')) = (1, P_Text ''ok'')"
proof -
  let ?d = "\<lparr>wd_world = sample_world [1], wd_router = [], wd_pending = [(''a'', SimpleRequest ''a'' ''req'' 1)]\<rparr>"
  obtain d1 where d1: "driver_events sample_ws_ext [Ping_Tick] ?d = (d1, None)" "1 \<in> set (wo_open (wd_world d1))"
    by (simp add: driver_step_def sbind_def in_world_def send_msg_def sample_world_def)
  from request_answered [of ?d "''a''" "''req''" 1 sample_ws_ext "[Ping_Tick]" d1 "''ok''" None] d1 show ?thesis
    by (auto simp: undisturbed_def sample_ws_ext_def simp del: driver_events.simps)
qed

text \<open>
  A subscription that the server rejects is confirmed: the error response to a subscribe request,
  for a query nobody subscribes to yet, makes the driver report success to the caller and register the
  subscription. The error reaches nobody.
\<close>

theorem rejected_subscription_confirmed:
  assumes "num_subscriptions_for_query q (wd_router d) = 0" "subscription_query i (wd_router d) = None"
    and "wo_write_errors (wd_world d) = []" "tx \<in> set (wo_open (wd_world d))"
    and "wx_parse_event X msg = None" "wx_parse_wrapper X msg = Some (i, Some e)"
  shows "\<exists>d'. driver_events X [Commanded (Subscribe i q sub tx), Received (In_Text msg)] d = (d', None)
    \<and> wo_delivered (wd_world d') = wo_delivered (wd_world d) @ [(tx, P_Done)]
    \<and> wd_router d' = router_add i q sub (wd_router d)"
  using assms
  by (simp add: driver_step_def subscribe_def write_request_def in_world_def send_msg_def sbind_def add_pending_def modify_def
      handle_incoming_msg_def handle_text_msg_def publish_error_def router_publish_error_def after_publish_def channel_tx_send_def)

theorem rejected_subscription_confirmed_witness:
  "\<exists>d'. driver_events sample_ws_ext [Commanded (Subscribe ''a'' ''q'' 2 1), Received (In_Text ''rejected'')]
       (ws_driver_new (sample_world [1, 2])) = (d', None)
     \<and> wo_delivered (wd_world d') = [(1, P_Done)] \<and> wd_router d' = [(''q'', [(''a'', 2)])]"
  using rejected_subscription_confirmed [of "''q''" "ws_driver_new (sample_world [1, 2])" "''a''" 1 sample_ws_ext "''rejected''"
      "RE_Response ''no''" 2]
  by (simp add: ws_driver_new_def sample_world_def num_subscriptions_for_query_def sample_ws_ext_def router_add_def
      del: driver_events.simps)

text \<open>
  A caller that stops waiting ends the driver: when the response to its command arrives and its
  receiver is gone, the driver stops with an error, whatever other requests and subscriptions it serves.
\<close>

theorem abandoned_call_ends_driver:
  assumes "map_of (wd_pending d) i = Some c" "c \<noteq> Terminate" "response_tx c \<notin> set (wo_open (wd_world d))"
    and "wx_parse_event X msg = None" "wx_parse_wrapper X msg = Some (i, er)"
  shows "snd (driver_events X (Received (In_Text msg) # es) d) = Some (Err RE_ChannelSend)"
proof -
  from response_step [OF assms(4,5,1)] obtain d1 where d1: "wo_open (wd_world d1) = wo_open (wd_world d)"
    "driver_step X (Received (In_Text msg)) d = sbind (respond_to_pending_command c msg) (\<lambda>_. lift (Ok True)) d1" by blast
  then show ?thesis
    using assms(2,3) by (cases c) (simp_all add: sbind_def in_world_def channel_tx_send_def)
qed

theorem abandoned_call_ends_driver_witness:
  "snd (driver_events sample_ws_ext [Received (In_Text ''ok''), Received (In_Text ''event'')]
     \<lparr>wd_world = sample_world [2], wd_router = [(''q'', [(''b'', 2)])], wd_pending = [(''a'', SimpleRequest ''a'' ''req'' 1)]\<rparr>)
   = Some (Err RE_ChannelSend)"
  by (rule abandoned_call_ends_driver [where i = "''a''" and c = "SimpleRequest ''a'' ''req'' 1" and er = None])
    (simp_all add: sample_world_def sample_ws_ext_def)

end
