(* ===== verification/Tm_Signing.thy ===== *)
theory Tm_Signing
  imports Codec
begin

text \<open>
  \<open>tendermint/src/proposal.rs\<close> with the files below it, \<open>vote/sign_vote.rs\<close>, \<open>privval.rs\<close> and
  \<open>consensus/state.rs\<close>: proposals, the bytes a validator signs for them, the messages between a node and
  the signer that holds its key, and the state by which a signer orders what it has signed. The encoder of
  canonical proposals is an argument of the operations that use it.
\<close>

section \<open>Messages\<close>

record raw_proposal =
  rpr_type :: i32
  rpr_height :: i64
  rpr_round :: i32
  rpr_pol_round :: i32
  rpr_block_id :: "raw_block_id option"
  rpr_timestamp :: "raw_timestamp option"
  rpr_signature :: bytes

record raw_canonical_proposal =
  rcp_type :: i32
  rcp_height :: i64
  rcp_round :: i64
  rcp_pol_round :: i64
  rcp_block_id :: "raw_block_id option"
  rcp_timestamp :: "raw_timestamp option"
  rcp_chain_id :: string

record raw_remote_signer_error =
  rse_code :: i32
  rse_description :: string

record raw_sign_vote_request =
  rsv_vote :: "raw_vote option"
  rsv_chain_id :: string

record raw_signed_vote_response =
  rsvr_vote :: "raw_vote option"
  rsvr_error :: "raw_remote_signer_error option"

record raw_sign_proposal_request =
  rspr_proposal :: "raw_proposal option"
  rspr_chain_id :: string

record raw_signed_proposal_response =
  rspp_proposal :: "raw_proposal option"
  rspp_error :: "raw_remote_signer_error option"

section \<open>Proposals\<close>

datatype proposal_type = Proposal

fun proposal_type_into_i32 :: "proposal_type \<Rightarrow> i32" where
  "proposal_type_into_i32 Proposal = 32"

definition proposal_type_try_from :: "i32 \<Rightarrow> proposal_type tm_result" where
  "proposal_type_try_from v = (if v = 32 then Ok Proposal else Err E_InvalidMessageType)"

record proposal =
  prop_msg_type :: proposal_type
  prop_height :: height
  prop_round :: round
  prop_pol_round :: "round option"
  prop_block_id :: "block_id option"
  prop_timestamp :: "time option"
  prop_signature :: "signature option"

definition proposal_try_from :: "externals \<Rightarrow> raw_proposal \<Rightarrow> proposal tm_result" where
  "proposal_try_from X value =
     (if sint (rpr_pol_round value) < - 1 then Err E_NegativePolRound
      else
        and_then (if sint (rpr_pol_round value) = - 1 then Ok None
           else and_then (round_try_from_i32 (rpr_pol_round value)) (\<lambda>n. Ok (Some n)))
          (\<lambda>pol_round. and_then (proposal_type_try_from (rpr_type value))
          (\<lambda>msg_type. and_then (height_try_from_i64 (rpr_height value))
          (\<lambda>height. and_then (round_try_from_i32 (rpr_round value))
          (\<lambda>round. and_then (try_option block_id_try_from (rpr_block_id value))
          (\<lambda>block_id. and_then (try_option (time_try_from X) (rpr_timestamp value))
          (\<lambda>timestamp. and_then (signature_new (rpr_signature value))
          (\<lambda>signature.
             Ok \<lparr>prop_msg_type = msg_type, prop_height = height, prop_round = round, prop_pol_round = pol_round,
                 prop_block_id = block_id, prop_timestamp = timestamp, prop_signature = signature\<rparr>))))))))"

definition proposal_into_raw :: "proposal \<Rightarrow> raw_proposal" where
  "proposal_into_raw p =
     \<lparr>rpr_type = proposal_type_into_i32 (prop_msg_type p),
      rpr_height = height_into_i64 (prop_height p),
      rpr_round = round_into_i32 (prop_round p),
      rpr_pol_round = (case prop_pol_round p of None \<Rightarrow> - 1 | Some n \<Rightarrow> round_into_i32 n),
      rpr_block_id = map_option block_id_into_raw (prop_block_id p),
      rpr_timestamp = map_option time_into_timestamp (prop_timestamp p),
      rpr_signature = unwrap_or_default (prop_signature p)\<rparr>"

section \<open>Canonical proposals\<close>

record canonical_proposal =
  cp_msg_type :: proposal_type
  cp_height :: height
  cp_round :: round
  cp_pol_round :: "round option"
  cp_block_id :: "block_id option"
  cp_timestamp :: "time option"
  cp_chain_id :: chain_id

definition canonical_proposal_new :: "proposal \<Rightarrow> chain_id \<Rightarrow> canonical_proposal" where
  "canonical_proposal_new p c =
     \<lparr>cp_msg_type = prop_msg_type p, cp_height = prop_height p, cp_round = prop_round p,
      cp_pol_round = prop_pol_round p, cp_block_id = prop_block_id p, cp_timestamp = prop_timestamp p, cp_chain_id = c\<rparr>"

text \<open>\<open>i32::try_from\<close> of a 64-bit integer, and then the round.\<close>

definition round_try_from_i64 :: "i64 \<Rightarrow> round tm_result" where
  "round_try_from_i64 v =
     (if - (2 ^ 31) \<le> sint v \<and> sint v < 2 ^ 31 then round_try_from_i32 (ucast v) else Err E_IntegerOverflow)"

definition canonical_proposal_try_from :: "externals \<Rightarrow> raw_canonical_proposal \<Rightarrow> canonical_proposal tm_result" where
  "canonical_proposal_try_from X value =
     (if sint (rcp_pol_round value) < - 1 then Err E_NegativePolRound
      else
        let block_id = (case rcp_block_id value of
               Some i \<Rightarrow> if rbi_hash i \<noteq> [] then Some i else None | None \<Rightarrow> None) in
        and_then (round_try_from_i64 (rcp_round value))
          (\<lambda>round. and_then (if sint (rcp_pol_round value) = - 1 then Ok None
             else and_then (round_try_from_i64 (rcp_pol_round value)) (\<lambda>n. Ok (Some n)))
          (\<lambda>pol_round. and_then (proposal_type_try_from (rcp_type value))
          (\<lambda>msg_type. and_then (height_try_from_i64 (rcp_height value))
          (\<lambda>height. and_then (try_option block_id_try_from block_id)
          (\<lambda>b. and_then (try_option (time_try_from X) (rcp_timestamp value))
          (\<lambda>timestamp. case chain_id_try_from (rcp_chain_id value) of
               Ok chain_id \<Rightarrow>
                 Ok \<lparr>cp_msg_type = msg_type, cp_height = height, cp_round = round, cp_pol_round = pol_round,
                     cp_block_id = b, cp_timestamp = timestamp, cp_chain_id = chain_id\<rparr>
             | _ \<Rightarrow> Panic)))))))"

definition canonical_proposal_into_raw :: "canonical_proposal \<Rightarrow> raw_canonical_proposal" where
  "canonical_proposal_into_raw p =
     (let block_id = (case cp_block_id p of
               Some i \<Rightarrow> if i \<noteq> block_id_default then Some i else None | None \<Rightarrow> None) in
      \<lparr>rcp_type = proposal_type_into_i32 (cp_msg_type p),
       rcp_height = height_into_i64 (cp_height p),
       rcp_round = scast (round_into_i32 (cp_round p)),
       rcp_pol_round = (case cp_pol_round p of None \<Rightarrow> - 1 | Some n \<Rightarrow> scast (round_into_i32 n)),
       rcp_block_id = map_option block_id_into_canonical block_id,
       rcp_timestamp = map_option time_into_timestamp (cp_timestamp p),
       rcp_chain_id = cp_chain_id p\<rparr>)"

definition proposal_into_signable_vec :: "(raw_canonical_proposal \<Rightarrow> bytes) \<Rightarrow> proposal \<Rightarrow> chain_id \<Rightarrow> bytes" where
  "proposal_into_signable_vec encode p c = encode (canonical_proposal_into_raw (canonical_proposal_new p c))"

section \<open>Messages to and from the signer\<close>

record remote_signer_error =
  se_code :: i32
  se_description :: string

definition remote_signer_error_try_from :: "raw_remote_signer_error \<Rightarrow> remote_signer_error tm_result" where
  "remote_signer_error_try_from m = Ok \<lparr>se_code = rse_code m, se_description = rse_description m\<rparr>"

definition remote_signer_error_into_raw :: "remote_signer_error \<Rightarrow> raw_remote_signer_error" where
  "remote_signer_error_into_raw e = \<lparr>rse_code = se_code e, rse_description = se_description e\<rparr>"

record sign_vote_request =
  svq_vote :: vote
  svq_chain_id :: chain_id

definition sign_vote_into_signable_vec :: "externals \<Rightarrow> sign_vote_request \<Rightarrow> bytes" where
  "sign_vote_into_signable_vec X r = into_signable_vec X (svq_vote r) (svq_chain_id r)"

definition sign_vote_request_try_from :: "externals \<Rightarrow> raw_sign_vote_request \<Rightarrow> sign_vote_request tm_result" where
  "sign_vote_request_try_from X value =
     and_then (ok_or E_NoVoteFound (rsv_vote value)) (\<lambda>v.
     and_then (vote_try_from X v) (\<lambda>vote.
     and_then (chain_id_try_from (rsv_chain_id value)) (\<lambda>chain_id.
     Ok \<lparr>svq_vote = vote, svq_chain_id = chain_id\<rparr>)))"

definition sign_vote_request_into_raw :: "sign_vote_request \<Rightarrow> raw_sign_vote_request" where
  "sign_vote_request_into_raw r = \<lparr>rsv_vote = Some (vote_into_raw (svq_vote r)), rsv_chain_id = svq_chain_id r\<rparr>"

record signed_vote_response =
  svr_vote :: "vote option"
  svr_error :: "remote_signer_error option"

definition signed_vote_response_try_from :: "externals \<Rightarrow> raw_signed_vote_response \<Rightarrow> signed_vote_response tm_result" where
  "signed_vote_response_try_from X value =
     and_then (try_option (vote_try_from X) (rsvr_vote value)) (\<lambda>vote.
     and_then (try_option remote_signer_error_try_from (rsvr_error value)) (\<lambda>error.
     Ok \<lparr>svr_vote = vote, svr_error = error\<rparr>))"

definition signed_vote_response_into_raw :: "signed_vote_response \<Rightarrow> raw_signed_vote_response" where
  "signed_vote_response_into_raw r =
     \<lparr>rsvr_vote = map_option vote_into_raw (svr_vote r), rsvr_error = map_option remote_signer_error_into_raw (svr_error r)\<rparr>"

record sign_proposal_request =
  spq_proposal :: proposal
  spq_chain_id :: chain_id

definition sign_proposal_into_signable_vec :: "(raw_canonical_proposal \<Rightarrow> bytes) \<Rightarrow> sign_proposal_request \<Rightarrow> bytes" where
  "sign_proposal_into_signable_vec encode r = proposal_into_signable_vec encode (spq_proposal r) (spq_chain_id r)"

definition sign_proposal_request_try_from :: "externals \<Rightarrow> raw_sign_proposal_request \<Rightarrow> sign_proposal_request tm_result" where
  "sign_proposal_request_try_from X value =
     (case rspr_proposal value of
        None \<Rightarrow> Err E_NoProposalFound
      | Some p \<Rightarrow>
          and_then (proposal_try_from X p) (\<lambda>proposal.
            case chain_id_try_from (rspr_chain_id value) of
              Ok chain_id \<Rightarrow> Ok \<lparr>spq_proposal = proposal, spq_chain_id = chain_id\<rparr>
            | _ \<Rightarrow> Panic))"

definition sign_proposal_request_into_raw :: "sign_proposal_request \<Rightarrow> raw_sign_proposal_request" where
  "sign_proposal_request_into_raw r =
     \<lparr>rspr_proposal = Some (proposal_into_raw (spq_proposal r)), rspr_chain_id = spq_chain_id r\<rparr>"

record signed_proposal_response =
  spr_proposal :: "proposal option"
  spr_error :: "remote_signer_error option"

definition signed_proposal_response_try_from ::
  "externals \<Rightarrow> raw_signed_proposal_response \<Rightarrow> signed_proposal_response tm_result" where
  "signed_proposal_response_try_from X value =
     and_then (try_option (proposal_try_from X) (rspp_proposal value)) (\<lambda>proposal.
     and_then (try_option remote_signer_error_try_from (rspp_error value)) (\<lambda>error.
     Ok \<lparr>spr_proposal = proposal, spr_error = error\<rparr>))"

definition signed_proposal_response_into_raw :: "signed_proposal_response \<Rightarrow> raw_signed_proposal_response" where
  "signed_proposal_response_into_raw r =
     \<lparr>rspp_proposal = map_option proposal_into_raw (spr_proposal r),
      rspp_error = map_option remote_signer_error_into_raw (spr_error r)\<rparr>"

section \<open>The state of consensus\<close>

record consensus_state =
  csn_height :: height
  csn_round :: round
  csn_step :: "8 word"
  csn_block_id :: "block_id option"

datatype ordering = Less | Equal | Greater

definition cmp :: "'a :: linorder \<Rightarrow> 'a \<Rightarrow> ordering" where
  "cmp a b = (if a < b then Less else if a = b then Equal else Greater)"

definition state_cmp :: "consensus_state \<Rightarrow> consensus_state \<Rightarrow> ordering" where
  "state_cmp a b =
     (case cmp (csn_height a) (csn_height b) of
        Greater \<Rightarrow> Greater
      | Less \<Rightarrow> Less
      | Equal \<Rightarrow>
          (case cmp (csn_round a) (csn_round b) of
             Greater \<Rightarrow> Greater
           | Less \<Rightarrow> Less
           | Equal \<Rightarrow> cmp (sint (csn_step a)) (sint (csn_step b))))"

definition vote_consensus_state :: "vote \<Rightarrow> consensus_state" where
  "vote_consensus_state v =
     \<lparr>csn_height = vote_height v, csn_round = vote_round v, csn_step = 6, csn_block_id = vote_block_id v\<rparr>"

definition proposal_consensus_state :: "proposal \<Rightarrow> consensus_state" where
  "proposal_consensus_state p =
     \<lparr>csn_height = prop_height p, csn_round = prop_round p, csn_step = 3, csn_block_id = prop_block_id p\<rparr>"

section \<open>Proposals and the wire\<close>

text \<open>What comes off the wire, and that it survives the trip through its message.\<close>

definition proposal_inv :: "proposal \<Rightarrow> bool" where
  "proposal_inv p \<longleftrightarrow>
     fits_i64 (prop_height p) \<and> fits_i32 (prop_round p) \<and> pred_option fits_i32 (prop_pol_round p)
     \<and> pred_option block_id_inv (prop_block_id p) \<and> pred_option time_inv (prop_timestamp p)
     \<and> optional_signature_inv (prop_signature p)"

lemma fits_i32_sint: "fits_i32 (n :: u32) \<Longrightarrow> 0 \<le> sint n \<and> sint n = uint n"
proof -
  assume "fits_i32 n"
  then have "uint n < 2 ^ 31" by (simp add: fits_i32_def i32_max_def word_le_def)
  then have "sint n = uint n" by (simp add: sint_uint signed_take_bit_int_eq_self_iff)
      (meson order_trans uint_ge_0 neg_0_le_iff_le le_minus_one_simps(1) neg_le_0_iff_le zero_le_numeral)
  then show ?thesis by simp
qed

lemma proposal_type_trip [simp]: "proposal_type_try_from (proposal_type_into_i32 t) = Ok t"
  by (cases t) (simp add: proposal_type_try_from_def)

lemma proposal_roundtrip:
  assumes "time_crate X" "proposal_inv p"
  shows "proposal_try_from X (proposal_into_raw p) = Ok p"
proof -
  have "try_option block_id_try_from (map_option block_id_into_raw (prop_block_id p)) = Ok (prop_block_id p)"
    "try_option (time_try_from X) (map_option time_into_timestamp (prop_timestamp p)) = Ok (prop_timestamp p)"
    using assms block_id_codec.option_roundtrip time_codec.option_roundtrip by (auto simp: proposal_inv_def)
  then show ?thesis
    using assms(2) fits_i32_sint [of "the (prop_pol_round p)"]
    by (cases "prop_pol_round p") (auto simp: proposal_try_from_def proposal_into_raw_def proposal_inv_def scalar_into_defs
        height_try_from_i64_def round_try_from_i32_def signature_option_roundtrip)
qed

lemma proposal_try_from_inv:
  assumes "time_crate X" "proposal_try_from X r = Ok p"
  shows "proposal_inv p"
  using assms block_id_codec.option_dec_inv time_codec.option_dec_inv [OF assms(1)]
  by (auto simp: proposal_try_from_def proposal_inv_def optional_signature_inv_def result_simps
      height_try_from_i64_def round_try_from_i32_def signature_new_Ok split: if_splits)

interpretation proposal_codec: codec "time_crate X" "proposal_try_from X" proposal_into_raw proposal_inv for X
  by unfold_locales (erule (1) proposal_roundtrip, erule (1) proposal_try_from_inv)

interpretation signer_error_codec: codec True remote_signer_error_try_from remote_signer_error_into_raw "\<lambda>_. True"
  by unfold_locales (simp_all add: remote_signer_error_try_from_def remote_signer_error_into_raw_def)

lemma chain_id_unwrap:
  "(case chain_id_try_from s of Ok c \<Rightarrow> f c | Err e \<Rightarrow> Panic | Panic \<Rightarrow> Panic) = (if chain_id_inv s then f s else Panic)"
  by (simp add: chain_id_try_from_def chain_id_inv_def)

definition sign_vote_request_inv :: "sign_vote_request \<Rightarrow> bool" where
  "sign_vote_request_inv r \<longleftrightarrow> vote_inv (svq_vote r) \<and> chain_id_inv (svq_chain_id r)"

definition sign_proposal_request_inv :: "sign_proposal_request \<Rightarrow> bool" where
  "sign_proposal_request_inv r \<longleftrightarrow> proposal_inv (spq_proposal r) \<and> chain_id_inv (spq_chain_id r)"

interpretation sign_vote_codec:
  codec "time_crate X" "sign_vote_request_try_from X" sign_vote_request_into_raw sign_vote_request_inv for X
  by unfold_locales
    (auto simp: sign_vote_request_try_from_def sign_vote_request_into_raw_def sign_vote_request_inv_def result_simps
      vote_codec.roundtrip dest: vote_codec.dec_inv)

interpretation sign_proposal_codec:
  codec "time_crate X" "sign_proposal_request_try_from X" sign_proposal_request_into_raw sign_proposal_request_inv for X
  by unfold_locales
    (auto simp: sign_proposal_request_try_from_def sign_proposal_request_into_raw_def sign_proposal_request_inv_def result_simps
      chain_id_unwrap proposal_codec.roundtrip dest: proposal_codec.dec_inv split: option.splits if_splits)

interpretation signed_vote_codec:
  codec "time_crate X" "signed_vote_response_try_from X" signed_vote_response_into_raw "\<lambda>r. pred_option vote_inv (svr_vote r)" for X
  by unfold_locales
    (auto simp: signed_vote_response_try_from_def signed_vote_response_into_raw_def result_simps
      vote_codec.option_roundtrip signer_error_codec.option_roundtrip option.pred_True dest: vote_codec.option_dec_inv)

interpretation signed_proposal_codec:
  codec "time_crate X" "signed_proposal_response_try_from X" signed_proposal_response_into_raw
    "\<lambda>r. pred_option proposal_inv (spr_proposal r)" for X
  by unfold_locales
    (auto simp: signed_proposal_response_try_from_def signed_proposal_response_into_raw_def result_simps
      proposal_codec.option_roundtrip signer_error_codec.option_roundtrip option.pred_True dest: proposal_codec.option_dec_inv)

section \<open>Canonical proposals and the wire\<close>

definition canonical_proposal_inv :: "canonical_proposal \<Rightarrow> bool" where
  "canonical_proposal_inv p \<longleftrightarrow>
     fits_i64 (cp_height p) \<and> fits_i32 (cp_round p) \<and> pred_option fits_i32 (cp_pol_round p)
     \<and> (\<forall>b. cp_block_id p = Some b \<longrightarrow> block_id_inv b \<and> bid_hash b \<noteq> HashNone)
     \<and> pred_option time_inv (cp_timestamp p) \<and> chain_id_inv (cp_chain_id p)"

lemma sint_scast_i32 [simp]: "sint (scast (r :: u32) :: u64) = sint r"
  by (simp add: sint_up_scast is_up)

lemma ucast_scast_i32 [simp]: "ucast (scast (r :: u32) :: u64) = r"
  by (rule bit_word_eqI) (simp add: bit_simps)

lemma ucast_ucast_i32 [simp]: "ucast (ucast (r :: u32) :: u64) = r"
  by (rule bit_word_eqI) (simp add: bit_simps)

lemma round_i64_trip: "fits_i32 r \<Longrightarrow> round_try_from_i64 (scast r) = Ok r"
  using fits_i32_sint [of r] sint_lt [of r] sint_ge [of r] by (simp add: round_try_from_i64_def round_try_from_i32_def)

lemma round_i64_Ok: "round_try_from_i64 v = Ok r \<Longrightarrow> fits_i32 r"
  by (auto simp: round_try_from_i64_def round_try_from_i32_def split: if_splits)

lemma canonical_block_id_trip:
  assumes "\<And>b. v = Some b \<Longrightarrow> block_id_inv b \<and> bid_hash b \<noteq> HashNone"
  shows "try_option block_id_try_from
      (case map_option block_id_into_canonical
         (case v of Some i \<Rightarrow> if i \<noteq> block_id_default then Some i else None | None \<Rightarrow> None) of
       Some i \<Rightarrow> if rbi_hash i \<noteq> [] then Some i else None | None \<Rightarrow> None) = Ok v"
proof (cases v)
  case (Some b)
  then have b: "block_id_inv b" "bid_hash b \<noteq> HashNone" using assms by auto
  then have "b \<noteq> block_id_default" "rbi_hash (block_id_into_canonical b) \<noteq> []"
    by (cases "bid_hash b"; auto simp: block_id_default_def block_id_into_canonical_def block_id_inv_def sha256_hash_size_def)+
  with Some b show ?thesis using block_id_roundtrip [of b] by (simp add: block_id_into_raw_eq)
qed simp

lemma canonical_proposal_roundtrip:
  assumes "time_crate X" "canonical_proposal_inv p"
  shows "canonical_proposal_try_from X (canonical_proposal_into_raw p) = Ok p"
proof -
  have "try_option (time_try_from X) (map_option time_into_timestamp (cp_timestamp p)) = Ok (cp_timestamp p)"
    using assms time_codec.option_roundtrip by (auto simp: canonical_proposal_inv_def)
  then show ?thesis
    using assms(2) canonical_block_id_trip [of "cp_block_id p"] fits_i32_sint [of "the (cp_pol_round p)"]
    by (cases "cp_pol_round p") (auto simp: canonical_proposal_try_from_def canonical_proposal_into_raw_def Let_def
        canonical_proposal_inv_def scalar_into_defs height_try_from_i64_def round_i64_trip chain_id_unwrap)
qed

lemma canonical_proposal_try_from_inv:
  assumes "time_crate X" "canonical_proposal_try_from X r = Ok p"
  shows "canonical_proposal_inv p"
proof -
  have "block_id_inv b \<and> bid_hash b \<noteq> HashNone"
    if "block_id_try_from i = Ok b" "rbi_hash i \<noteq> []" for i b
    using that block_id_try_from_inv [OF that(1)]
    by (auto simp: block_id_try_from_def result_simps hash_try_from_vec_Ok split: option.splits)
  then show ?thesis using assms time_codec.option_dec_inv [OF assms(1)]
    by (auto simp: canonical_proposal_try_from_def canonical_proposal_inv_def Let_def result_simps chain_id_unwrap
        height_try_from_i64_def dest: round_i64_Ok split: if_splits option.splits)
qed

interpretation canonical_proposal_codec:
  codec "time_crate X" "canonical_proposal_try_from X" canonical_proposal_into_raw canonical_proposal_inv for X
  by unfold_locales (erule (1) canonical_proposal_roundtrip, erule (1) canonical_proposal_try_from_inv)

section \<open>What the sign bytes bind\<close>

definition without_default :: "block_id option \<Rightarrow> block_id option" where
  "without_default b = (if b = Some block_id_default then None else b)"

lemma without_default_case:
  "(case b of Some i \<Rightarrow> if i \<noteq> block_id_default then Some i else None | None \<Rightarrow> None) = without_default b"
  by (auto simp: without_default_def split: option.splits)

lemma canonical_block_id_inj:
  assumes "pred_option block_id_inv a" "pred_option block_id_inv b"
    and "map_option block_id_into_canonical a = map_option block_id_into_canonical b"
  shows "a = b"
  using assms block_id_codec.enc_inj by (cases a; cases b) (auto simp: block_id_into_raw_eq)

lemma timestamp_inj:
  assumes "time_crate X" "pred_option time_inv a" "pred_option time_inv b"
    and "map_option time_into_timestamp a = map_option time_into_timestamp b"
  shows "a = b"
  using assms time_codec.enc_inj [OF assms(1)] by (cases a; cases b) auto

lemma canonical_vote_inj:
  assumes "time_crate X" "vote_inv v" "vote_inv v'"
    and "canonical_vote_into_raw (canonical_vote_new v c) = canonical_vote_into_raw (canonical_vote_new v' c')"
  shows "canonical_vote_new v c = canonical_vote_new v' c'"
proof -
  have b: "without_default (vote_block_id w) = vote_block_id w" "pred_option block_id_inv (vote_block_id w)"
    "pred_option time_inv (vote_timestamp w)" if "vote_inv w" for w
    using that by (auto simp: vote_inv_def without_default_def option.pred_set)
  have t: "vote_type_into_i32 a = vote_type_into_i32 b \<Longrightarrow> a = b" for a b by (cases a; cases b) simp_all
  have u: "(ucast x :: u64) = ucast y \<Longrightarrow> x = y" for x y :: u32 by (drule arg_cong [of _ _ "ucast :: u64 \<Rightarrow> u32"]) simp
  show ?thesis
    using assms(4) b [OF assms(2)] b [OF assms(3)] timestamp_inj [OF assms(1), of "vote_timestamp v" "vote_timestamp v'"]
      canonical_block_id_inj [of "vote_block_id v" "vote_block_id v'"]
    by (auto simp: canonical_vote_into_raw_def canonical_vote_new_def Let_def without_default_case scalar_into_defs dest: t u)
qed

text \<open>What a proposal signs: its canonical form, with the default block taken for none.\<close>

definition signed_content :: "proposal \<Rightarrow> chain_id \<Rightarrow> canonical_proposal" where
  "signed_content p c = canonical_proposal_new (p\<lparr>prop_block_id := without_default (prop_block_id p)\<rparr>) c"

lemma canonical_proposal_into_raw_content:
  "canonical_proposal_into_raw (canonical_proposal_new p c) = canonical_proposal_into_raw (signed_content p c)"
  by (simp add: canonical_proposal_into_raw_def canonical_proposal_new_def signed_content_def without_default_def
      split: option.splits)

lemma canonical_proposal_inj:
  assumes "time_crate X" "proposal_inv p" "proposal_inv p'"
    and "canonical_proposal_into_raw (canonical_proposal_new p c) = canonical_proposal_into_raw (canonical_proposal_new p' c')"
  shows "signed_content p c = signed_content p' c'"
proof -
  have b: "pred_option block_id_inv (without_default (prop_block_id w))" "pred_option time_inv (prop_timestamp w)"
    if "proposal_inv w" for w using that by (auto simp: proposal_inv_def without_default_def)
  have s: "(scast x :: u64) = scast y \<Longrightarrow> x = y" for x y :: u32 by (drule arg_cong [of _ _ "ucast :: u64 \<Rightarrow> u32"]) simp
  have n: "(scast x :: u64) \<noteq> - 1" if "fits_i32 x" for x :: u32
  proof
    assume "(scast x :: u64) = - 1"
    then have "sint (scast x :: u64) = - 1" by simp
    then show False using fits_i32_sint [OF that] by simp
  qed
  have pol: "prop_pol_round p = prop_pol_round p'"
    using assms(2-4) n n [symmetric]
    by (auto simp: canonical_proposal_into_raw_def canonical_proposal_new_def Let_def scalar_into_defs proposal_inv_def
        dest!: s split: option.splits)
  show ?thesis
    using assms(4) pol b [OF assms(2)] b [OF assms(3)] timestamp_inj [OF assms(1), of "prop_timestamp p" "prop_timestamp p'"]
      canonical_block_id_inj [of "without_default (prop_block_id p)" "without_default (prop_block_id p')"]
    by (cases "prop_msg_type p"; cases "prop_msg_type p'")
      (auto simp: canonical_proposal_into_raw_def canonical_proposal_new_def signed_content_def Let_def without_default_case
        scalar_into_defs dest: s)
qed

lemma canonical_proposal_raw_eq_iff:
  assumes "time_crate X" "proposal_inv p" "proposal_inv p'"
  shows "canonical_proposal_into_raw (canonical_proposal_new p c) = canonical_proposal_into_raw (canonical_proposal_new p' c')
    \<longleftrightarrow> signed_content p c = signed_content p' c'"
  using canonical_proposal_inj [OF assms] canonical_proposal_into_raw_content by metis

section \<open>No panics\<close>

lemma try_option_neq_Panic: "(\<And>a. f a \<noteq> Panic) \<Longrightarrow> try_option f v \<noteq> Panic"
  by (cases v) (auto simp: result_simps)

lemma scalar_neq_Panic [simp]:
  "height_try_from_i64 h \<noteq> Panic" "round_try_from_i32 r \<noteq> Panic" "validator_index_try_from_i32 i \<noteq> Panic"
  "account_id_try_from a \<noteq> Panic" "signature_new s \<noteq> Panic" "chain_id_try_from c \<noteq> Panic"
  "vote_type_try_from t \<noteq> Panic" "proposal_type_try_from t \<noteq> Panic"
  by (auto simp: height_try_from_i64_def round_try_from_i32_def validator_index_try_from_i32_def account_id_try_from_def
      signature_new_def chain_id_try_from_def vote_type_try_from_def proposal_type_try_from_def result_simps split: if_splits)

lemma time_try_from_neq_Panic [simp]: "time_try_from X t \<noteq> Panic"
  by (auto simp: time_try_from_def from_unix_timestamp_def time_from_utc_def split: option.splits if_splits)

lemma block_id_try_from_neq_Panic [simp]: "block_id_try_from b \<noteq> Panic"
  by (auto simp: block_id_try_from_def part_set_header_try_from_def part_set_header_new_def hash_from_bytes_def result_simps split: option.splits if_splits)

lemma vote_try_from_neq_Panic: "vote_try_from X r \<noteq> Panic"
  by (auto simp: vote_try_from_def last_block_id_try_from_def result_simps try_option_neq_Panic split: if_splits)

lemma proposal_try_from_neq_Panic: "proposal_try_from X r \<noteq> Panic"
  by (auto simp: proposal_try_from_def result_simps try_option_neq_Panic split: if_splits)

lemma sign_vote_request_neq_Panic: "sign_vote_request_try_from X m \<noteq> Panic"
  by (cases "rsv_vote m") (auto simp: sign_vote_request_try_from_def result_simps vote_try_from_neq_Panic)

lemma sign_proposal_request_Panic_iff:
  "sign_proposal_request_try_from X m = Panic \<longleftrightarrow>
     (\<exists>raw p. rspr_proposal m = Some raw \<and> proposal_try_from X raw = Ok p) \<and> \<not> chain_id_inv (rspr_chain_id m)"
  by (auto simp: sign_proposal_request_try_from_def chain_id_unwrap result_simps proposal_try_from_neq_Panic
      split: option.splits if_splits)

section \<open>The order of states\<close>

text \<open>
  The comparison is the lexicographic one of height, round and step, so it is total and transitive; two
  states that differ in the block only compare as equal.
\<close>

lemma state_cmp_lex:
  "state_cmp a b = Less \<longleftrightarrow> csn_height a < csn_height b
     \<or> csn_height a = csn_height b \<and> (csn_round a < csn_round b
        \<or> csn_round a = csn_round b \<and> sint (csn_step a) < sint (csn_step b))"
  "state_cmp a b = Equal \<longleftrightarrow> csn_height a = csn_height b \<and> csn_round a = csn_round b \<and> csn_step a = csn_step b"
  "state_cmp a b = Greater \<longleftrightarrow> state_cmp b a = Less"
  by (auto simp: state_cmp_def cmp_def signed_word_eqI split: ordering.splits if_splits)

lemma state_cmp_trans: "state_cmp a b = Less \<Longrightarrow> state_cmp b c = Less \<Longrightarrow> state_cmp a c = Less"
  by (auto simp: state_cmp_lex)

lemma proposal_before_vote:
  assumes "prop_height p = vote_height v" "prop_round p = vote_round v"
  shows "state_cmp (proposal_consensus_state p) (vote_consensus_state v) = Less"
  using assms by (simp add: state_cmp_lex proposal_consensus_state_def vote_consensus_state_def)

end
