(* ===== verification/Signing_Properties.thy ===== *)
theory Signing_Properties
  imports Tm_Signing Data_Properties
begin

text \<open>
  The properties of what validators sign and of the messages to their signers.
\<close>

section \<open>Sign bytes\<close>

lemma inj_on_pair_iff: "inj_on f (g ` {a, b}) \<Longrightarrow> f (g a) = f (g b) \<longleftrightarrow> g a = g b"
  by (metis imageI inj_onD insertI1 insert_iff)

lemma signed_content_eq_iff:
  "signed_content p c = signed_content q d \<longleftrightarrow>
     c = d \<and> prop_height p = prop_height q \<and> prop_round p = prop_round q \<and> prop_pol_round p = prop_pol_round q
     \<and> without_default (prop_block_id p) = without_default (prop_block_id q) \<and> prop_timestamp p = prop_timestamp q"
  by (cases "prop_msg_type p"; cases "prop_msg_type q") (auto simp: signed_content_def canonical_proposal_new_def)

lemma canonical_vote_new_eq_iff:
  "canonical_vote_new v c = canonical_vote_new w d \<longleftrightarrow>
     c = d \<and> vote_vote_type v = vote_vote_type w \<and> vote_height v = vote_height w \<and> vote_round v = vote_round w
     \<and> vote_block_id v = vote_block_id w \<and> vote_timestamp v = vote_timestamp w"
  by (auto simp: canonical_vote_new_def)

text \<open>
  C38. The bytes a signer signs bind a vote and a proposal to the chain. For two requests off the wire, when
  the encoder keeps the canonical messages apart, the bytes are equal exactly when the
  requests agree on the type, the height, the round, the block, the time and the chain, and
  for a proposal on the proof-of-lock round. Who signs, with which index, signature or extension, plays no part,
  and a proposal of the default block signs as one without a block. Block ids are told apart as a whole: one
  with an empty hash that is not the default, having other parts, signs as a block of its own, although the
  documentation of block ids says that an empty hash is encoded as no block.
\<close>

theorem sign_bytes_bind:
  assumes "time_crate X"
    and "sign_vote_request_try_from X mv = Ok v" "sign_vote_request_try_from X mw = Ok w"
    and "inj_on (x_enc_canonical_vote_delimited X)
      ((\<lambda>r. canonical_vote_into_raw (canonical_vote_new (svq_vote r) (svq_chain_id r))) ` {v, w})"
    and "sign_proposal_request_try_from X mp = Ok p" "sign_proposal_request_try_from X mq = Ok q"
    and "inj_on encode
      ((\<lambda>r. canonical_proposal_into_raw (canonical_proposal_new (spq_proposal r) (spq_chain_id r))) ` {p, q})"
  shows "(sign_vote_into_signable_vec X v = sign_vote_into_signable_vec X w \<longleftrightarrow>
      svq_chain_id v = svq_chain_id w
      \<and> vote_vote_type (svq_vote v) = vote_vote_type (svq_vote w)
      \<and> vote_height (svq_vote v) = vote_height (svq_vote w) \<and> vote_round (svq_vote v) = vote_round (svq_vote w)
      \<and> vote_block_id (svq_vote v) = vote_block_id (svq_vote w)
      \<and> vote_timestamp (svq_vote v) = vote_timestamp (svq_vote w))
    \<and> (sign_proposal_into_signable_vec encode p = sign_proposal_into_signable_vec encode q \<longleftrightarrow>
      spq_chain_id p = spq_chain_id q
      \<and> prop_height (spq_proposal p) = prop_height (spq_proposal q)
      \<and> prop_round (spq_proposal p) = prop_round (spq_proposal q)
      \<and> prop_pol_round (spq_proposal p) = prop_pol_round (spq_proposal q)
      \<and> without_default (prop_block_id (spq_proposal p)) = without_default (prop_block_id (spq_proposal q))
      \<and> prop_timestamp (spq_proposal p) = prop_timestamp (spq_proposal q))"
proof -
  have vw: "sign_vote_request_inv v" "sign_vote_request_inv w" and pq: "sign_proposal_request_inv p" "sign_proposal_request_inv q"
    using sign_vote_codec.dec_inv [OF assms(1)] sign_proposal_codec.dec_inv [OF assms(1)] assms by blast+
  have "sign_vote_into_signable_vec X v = sign_vote_into_signable_vec X w \<longleftrightarrow>
      canonical_vote_into_raw (canonical_vote_new (svq_vote v) (svq_chain_id v))
      = canonical_vote_into_raw (canonical_vote_new (svq_vote w) (svq_chain_id w))"
    unfolding sign_vote_into_signable_vec_def into_signable_vec_def using inj_on_pair_iff [OF assms(4)] by simp
  moreover have "\<dots> \<longleftrightarrow> canonical_vote_new (svq_vote v) (svq_chain_id v) = canonical_vote_new (svq_vote w) (svq_chain_id w)"
    using vw canonical_vote_inj [OF assms(1)] unfolding sign_vote_request_inv_def by metis
  moreover have "sign_proposal_into_signable_vec encode p = sign_proposal_into_signable_vec encode q \<longleftrightarrow>
      canonical_proposal_into_raw (canonical_proposal_new (spq_proposal p) (spq_chain_id p))
      = canonical_proposal_into_raw (canonical_proposal_new (spq_proposal q) (spq_chain_id q))"
    unfolding sign_proposal_into_signable_vec_def proposal_into_signable_vec_def using inj_on_pair_iff [OF assms(7)] by simp
  moreover have "\<dots> \<longleftrightarrow> signed_content (spq_proposal p) (spq_chain_id p) = signed_content (spq_proposal q) (spq_chain_id q)"
    using pq canonical_proposal_raw_eq_iff [OF assms(1)] unfolding sign_proposal_request_inv_def by blast
  ultimately show ?thesis unfolding canonical_vote_new_eq_iff signed_content_eq_iff by blast
qed

definition sample_vote_request :: "signature option \<Rightarrow> sign_vote_request" where
  "sample_vote_request s = \<lparr>svq_vote = sample_vote\<lparr>vote_signature := s\<rparr>, svq_chain_id = ''chain''\<rparr>"

definition sample_proposal_request :: "round \<Rightarrow> sign_proposal_request" where
  "sample_proposal_request n =
     \<lparr>spq_proposal = \<lparr>prop_msg_type = Proposal, prop_height = 3, prop_round = n, prop_pol_round = None,
        prop_block_id = Some block_id_default, prop_timestamp = Some (sample_time 3), prop_signature = None\<rparr>,
      spq_chain_id = ''chain''\<rparr>"

lemma sample_signer_chain: "chain_id_inv ''chain''"
  by code_simp

lemma sample_vote_request_inv:
  "sign_vote_request_inv (sample_vote_request None)"
  "sign_vote_request_inv (sample_vote_request (Some (replicate 64 1)))"
  using sample_vote_inv sample_signer_chain
  by (auto simp: sign_vote_request_inv_def sample_vote_request_def vote_inv_def optional_signature_inv_def signature_inv_def
      signature_length_def)

lemma sample_proposal_request_inv: "fits_i32 n \<Longrightarrow> sign_proposal_request_inv (sample_proposal_request n)"
  using sample_signer_chain
  by (simp add: sign_proposal_request_inv_def sample_proposal_request_def proposal_inv_def block_id_inv_def part_set_header_inv_def
      block_id_default_def optional_signature_inv_def fits_i64_def i64_max_def sample_time_inv)

theorem sign_bytes_bind_witness:
  "sign_vote_into_signable_vec sample_externals (sample_vote_request None)
     = sign_vote_into_signable_vec sample_externals (sample_vote_request (Some (replicate 64 1)))
   \<and> sign_proposal_into_signable_vec (\<lambda>m. [ucast (rcp_round m)]) (sample_proposal_request 0)
     \<noteq> sign_proposal_into_signable_vec (\<lambda>m. [ucast (rcp_round m)]) (sample_proposal_request 1)"
proof -
  have r: "fits_i32 (0 :: round)" "fits_i32 (1 :: round)" by (simp_all add: fits_i32_def i32_max_def)
  have i: "inj_on (x_enc_canonical_vote_delimited sample_externals)
      ((\<lambda>r. canonical_vote_into_raw (canonical_vote_new (svq_vote r) (svq_chain_id r)))
        ` {sample_vote_request None, sample_vote_request (Some (replicate 64 1))})"
    by (simp add: sample_vote_request_def canonical_vote_new_def)
  have j: "inj_on (\<lambda>m. [ucast (rcp_round m)] :: bytes)
      ((\<lambda>r. canonical_proposal_into_raw (canonical_proposal_new (spq_proposal r) (spq_chain_id r)))
        ` {sample_proposal_request 0, sample_proposal_request 1})"
    by (simp add: sample_proposal_request_def canonical_proposal_new_def canonical_proposal_into_raw_def scalar_into_defs)
  show ?thesis
    using sign_bytes_bind [OF sample_externals_time
        sign_vote_codec.roundtrip [OF sample_externals_time sample_vote_request_inv(1)]
        sign_vote_codec.roundtrip [OF sample_externals_time sample_vote_request_inv(2)] i
        sign_proposal_codec.roundtrip [OF sample_externals_time sample_proposal_request_inv [OF r(1)]]
        sign_proposal_codec.roundtrip [OF sample_externals_time sample_proposal_request_inv [OF r(2)]] j]
    by (simp add: sample_vote_request_def sample_proposal_request_def)
qed

section \<open>Requests to the signer\<close>

text \<open>
  C40. Requests to the signer and the wire: a request is exactly as its message decodes, and survives the
  trip back. No message makes the decoder of vote requests panic; the decoder of proposal requests panics
  exactly on a well-formed proposal that comes with an ill-formed chain identifier, where the one of
  vote requests returns an error.
\<close>

theorem signer_requests:
  assumes "time_crate X"
  shows "(sign_vote_request_inv r \<longleftrightarrow> (\<exists>m. sign_vote_request_try_from X m = Ok r))
    \<and> (sign_vote_request_inv r \<longrightarrow> sign_vote_request_try_from X (sign_vote_request_into_raw r) = Ok r)
    \<and> (sign_proposal_request_inv q \<longleftrightarrow> (\<exists>m. sign_proposal_request_try_from X m = Ok q))
    \<and> (sign_proposal_request_inv q \<longrightarrow> sign_proposal_request_try_from X (sign_proposal_request_into_raw q) = Ok q)
    \<and> sign_vote_request_try_from X mv \<noteq> Panic
    \<and> (sign_proposal_request_try_from X mp = Panic \<longleftrightarrow>
        (\<exists>raw p. rspr_proposal mp = Some raw \<and> proposal_try_from X raw = Ok p) \<and> \<not> chain_id_inv (rspr_chain_id mp))"
  using sign_vote_codec.inv_iff [OF assms, of r] sign_vote_codec.roundtrip [OF assms, of r]
    sign_proposal_codec.inv_iff [OF assms, of q] sign_proposal_codec.roundtrip [OF assms, of q]
    sign_vote_request_neq_Panic [of X mv] sign_proposal_request_Panic_iff [of X mp] by blast

theorem signer_requests_witness:
  "sign_vote_request_try_from sample_externals (sign_vote_request_into_raw (sample_vote_request None))
     = Ok (sample_vote_request None)
   \<and> sign_proposal_request_try_from sample_externals (sign_proposal_request_into_raw (sample_proposal_request 0))
     = Ok (sample_proposal_request 0)
   \<and> sign_proposal_request_try_from sample_externals
       ((sign_proposal_request_into_raw (sample_proposal_request 0))\<lparr>rspr_chain_id := []\<rparr>) = Panic"
proof -
  have p: "sign_proposal_request_inv (sample_proposal_request 0)"
    by (rule sample_proposal_request_inv) (simp add: fits_i32_def i32_max_def)
  have "proposal_try_from sample_externals (proposal_into_raw (spq_proposal (sample_proposal_request 0)))
      = Ok (spq_proposal (sample_proposal_request 0))"
    using p proposal_codec.roundtrip [OF sample_externals_time] by (simp add: sign_proposal_request_inv_def)
  moreover have "\<not> chain_id_inv []" by (simp add: chain_id_inv_def)
  ultimately show ?thesis
    using signer_requests [OF sample_externals_time, of "sample_vote_request None" "sample_proposal_request 0" _
        "(sign_proposal_request_into_raw (sample_proposal_request 0))\<lparr>rspr_chain_id := []\<rparr>"] p sample_vote_request_inv(1)
    by (auto simp: sign_proposal_request_into_raw_def)
qed

end
