(* ===== verification/Spec2Isabelle.thy ===== *)
theory Spec2Isabelle
  imports Verifier_Properties Client_Properties Store_Properties Detector_Properties Data_Properties Setup_Properties
    P2p_Properties Abci_Properties Rpc_Properties Signing_Properties
begin

text \<open>
  A verification library for \<open>tendermint-rs\<close>: the light client and the data types it is built on, the encrypted
  connection between peers, the interface to applications, and the query language and event connection of the
  RPC client.

  \<^bold>\<open>The program.\<close> A light client follows a blockchain without executing it. It starts from one light block it
  is told to trust and asks a full node, its peer, for later ones. The verifier judges an untrusted block
  against a trusted one from signatures and validator sets; the scheduler picks the next height when a block
  cannot be reached from the trusted one in one step; the store keeps blocks with their status; the detector
  compares the result with a second node, the witness, and makes evidence when the two differ. The
  blocks, commits, validator sets, votes, hashes and dates come from the crate \<open>tendermint\<close>, and reach it as
  Protobuf messages.

  Beside it stand three crates for the other connections of a node. \<open>p2p\<close> sets up an authenticated and encrypted
  connection between two peers. \<open>abci\<close> connects a node to its application: requests and responses framed on a
  stream, a server that dispatches them to an application, a blocking client, and a key/value application
  whose state lives in a driver that executes commands from a channel. \<open>rpc\<close> has the language of event queries,
  and a driver that multiplexes requests and event subscriptions over one WebSocket connection.

  \<^bold>\<open>Theories and sources\<close> (paths below \<open>src/\<close>).
  \<^item> \<open>Prelude\<close>: outcomes of Rust calls, machine integers at their width, the containers and iterator
    adaptors of the standard library. \<open>Decimal\<close>: printing and parsing of integers. \<open>Externals\<close>: third-party
    code as one record of functions, with named laws for what the code relies on.
  \<^item> \<open>Proto\<close>: the message structs of \<open>proto/src/prost/v0_38\<close>. \<open>Codec\<close>: the contract of the trait \<open>Protobuf\<close> as
    a locale, interpreted on every pair of conversions below.
  \<^item> \<open>Tm_Scalars\<close>, \<open>Tm_Time\<close>, \<open>Merkle\<close>, \<open>Tm_Validator\<close>, \<open>Tm_Block\<close>, \<open>Tm_Vote\<close>, \<open>Tm_Evidence\<close>,
    \<open>Trust_Threshold\<close>: \<open>tendermint/src\<close>, one definition per constructor, operation and conversion
    (\<open>height.rs\<close>, \<open>hash.rs\<close>, \<open>time.rs\<close>, \<open>merkle.rs\<close>, \<open>validator.rs\<close>, \<open>block/\<close>, \<open>vote.rs\<close>, \<open>evidence.rs\<close>, ...).
  \<^item> \<open>Tm_Signing\<close>: \<open>proposal.rs\<close>, \<open>proposal/\<close>, \<open>vote/sign_vote.rs\<close>, \<open>privval.rs\<close> and \<open>consensus/state.rs\<close> of the same
    crate: proposals, the bytes validators sign, the messages to and from a remote signer, and the state that orders
    what was signed.
  \<^item> \<open>Verifier_Types\<close>, \<open>Voting_Power\<close>, \<open>Verifier\<close>: \<open>light-client-verifier/src\<close>; \<open>verify_update_header\<close> is
    \<open>PredicateVerifier::verify_update_header\<close> with every predicate, and the tally with its cache of checked
    signatures. The lemmas are in \<open>Voting_Power_Lemmas\<close> and \<open>Verifier_Lemmas\<close>.
  \<^item> \<open>Light_Store\<close>, \<open>Scheduler\<close>, \<open>Light_Client\<close>, \<open>Builder\<close>, \<open>Prod_Io\<close>: \<open>light-client/src\<close> (\<open>store.rs\<close>,
    \<open>store/memory.rs\<close>, \<open>components/scheduler.rs\<close>, \<open>light_client.rs\<close>, \<open>state.rs\<close>, \<open>contracts.rs\<close>, \<open>instance.rs\<close>,
    \<open>builder/light_client.rs\<close>, \<open>components/io.rs\<close>). The lemmas are in \<open>Light_Client_Lemmas\<close> and
    \<open>Trace_Lemmas\<close>.
  \<^item> \<open>Detector\<close>, \<open>Detector_Lemmas\<close>: \<open>light-client-detector/src\<close>.
  \<^item> \<open>Secret_Connection\<close>, \<open>Secret_Connection_Lemmas\<close>: \<open>p2p/src/secret_connection.rs\<close> and the files below it; \<open>got_key\<close>,
    \<open>got_signature\<close> and \<open>secret_connection_new\<close> are the handshake, \<open>encrypt_and_write\<close> and \<open>read_and_decrypt\<close> the frames.
  \<^item> \<open>Abci_Codec\<close>, \<open>Abci_Messages\<close>, \<open>Abci_App\<close>, \<open>Kvstore\<close>, \<open>Abci_Server\<close>: \<open>abci/src\<close> (\<open>codec.rs\<close>, \<open>application.rs\<close>,
    \<open>application/kvstore.rs\<close>, \<open>server.rs\<close>, \<open>client.rs\<close>) and the messages of version 0.38. The lemmas are in
    \<open>Abci_Codec_Lemmas\<close>, \<open>Kvstore_Lemmas\<close> and \<open>Abci_Server_Lemmas\<close>.
  \<^item> \<open>Rpc_Query\<close>: \<open>rpc/src/query.rs\<close>, the grammar rule by rule over parser combinators. \<open>Rpc_Websocket\<close>:
    \<open>rpc/src/client/transport/router.rs\<close> and the driver of \<open>websocket.rs\<close>. The lemmas are in \<open>Rpc_Query_Lemmas\<close> and
    \<open>Rpc_Websocket_Lemmas\<close>.
  \<^item> \<open>Sample\<close>: a small chain with concrete externals on which the hypotheses of the properties hold.

  \<^bold>\<open>State and effects.\<close> A call that changes a state is a function from the state to the new state and an outcome
  (\<open>Effects\<close>); what was written before an error stays written. An outcome is a value, an error of the
  code's error type, or a panic: \<open>unwrap\<close>, \<open>expect\<close>, an index out of range, an overflow of a checked sum, or a
  failed assertion of a contract (\<open>requires\<close> and \<open>ensures\<close>, the attributes of the crate \<open>contracts\<close>, which are
  active in release builds). Unchecked sums and products of machine integers wrap, as in a release build. The
  clock and the peer are functions of the number of calls made so far, so that a peer may answer anything,
  differently every time, blocks of other heights included. The in-memory store is a sorted association list.
  Streams are scripts of what their reads bring and how much their writes take, so that the network may cut the
  bytes anywhere. Where two programs talk to each other, what a stream brings depends on what was written on it: it
  is what the other program has sent, run on the bytes written so far (\<open>facing_ops\<close> and \<open>peer_output\<close> for peers, \<open>faces\<close>
  and \<open>server_output\<close> for a client), so that a program that waits for an answer it has not asked for gets none. The
  ends of channels are numbers, with the set of receivers still held. The driver of the WebSocket connection is a step
  function over the events its \<open>select!\<close> may see, and the properties hold for every sequence.

  \<^bold>\<open>Interfaces.\<close> \<open>light_store\<close> states what a store promises over its abstract contents and is interpreted on
  the in-memory store; \<open>client_store\<close> extends it by the verifier, holds the proofs about the client, and is
  interpreted on that store with \<open>verify_update_header\<close>; \<open>codec\<close> is the contract of conversions; the hasher of
  the Merkle tree has a locale with an interpretation for each of the two implementations. \<open>logged_application\<close> is the
  contract of an application whose state follows from a log, interpreted on the key/value and the echo
  application; \<open>driver_invariant\<close> lifts what one event keeps to runs of the WebSocket driver, with three
  interpretations; \<open>terminable\<close> is the contract of the flag that ends a connection, interpreted on a secret
  connection and on its halves. Cryptography and
  encoders of the other crates are records of functions, with laws (\<open>aead_law\<close>, \<open>dh_law\<close>, \<open>signature_law\<close>,
  \<open>auth_sig_law\<close>, \<open>varint_law\<close>) that the witnesses discharge for concrete functions.

  \<^bold>\<open>What is shown.\<close>
  \<^item> \<open>Verifier_Properties\<close>: a successful verdict means the signatures of more than two thirds of the block's own
    validators, and of the trusted fraction of the trusted ones unless the block is adjacent, provided that
    addresses determine keys; blocks that meet the requirements are accepted; the tally neither wraps nor
    depends on the sharing of signature checks. Without the proviso one signature can stand for a whole set.
  \<^item> \<open>Client_Properties\<close> and this theory: whatever the peer answers, the search returns, and what is trusted or
    verified hangs on the initial trust by successful verifications; with an honest peer it succeeds and no
    assertion fails. The same from the builder on, with the hash the user gave.
  \<^item> \<open>Store_Properties\<close>: the store refines its contents; bisection is exact; where the scheduler panics; what a
    block of an unexpected height does to the store; the backward search of the feature \<open>unstable\<close>.
  \<^item> \<open>Detector_Properties\<close>: the detector returns; when it reports agreement; what a reported divergence proves
    about the witness's own answers; whom evidence accuses, and when making it panics.
  \<^item> \<open>Data_Properties\<close>: round trips through messages with the exact set of values off the wire; Merkle roots are
    those of RFC 6962 and bind their lists up to a collision of the digest; dates, heights, thresholds.
  \<^item> \<open>Signing_Properties\<close>: which parts of a vote and a proposal the sign bytes bind; the requests to the signer and the
    wire, and when decoding them panics.
  \<^item> \<open>Setup_Properties\<close>: what the production peer returns, and how it reads the node's error text.
  \<^item> \<open>P2p_Properties\<close>: two peers that follow the protocol get a working connection in every version, each reading only
    what the other has sent by then; an established connection has
    authenticated its peer, whoever that is; what is written arrives; nonces are never reused; a failure ends both
    halves; when reading panics.
  \<^item> \<open>Abci_Properties\<close>: messages arrive however the stream cuts them; every typed call of the client returns what the
    application answers to it, from a server that answers only what it has received; the default proposal is the longest prefix that fits; the key/value application and its driver
    implement a log of writes and commits.
  \<^item> \<open>Rpc_Properties\<close>: queries are read back from their text, and which are not; over every sequence of events
    responses go to the callers that asked, pending requests are answered, and events reach exactly the
    subscribers; what happens when the server rejects a subscription or a caller gives up.

  \<^bold>\<open>Termination.\<close> The loop of the forward search is a \<open>partial_function\<close> into options, and that it returns is
  proved for every peer, so there is no fuel and no bound. So is the loop of the server, which is shown to return
  when its stream ends. The other loops recurse on lists, on heights, or on the bytes that are left.

  \<^bold>\<open>Not modelled.\<close> Digests, curve arithmetic, ciphers, the byte encoding of \<open>prost\<close>, JSON, floating point text, the
  calendar of the crate \<open>time\<close>, sockets, threads and the HTTP transport are parameters or scripts of what they
  do. Left out: serde and text forms other than those named above, the \<open>sled\<close> store, the domain types of ABCI and the
  endpoints and dialects of RPC, which copy fields between structs, the message types of other protocol versions,
  configuration, genesis, the command line and JavaScript front ends, test generators, accepting connections, and
  reporting evidence over RPC. They are I/O, schemas read by third-party code, or copies of fields.
\<close>

section \<open>From the builder to the verified block\<close>

text \<open>
  C3. A client built on an empty in-memory store with the peer's block of a given height and hash: the
  builder succeeds only if the peer answers with a block of that height and hash that is within the
  trusting period and carries the validators its header names. Then \<open>verify_to_target\<close> returns for
  every target, whatever the peer answers later; every trusted or verified block of the store, and
  every block returned, hangs on that one block by successful verifications, and a returned block
  has the target height.
\<close>

theorem built_client_chain_of_trust:
  assumes "lc_verifier C = verify_update_header X" "lc_scheduler C = basic_bisecting_schedule"
    and "trust_primary_at X memory_ops h hash (builder_custom C memory_new) = (B, Ok ())"
  shows "\<exists>root. lc_io C 0 (At h) = Ok root \<and> lb_height root = h
    \<and> header_hash X (sh_header (lb_signed_header root)) = hash
    \<and> acceptable_root X (lc_options C) (lc_clock C 0) root
    \<and> (\<exists>st' r. verify_to_target X memory_ops (in_light_client (build B)) target (in_state (build B)) = Some (st', r)
         \<and> vouched (trust_chain (lc_verifier C) (lc_options C) (lc_clock C) {root}) (memory_view (st_light_store st'))
         \<and> (\<forall>b. r = Ok b \<longrightarrow> lb_height b = target
              \<and> trust_chain (lc_verifier C) (lc_options C) (lc_clock C) {root} b))"
proof -
  let ?P = "\<lambda>root. trust_chain (lc_verifier C) (lc_options C) (lc_clock C) {root}"
  from assms(3) obtain root where root: "lc_io C 0 (At h) = Ok root" "lb_height root = h"
      "header_hash X (sh_header (lb_signed_header root)) = hash" "acceptable_root X (lc_options C) (lc_clock C 0) root"
      "B = \<lparr>bd_light_client = C, bd_light_store = memory_insert memory_new root Trusted, bd_ticks = 1, bd_fetches = 1\<rparr>"
    by (auto simp: trust_primary_at_Ok builder_custom_def memory_ops_def)
  let ?st = "in_state (build B)"
  have st: "st_light_store ?st = [(h, \<lparr>se_light_block = root, se_status = Trusted\<rparr>)]" "in_light_client (build B) = C"
    by (simp_all add: build_def root(2,5) memory_insert_def memory_new_def)
  have inv: "memory_inv (st_light_store ?st)" by (simp add: st memory_inv_def bt_inv_def root(2))
  have start: "vouched (?P root) (memory_view (st_light_store ?st))"
    by (auto simp: vouched_def st memory_view_def intro: trust_chain.root split: if_splits)
  obtain st' r where run: "verify_to_target X memory_ops C target ?st = Some (st', r)"
    using prod.verify_to_target_returns [OF inv assms(1,2), of "verify_backward memory_ops" X target]
    by (auto simp: verify_to_target_def)
  note vouched = verify_to_target_vouched [OF assms(1) inv start run]
  show ?thesis using root(1-4) run vouched(2,3) by (auto simp: st)
qed

lemma sample_root_trusted:
  "\<exists>B. trust_primary_at sample_externals memory_ops 1 (header_hash sample_externals (sample_header 1))
     (builder_custom sample_client memory_new) = (B, Ok ())"
proof -
  have "sample_time 100 < sample_time 1 + int (opt_trusting_period sample_options)"
      "sample_time 1 + int (opt_trusting_period sample_options) < year_10000"
      "sample_time 100 + int (opt_clock_drift sample_options) < year_10000"
      "sample_time 1 < sample_time 100 + int (opt_clock_drift sample_options)"
    by (simp_all add: sample_time_def sample_options_def year_10000_def)
  then have "acceptable_root sample_externals sample_options (sample_time 100) (sample_block 1)"
    using sample_time_inv [of 1] sample_time_inv [of 100]
    by (simp add: acceptable_root_def Let_def header_from_past_Ok)
      (simp add: sample_simps trust_period_Ok)
  moreover have "sh_header (lb_signed_header (sample_block 1)) = sample_header 1"
    by (simp add: sample_block_def sample_signed_header_def)
  ultimately show ?thesis
    by (simp add: trust_primary_at_Ok builder_custom_def del: sample_header_hash)
qed

theorem built_client_chain_of_trust_witness:
  "\<exists>B st' r. trust_primary_at sample_externals memory_ops 1 (header_hash sample_externals (sample_header 1))
       (builder_custom sample_client memory_new) = (B, Ok ())
     \<and> verify_to_target sample_externals memory_ops (in_light_client (build B)) 5 (in_state (build B)) = Some (st', r)
     \<and> vouched (trust_chain (verify_update_header sample_externals) sample_options (lc_clock sample_client) {sample_block 1})
         (memory_view (st_light_store st'))"
proof -
  obtain B where B: "trust_primary_at sample_externals memory_ops 1 (header_hash sample_externals (sample_header 1))
      (builder_custom sample_client memory_new) = (B, Ok ())" using sample_root_trusted by blast
  show ?thesis
    using built_client_chain_of_trust [OF sample_client_simps(5,4) B, of 5] B by auto
qed

end
